theory Spec2Isabelle
  imports Main "HOL-Library.Word" "HOL-Library.Multiset"
begin

section \<open>The static lighting build of StaticLightingSystem.cpp\<close>

text \<open>
  A shallow embedding of \<^verbatim>\<open>FStaticLightingManager\<close> and \<^verbatim>\<open>FStaticLightingSystem\<close>
  (Engine/Source/Editor/UnrealEd/Private/StaticLightingSystem/StaticLightingSystem.cpp).
  Objects reached through pointers are records; a pointer that the source tests against
  NULL is an \<open>option\<close>. An assertion that fails (\<^verbatim>\<open>check\<close>, the range check of
  \<^verbatim>\<open>TArray::operator[]\<close>) and a dereferenced NULL pointer stop the editor: they are the
  \<open>Inl\<close> results of the functions below.

  Collaborators whose code is outside this file (the Swarm processor, the Slate
  application, the crash tracker, the components' \<^verbatim>\<open>GetStaticLightingInfo\<close>) appear
  through the values they return: fields of the world, or the record \<open>FExternal\<close>.
  Bounding boxes, timing statistics, progress bars and the contents of BSP vertex buffers
  are floating point or presentation data that no function below branches on; they are
  left out. The reads of the arrays that fill the vertex buffers are checked and kept.
\<close>

subsection \<open>Errors and arrays\<close>

datatype error = AssertionFailed | NullDereference

definition INDEX_NONE :: int where
  "INDEX_NONE = - 1"

text \<open>
  An \<^verbatim>\<open>int32\<close> holds the integers from \<open>- 2 ^ 31\<close> to \<open>2 ^ 31 - 1\<close>; the result of
  arithmetic that leaves this range wraps around (two's complement).
\<close>

definition int32 :: "int \<Rightarrow> int" where
  "int32 i = (i + 2 ^ 31) mod 2 ^ 32 - 2 ^ 31"

text \<open>\<^verbatim>\<open>TArray::operator[]\<close> checks its index.\<close>

definition TArray_at :: "'a list \<Rightarrow> int \<Rightarrow> error + 'a" where
  "TArray_at xs i =
     (if 0 \<le> i \<and> i < int (length xs) then Inr (xs ! nat i) else Inl AssertionFailed)"

definition AddUnique :: "'a list \<Rightarrow> 'a \<Rightarrow> 'a list" where
  "AddUnique xs x = (if x \<in> set xs then xs else xs @ [x])"

subsection \<open>Meshes, mappings and GUIDs\<close>

record FGuid =
  GuidA :: "32 word"
  GuidB :: "32 word"
  GuidC :: "32 word"
  GuidD :: "32 word"

definition MakeGuid :: "32 word \<Rightarrow> 32 word \<Rightarrow> 32 word \<Rightarrow> 32 word \<Rightarrow> FGuid" where
  "MakeGuid a b c d = \<lparr>GuidA = a, GuidB = b, GuidC = c, GuidD = d\<rparr>"

text \<open>
  A mesh is a heap object, written through \<^verbatim>\<open>Meshes[i]\<close> and through
  \<^verbatim>\<open>Mapping->Mesh\<close>. Its address is either one handed out by a component's
  \<^verbatim>\<open>GetStaticLightingInfo\<close>, or the n-th \<^verbatim>\<open>new FBSPSurfaceStaticLighting\<close> of the
  system (an object that is both mesh and mapping).
\<close>

datatype mesh_ref = ComponentMesh nat | BSPSurface nat

record FStaticLightingMesh =
  Guid :: FGuid
  VisibilityIds :: "int list"

text \<open>
  \<open>TexelCount\<close> is what \<^verbatim>\<open>GetTexelCount()\<close> returns. The arrays of the system hold
  pointers to mappings; a mapping is written once, when it is added, so the lists below
  hold the mapping with the flag it has from then on.
\<close>

record FStaticLightingMapping =
  Mesh :: "mesh_ref option"
  bProcessMapping :: bool
  TexelCount :: int

record FStaticLightingMappingSortHelper =
  Mapping :: FStaticLightingMapping
  NumTexels :: int

record FStaticLightingPrimitiveInfo =
  InfoVisibilityId :: int
  InfoMeshes :: "mesh_ref option list"
  InfoMappings :: "FStaticLightingMapping list"

subsection \<open>The world\<close>

datatype EComponentMobility = Static | Stationary | Movable

text \<open>
  \<open>StaticLightingInfo\<close> is what the component's \<^verbatim>\<open>GetStaticLightingInfo\<close> fills in
  when it is queried. \<^verbatim>\<open>UModelComponent\<close> derives from \<^verbatim>\<open>UPrimitiveComponent\<close>.
\<close>

record UPrimitiveComponent =
  VisibilityId :: int
  bRegistered :: bool
  Mobility :: EComponentMobility
  bStaticLightingBuildEnqueued :: bool
  StaticLightingInfo :: FStaticLightingPrimitiveInfo

record AActor =
  bSelected :: bool
  Components :: "UPrimitiveComponent list"

text \<open>
  An \<^verbatim>\<open>FVector\<close> is three floats. The build copies the vectors it reads into vertex
  buffers and computes with them there; it never branches on one, so a vector stands
  here without its coordinates.
\<close>

datatype FVector = FVector

text \<open>
  The fields of \<^verbatim>\<open>FBspNode\<close>, \<^verbatim>\<open>FBspSurf\<close> and \<^verbatim>\<open>FVert\<close> that the build reads.
  The indices are \<^verbatim>\<open>int32\<close>; \<open>NumVertices\<close> is an unsigned count.
\<close>

record FBspNode =
  iSurf :: int
  iVertPool :: int
  NumVertices :: nat
  ComponentIndex :: int

record FBspSurf =
  pBase :: int
  vTextureU :: int
  vTextureV :: int
  vNormal :: int

record FVert =
  pVertex :: int

record FNodeGroup =
  GroupNodes :: "int list"
  GroupTexelCount :: int

text \<open>
  The arrays of \<^verbatim>\<open>UModel\<close> that the build indexes. \<open>NodeGroups\<close> is the map of that
  name as \<^verbatim>\<open>GroupAllNodes\<close> leaves it, in iteration order, each group under its key.
\<close>

record UModel =
  Nodes :: "FBspNode list"
  Surfs :: "FBspSurf list"
  Points :: "FVector list"
  Vectors :: "FVector list"
  Verts :: "FVert list"
  NodeGroups :: "(int \<times> FNodeGroup option) list"

text \<open>
  \<open>SelectedSurfaceIndices\<close> is the array of that name once the two passes over the
  selected surfaces and brushes (lines 793 to 876) have filled it; the passes themselves
  are not modelled. \<open>bShouldBuildLightingForLevel\<close> is the answer of
  \<^verbatim>\<open>Options.ShouldBuildLightingForLevel(Level)\<close>, \<open>bPackageDirty\<close> is set by
  \<^verbatim>\<open>MarkPackageDirty\<close>.
\<close>

record ULevel =
  Actors :: "AActor option list"
  ModelComponents :: "UPrimitiveComponent option list"
  Model :: UModel
  SelectedSurfaceIndices :: "int list"
  bShouldBuildLightingForLevel :: bool
  bPackageDirty :: bool

text \<open>
  \<open>OtherPrimitiveComponents\<close> are the primitive components that exist in the process
  outside the levels of the world (a \<^verbatim>\<open>TObjectIterator\<close> visits them too).
\<close>

record UWorld =
  Levels :: "ULevel list"
  OtherPrimitiveComponents :: "UPrimitiveComponent list"
  bPrecomputeVisibility :: bool
  bForceNoPrecomputedLighting :: bool

subsection \<open>Options and the system\<close>

record FLightingBuildOptions =
  bOnlyBuildSelected :: bool
  bOnlyBuildVisibility :: bool
  bDumpBinaryResults :: bool

record FLightmassDebugOptions =
  bSortMappings :: bool
  bUseImmediateImport :: bool
  bImmediateProcessMappings :: bool

datatype EBuildStage =
  NotRunning | Startup | AmortizedExport | SwarmKickoff | AsynchronousBuilding
  | AutoApplyingImport | WaitingForImport | Import

text \<open>
  \<open>DeterministicIndex\<close> is an \<^verbatim>\<open>int32\<close> whose bits \<^verbatim>\<open>FGuid\<close> receives as
  \<^verbatim>\<open>uint32\<close>. \<open>NextVisibilityId\<close> is an \<^verbatim>\<open>int32\<close>, and so is the
  \<open>VisibilityId\<close> of a component: the increments below wrap around.
  \<open>LightmassProcessor\<close> is true when the pointer is not NULL.
  \<open>MeshObjects\<close> is the part of the heap that holds the meshes, and
  \<open>NumBSPSurfaces\<close> counts the \<^verbatim>\<open>FBSPSurfaceStaticLighting\<close> objects allocated.
\<close>

record FStaticLightingSystem =
  Options :: FLightingBuildOptions
  bBuildCanceled :: bool
  DeterministicIndex :: "32 word"
  NextVisibilityId :: int
  CurrentBuildStage :: EBuildStage
  bCrashTrackerOriginallyEnabled :: bool
  LightmassProcessor :: bool
  Meshes :: "mesh_ref list"
  Mappings :: "FStaticLightingMapping list"
  UnSortedMappings :: "FStaticLightingMappingSortHelper list"
  MeshObjects :: "mesh_ref \<Rightarrow> FStaticLightingMesh"
  NumBSPSurfaces :: nat

subsection \<open>AddPrimitiveStaticLightingInfo\<close>

text \<open>\<^verbatim>\<open>Mesh->Guid = FGuid(0,0,0,DeterministicIndex++)\<close>\<close>

definition AssignDeterministicGuid :: "mesh_ref \<Rightarrow> FStaticLightingSystem \<Rightarrow> FStaticLightingSystem" where
  "AssignDeterministicGuid m s =
     s\<lparr>MeshObjects := (MeshObjects s)
          (m := (MeshObjects s m)\<lparr>Guid := MakeGuid 0 0 0 (DeterministicIndex s)\<rparr>),
       DeterministicIndex := DeterministicIndex s + 1\<rparr>"

definition AddVisibilityId :: "mesh_ref \<Rightarrow> int \<Rightarrow> FStaticLightingSystem \<Rightarrow> FStaticLightingSystem" where
  "AddVisibilityId m v s =
     s\<lparr>MeshObjects := (MeshObjects s)
          (m := (MeshObjects s m)\<lparr>VisibilityIds := VisibilityIds (MeshObjects s m) @ [v]\<rparr>)\<rparr>"

text \<open>The first loop (lines 1612 to 1630); \<^verbatim>\<open>Mesh->VisibilityIds\<close> dereferences the mesh.\<close>

fun AddPrimitiveMeshes ::
  "FLightmassDebugOptions \<Rightarrow> bool \<Rightarrow> int \<Rightarrow> mesh_ref option list \<Rightarrow> FStaticLightingSystem
     \<Rightarrow> error + FStaticLightingSystem" where
  "AddPrimitiveMeshes dbg bBuildActorLighting v [] s = Inr s"
| "AddPrimitiveMeshes dbg bBuildActorLighting v (None # ms) s = Inl NullDereference"
| "AddPrimitiveMeshes dbg bBuildActorLighting v (Some m # ms) s =
     (let s1 = AddVisibilityId m v s;
          s2 = (if \<not> bSortMappings dbg \<and> bBuildActorLighting
                then AssignDeterministicGuid m s1 else s1);
          s3 = s2\<lparr>Meshes := Meshes s2 @ [m]\<rparr>
      in AddPrimitiveMeshes dbg bBuildActorLighting v ms s3)"

text \<open>The second loop (lines 1633 to 1665).\<close>

fun AddPrimitiveMappings ::
  "FLightmassDebugOptions \<Rightarrow> bool \<Rightarrow> FStaticLightingMapping list \<Rightarrow> FStaticLightingSystem
     \<Rightarrow> FStaticLightingSystem" where
  "AddPrimitiveMappings dbg bBuildActorLighting [] s = s"
| "AddPrimitiveMappings dbg bBuildActorLighting (c # cs) s =
     (let CurrentMapping = (if bBuildActorLighting then c\<lparr>bProcessMapping := True\<rparr> else c);
          s1 = (if bSortMappings dbg
                then s\<lparr>UnSortedMappings := UnSortedMappings s @
                        [\<lparr>Mapping = CurrentMapping, NumTexels = TexelCount CurrentMapping\<rparr>]\<rparr>
                else s\<lparr>Mappings := Mappings s @ [CurrentMapping]\<rparr>)
      in AddPrimitiveMappings dbg bBuildActorLighting cs s1)"

definition AddPrimitiveStaticLightingInfo ::
  "FLightmassDebugOptions \<Rightarrow> FStaticLightingPrimitiveInfo \<Rightarrow> bool \<Rightarrow> FStaticLightingSystem
     \<Rightarrow> error + FStaticLightingSystem" where
  "AddPrimitiveStaticLightingInfo dbg PrimitiveInfo bBuildActorLighting s =
     (if length (InfoMeshes PrimitiveInfo) \<noteq> length (InfoMappings PrimitiveInfo)
      then Inl AssertionFailed
      else case AddPrimitiveMeshes dbg bBuildActorLighting (InfoVisibilityId PrimitiveInfo)
                  (InfoMeshes PrimitiveInfo) s of
             Inl e \<Rightarrow> Inl e
           | Inr s1 \<Rightarrow>
               Inr (AddPrimitiveMappings dbg bBuildActorLighting (InfoMappings PrimitiveInfo) s1))"

subsection \<open>AddBSPStaticLightingInfo\<close>

text \<open>
  Lines 1428 to 1467 and 1570 to 1599: the \<^verbatim>\<open>new FBSPSurfaceStaticLighting\<close>, which is
  mesh and mapping at once, is added to \<open>Meshes\<close> and to the mappings. \<open>ids\<close> is
  \<open>Some ComponentVisibilityIds\<close> in the whole-level version, which stores them in the
  new object, and \<open>None\<close> in the version for chosen node groups, which does not.
\<close>

definition AddSurfaceStaticLighting ::
  "FLightmassDebugOptions \<Rightarrow> bool \<Rightarrow> int list option \<Rightarrow> int \<Rightarrow> FStaticLightingSystem
     \<Rightarrow> FStaticLightingSystem" where
  "AddSurfaceStaticLighting dbg bBuildLightingForBSP ids texels s =
     (let SurfaceStaticLighting = BSPSurface (NumBSPSurfaces s);
          obj = MeshObjects s SurfaceStaticLighting;
          s1 = s\<lparr>NumBSPSurfaces := NumBSPSurfaces s + 1,
                 MeshObjects := (MeshObjects s)(SurfaceStaticLighting :=
                    (case ids of None \<Rightarrow> obj | Some v \<Rightarrow> obj\<lparr>VisibilityIds := v\<rparr>)),
                 Meshes := Meshes s @ [SurfaceStaticLighting]\<rparr>;
          CurrentMapping = \<lparr>Mesh = Some SurfaceStaticLighting,
                            bProcessMapping = bBuildLightingForBSP, TexelCount = texels\<rparr>
      in if bSortMappings dbg
         then s1\<lparr>UnSortedMappings := UnSortedMappings s1 @
                  [\<lparr>Mapping = CurrentMapping, NumTexels = TexelCount CurrentMapping\<rparr>]\<rparr>
         else (let s2 = s1\<lparr>Mappings := Mappings s1 @ [CurrentMapping]\<rparr>
               in if bBuildLightingForBSP
                  then AssignDeterministicGuid SurfaceStaticLighting s2 else s2))"

text \<open>
  The loop that generates a node's vertices (lines 1378 to 1396 and 1533 to 1551), over
  the values of \<^verbatim>\<open>VertexIndex\<close>: it reads \<^verbatim>\<open>Model->Verts[Node.iVertPool + VertexIndex]\<close>
  and \<^verbatim>\<open>Model->Points[Vert.pVertex]\<close>. The sum is computed in 32 bits.
\<close>

fun GenerateNodeVertices :: "UModel \<Rightarrow> FBspNode \<Rightarrow> nat list \<Rightarrow> error + unit" where
  "GenerateNodeVertices M Node [] = Inr ()"
| "GenerateNodeVertices M Node (VertexIndex # vs) =
     (case TArray_at (Verts M) (int32 (iVertPool Node + int VertexIndex)) of
        Inl e \<Rightarrow> Inl e
      | Inr Vert \<Rightarrow>
         (case TArray_at (Points M) (pVertex Vert) of
            Inl e \<Rightarrow> Inl e
          | Inr VertexWorldPosition \<Rightarrow> GenerateNodeVertices M Node vs))"

text \<open>
  What both versions of \<^verbatim>\<open>AddBSPStaticLightingInfo\<close> read for the node with index \<open>ni\<close>
  before they cache its vertices and triangles (lines 1366 to 1396 and 1521 to 1551):
  the node, its surface, the surface's base point, its two texture vectors and its
  normal, then the node's vertices. The loop over the triangles reads no array. The
  result is the node.
\<close>

definition CacheNodeVertices :: "UModel \<Rightarrow> int \<Rightarrow> error + FBspNode" where
  "CacheNodeVertices M ni =
     (case TArray_at (Nodes M) ni of
        Inl e \<Rightarrow> Inl e
      | Inr Node \<Rightarrow>
     (case TArray_at (Surfs M) (iSurf Node) of
        Inl e \<Rightarrow> Inl e
      | Inr NodeSurf \<Rightarrow>
     (case TArray_at (Points M) (pBase NodeSurf) of
        Inl e \<Rightarrow> Inl e
      | Inr TextureBase \<Rightarrow>
     (case TArray_at (Vectors M) (vTextureU NodeSurf) of
        Inl e \<Rightarrow> Inl e
      | Inr TextureX \<Rightarrow>
     (case TArray_at (Vectors M) (vTextureV NodeSurf) of
        Inl e \<Rightarrow> Inl e
      | Inr TextureY \<Rightarrow>
     (case TArray_at (Vectors M) (vNormal NodeSurf) of
        Inl e \<Rightarrow> Inl e
      | Inr NodeTangentZ \<Rightarrow>
     (case GenerateNodeVertices M Node [0..<NumVertices Node] of
        Inl e \<Rightarrow> Inl e
      | Inr u \<Rightarrow> Inr Node)))))))"

text \<open>
  The node loop of the whole-level version (lines 1363 to 1419). The tuple is the
  level's model components, the system, \<^verbatim>\<open>bMarkLevelDirty\<close> and
  \<^verbatim>\<open>ComponentVisibilityIds\<close>.
\<close>

fun BSPNodeLoop ::
  "bool \<Rightarrow> UModel \<Rightarrow> int list
     \<Rightarrow> UPrimitiveComponent option list \<times> FStaticLightingSystem \<times> bool \<times> int list
     \<Rightarrow> error + (UPrimitiveComponent option list \<times> FStaticLightingSystem \<times> bool \<times> int list)" where
  "BSPNodeLoop bPrecompute M [] st = Inr st"
| "BSPNodeLoop bPrecompute M (ni # nis) (mcs, s, dirty, ids) =
     (case CacheNodeVertices M ni of
        Inl e \<Rightarrow> Inl e
      | Inr Node \<Rightarrow>
         (case TArray_at mcs (ComponentIndex Node) of
            Inl e \<Rightarrow> Inl e
          | Inr None \<Rightarrow> Inl NullDereference
          | Inr (Some Component) \<Rightarrow>
              if VisibilityId Component = INDEX_NONE
              then BSPNodeLoop bPrecompute M nis
                     (mcs[nat (ComponentIndex Node) :=
                            Some (Component\<lparr>VisibilityId := NextVisibilityId s\<rparr>)],
                      s\<lparr>NextVisibilityId := int32 (NextVisibilityId s + 1)\<rparr>,
                      dirty \<or> bPrecompute,
                      AddUnique ids (NextVisibilityId s))
              else BSPNodeLoop bPrecompute M nis
                     (mcs, s, dirty, AddUnique ids (VisibilityId Component))))"

text \<open>The loop over \<^verbatim>\<open>Model->NodeGroups\<close> (lines 1344 to 1470).\<close>

fun AddBSPNodeGroups ::
  "FLightmassDebugOptions \<Rightarrow> bool \<Rightarrow> bool \<Rightarrow> UModel \<Rightarrow> (int \<times> FNodeGroup option) list
     \<Rightarrow> UPrimitiveComponent option list \<times> FStaticLightingSystem \<times> bool
     \<Rightarrow> error + (UPrimitiveComponent option list \<times> FStaticLightingSystem \<times> bool)" where
  "AddBSPNodeGroups dbg bPrecompute bBuildLightingForBSP M [] st = Inr st"
| "AddBSPNodeGroups dbg bPrecompute bBuildLightingForBSP M ((k, None) # gs) st =
     Inl NullDereference"
| "AddBSPNodeGroups dbg bPrecompute bBuildLightingForBSP M ((k, Some NodeGroup) # gs)
       (mcs, s, dirty) =
     (if GroupNodes NodeGroup = []
      then AddBSPNodeGroups dbg bPrecompute bBuildLightingForBSP M gs (mcs, s, dirty)
      else
        (case TArray_at (Nodes M) (hd (GroupNodes NodeGroup)) of
           Inl e \<Rightarrow> Inl e
         | Inr FirstNode \<Rightarrow>
            (case TArray_at mcs (ComponentIndex FirstNode) of
               Inl e \<Rightarrow> Inl e
             | Inr None \<Rightarrow> Inl NullDereference
             | Inr (Some SomeModelComponent) \<Rightarrow>
                (case BSPNodeLoop bPrecompute M (GroupNodes NodeGroup) (mcs, s, dirty, []) of
                   Inl e \<Rightarrow> Inl e
                 | Inr (mcs1, s1, dirty1, ComponentVisibilityIds) \<Rightarrow>
                     AddBSPNodeGroups dbg bPrecompute bBuildLightingForBSP M gs
                       (mcs1,
                        AddSurfaceStaticLighting dbg bBuildLightingForBSP
                          (Some ComponentVisibilityIds) (GroupTexelCount NodeGroup) s1,
                        dirty1)))))"

definition MarkPackageDirty :: "ULevel \<Rightarrow> ULevel" where
  "MarkPackageDirty Level = Level\<lparr>bPackageDirty := True\<rparr>"

text \<open>\<^verbatim>\<open>AddBSPStaticLightingInfo(ULevel*, bool)\<close>\<close>

definition AddBSPStaticLightingInfo ::
  "FLightmassDebugOptions \<Rightarrow> bool \<Rightarrow> ULevel \<Rightarrow> bool \<Rightarrow> FStaticLightingSystem
     \<Rightarrow> error + (ULevel \<times> FStaticLightingSystem)" where
  "AddBSPStaticLightingInfo dbg bPrecompute Level bBuildLightingForBSP s =
     (case AddBSPNodeGroups dbg bPrecompute bBuildLightingForBSP (Model Level)
             (NodeGroups (Model Level)) (ModelComponents Level, s, False) of
        Inl e \<Rightarrow> Inl e
      | Inr (mcs, s1, bMarkLevelDirty) \<Rightarrow>
          Inr ((if bMarkLevelDirty then MarkPackageDirty else id)
                 (Level\<lparr>ModelComponents := mcs\<rparr>), s1))"

text \<open>The node loop of the version for chosen node groups (lines 1519 to 1563).\<close>

fun CacheGroupVertices :: "UModel \<Rightarrow> int list \<Rightarrow> error + unit" where
  "CacheGroupVertices M [] = Inr ()"
| "CacheGroupVertices M (ni # nis) =
     (case CacheNodeVertices M ni of
        Inl e \<Rightarrow> Inl e
      | Inr Node \<Rightarrow> CacheGroupVertices M nis)"

text \<open>
  \<^verbatim>\<open>AddBSPStaticLightingInfo(ULevel*, TArray<FNodeGroup*>&)\<close> (lines 1501 to 1602). It
  reads the first node's component and, for every node of the group, the arrays of the
  model; it assigns no visibility id, and always tags the mapping for rebuild.
\<close>

fun AddBSPStaticLightingInfoGroups ::
  "FLightmassDebugOptions \<Rightarrow> ULevel \<Rightarrow> FNodeGroup option list \<Rightarrow> FStaticLightingSystem
     \<Rightarrow> error + FStaticLightingSystem" where
  "AddBSPStaticLightingInfoGroups dbg Level [] s = Inr s"
| "AddBSPStaticLightingInfoGroups dbg Level (None # gs) s =
     AddBSPStaticLightingInfoGroups dbg Level gs s"
| "AddBSPStaticLightingInfoGroups dbg Level (Some NodeGroup # gs) s =
     (if GroupNodes NodeGroup = []
      then AddBSPStaticLightingInfoGroups dbg Level gs s
      else
        (case TArray_at (Nodes (Model Level)) (hd (GroupNodes NodeGroup)) of
           Inl e \<Rightarrow> Inl e
         | Inr FirstNode \<Rightarrow>
            (case TArray_at (ModelComponents Level) (ComponentIndex FirstNode) of
               Inl e \<Rightarrow> Inl e
             | Inr None \<Rightarrow> Inl NullDereference
             | Inr (Some SomeModelComponent) \<Rightarrow>
                (case CacheGroupVertices (Model Level) (GroupNodes NodeGroup) of
                   Inl e \<Rightarrow> Inl e
                 | Inr u \<Rightarrow>
                     AddBSPStaticLightingInfoGroups dbg Level gs
                       (AddSurfaceStaticLighting dbg True None (GroupTexelCount NodeGroup) s)))))"

subsection \<open>GatherStaticLightingInfo\<close>

text \<open>
  Lines 878 to 898: the node groups with a node on a selected surface. A node group is
  a pointer; it is identified here by its key in \<^verbatim>\<open>Model->NodeGroups\<close>. The pair is
  \<^verbatim>\<open>NodeGroupsToBuild\<close> and \<^verbatim>\<open>bBuildBSPLighting\<close>.
\<close>

fun SelectGroupNodes ::
  "FBspNode list \<Rightarrow> int list \<Rightarrow> int \<times> FNodeGroup \<Rightarrow> int list
     \<Rightarrow> (int \<times> FNodeGroup) list \<times> bool \<Rightarrow> error + ((int \<times> FNodeGroup) list \<times> bool)" where
  "SelectGroupNodes nodes sel g [] st = Inr st"
| "SelectGroupNodes nodes sel g (ni # nis) (NodeGroupsToBuild, bBuildBSPLighting) =
     (case TArray_at nodes ni of
        Inl e \<Rightarrow> Inl e
      | Inr Node \<Rightarrow>
          if iSurf Node \<in> set sel
          then SelectGroupNodes nodes sel g nis (AddUnique NodeGroupsToBuild g, True)
          else SelectGroupNodes nodes sel g nis (NodeGroupsToBuild, bBuildBSPLighting))"

fun SelectNodeGroups ::
  "FBspNode list \<Rightarrow> int list \<Rightarrow> (int \<times> FNodeGroup option) list
     \<Rightarrow> (int \<times> FNodeGroup) list \<times> bool \<Rightarrow> error + ((int \<times> FNodeGroup) list \<times> bool)" where
  "SelectNodeGroups nodes sel [] st = Inr st"
| "SelectNodeGroups nodes sel ((k, None) # gs) st = SelectNodeGroups nodes sel gs st"
| "SelectNodeGroups nodes sel ((k, Some NodeGroup) # gs) st =
     (case SelectGroupNodes nodes sel (k, NodeGroup) (GroupNodes NodeGroup) st of
        Inl e \<Rightarrow> Inl e
      | Inr st1 \<Rightarrow> SelectNodeGroups nodes sel gs st1)"

text \<open>The BSP part of one level (lines 779 to 917).\<close>

definition GatherLevelBSP ::
  "FLightmassDebugOptions \<Rightarrow> bool \<Rightarrow> bool \<Rightarrow> ULevel \<Rightarrow> FStaticLightingSystem
     \<Rightarrow> error + (ULevel \<times> FStaticLightingSystem)" where
  "GatherLevelBSP dbg bPrecompute bForceNoPrecomputed Level s =
     (let bBuildLightingForLevel = bShouldBuildLightingForLevel Level;
          selection =
            (if bBuildLightingForLevel \<and> \<not> bOnlyBuildVisibility (Options s)
                \<and> bOnlyBuildSelected (Options s)
             then (if SelectedSurfaceIndices Level \<noteq> []
                   then SelectNodeGroups (Nodes (Model Level)) (SelectedSurfaceIndices Level)
                          (NodeGroups (Model Level)) ([], False)
                   else Inr ([], False))
             else Inr ([], bBuildLightingForLevel))
      in case selection of
           Inl e \<Rightarrow> Inl e
         | Inr (NodeGroupsToBuild, bBuildBSPLighting) \<Rightarrow>
             if bBuildBSPLighting \<and> \<not> bForceNoPrecomputed
             then (if \<not> bOnlyBuildSelected (Options s) \<or> bOnlyBuildVisibility (Options s)
                   then AddBSPStaticLightingInfo dbg bPrecompute Level bBuildBSPLighting s
                   else if NodeGroupsToBuild \<noteq> []
                   then (case AddBSPStaticLightingInfoGroups dbg Level
                                (map (Some \<circ> snd) NodeGroupsToBuild) s of
                           Inl e \<Rightarrow> Inl e
                         | Inr s1 \<Rightarrow> Inr (Level, s1))
                   else Inr (Level, s))
             else Inr (Level, s))"

text \<open>
  The loop over an actor's components (lines 946 to 981). The pair threaded through is
  the system and \<^verbatim>\<open>bMarkLevelDirty\<close>; the components are returned as the loop leaves
  them.
\<close>

fun GatherComponents ::
  "FLightmassDebugOptions \<Rightarrow> bool \<Rightarrow> bool \<Rightarrow> bool \<Rightarrow> UPrimitiveComponent list
     \<Rightarrow> FStaticLightingSystem \<times> bool
     \<Rightarrow> error + (UPrimitiveComponent list \<times> FStaticLightingSystem \<times> bool)" where
  "GatherComponents dbg bPrecompute bForceNoPrecomputed bBuildActorLighting [] (s, dirty) =
     Inr ([], s, dirty)"
| "GatherComponents dbg bPrecompute bForceNoPrecomputed bBuildActorLighting (Primitive # ps)
       (s, dirty) =
     (if bRegistered Primitive \<and> \<not> bForceNoPrecomputed
      then
        (let PrimitiveInfo = StaticLightingInfo Primitive;
             bAssign = (InfoMeshes PrimitiveInfo \<noteq> [] \<and> Mobility Primitive = Static);
             dirty1 = (if bAssign \<and> bPrecompute then True else dirty);
             PrimitiveInfo1 = (if bAssign
                               then PrimitiveInfo\<lparr>InfoVisibilityId := NextVisibilityId s\<rparr>
                               else PrimitiveInfo);
             Primitive1 = (if bAssign
                           then Primitive\<lparr>VisibilityId := NextVisibilityId s\<rparr>
                           else Primitive);
             s1 = (if bAssign then s\<lparr>NextVisibilityId := int32 (NextVisibilityId s + 1)\<rparr>
                   else s)
         in case AddPrimitiveStaticLightingInfo dbg PrimitiveInfo1 bBuildActorLighting s1 of
              Inl e \<Rightarrow> Inl e
            | Inr s2 \<Rightarrow>
               (case GatherComponents dbg bPrecompute bForceNoPrecomputed bBuildActorLighting
                       ps (s2, dirty1) of
                  Inl e \<Rightarrow> Inl e
                | Inr (ps', s3, dirty3) \<Rightarrow> Inr (Primitive1 # ps', s3, dirty3)))
      else
        (case GatherComponents dbg bPrecompute bForceNoPrecomputed bBuildActorLighting
                ps (s, dirty) of
           Inl e \<Rightarrow> Inl e
         | Inr (ps', s3, dirty3) \<Rightarrow> Inr (Primitive # ps', s3, dirty3)))"

text \<open>The loop over the actors of a level (lines 920 to 990).\<close>

fun GatherActors ::
  "FLightmassDebugOptions \<Rightarrow> bool \<Rightarrow> bool \<Rightarrow> bool \<Rightarrow> AActor option list
     \<Rightarrow> FStaticLightingSystem \<times> bool
     \<Rightarrow> error + (AActor option list \<times> FStaticLightingSystem \<times> bool)" where
  "GatherActors dbg bPrecompute bForceNoPrecomputed bBuildLightingForLevel [] (s, dirty) =
     Inr ([], s, dirty)"
| "GatherActors dbg bPrecompute bForceNoPrecomputed bBuildLightingForLevel (None # as)
       (s, dirty) =
     (case GatherActors dbg bPrecompute bForceNoPrecomputed bBuildLightingForLevel as
             (s, dirty) of
        Inl e \<Rightarrow> Inl e
      | Inr (as', s1, dirty1) \<Rightarrow> Inr (None # as', s1, dirty1))"
| "GatherActors dbg bPrecompute bForceNoPrecomputed bBuildLightingForLevel (Some Actor # as)
       (s, dirty) =
     (let bBuildActorLighting =
            (bBuildLightingForLevel \<and> (\<not> bOnlyBuildSelected (Options s) \<or> bSelected Actor));
          comps = (if bBuildActorLighting \<and> \<not> bOnlyBuildVisibility (Options s)
                   then map (\<lambda>c. c\<lparr>bStaticLightingBuildEnqueued := True\<rparr>) (Components Actor)
                   else Components Actor)
      in case GatherComponents dbg bPrecompute bForceNoPrecomputed bBuildActorLighting
                comps (s, dirty) of
           Inl e \<Rightarrow> Inl e
         | Inr (comps', s1, dirty1) \<Rightarrow>
            (case GatherActors dbg bPrecompute bForceNoPrecomputed bBuildLightingForLevel as
                    (s1, dirty1) of
               Inl e \<Rightarrow> Inl e
             | Inr (as', s2, dirty2) \<Rightarrow>
                 Inr (Some (Actor\<lparr>Components := comps'\<rparr>) # as', s2, dirty2)))"

text \<open>One iteration of the loop over the levels (lines 760 to 996).\<close>

definition GatherLevel ::
  "FLightmassDebugOptions \<Rightarrow> bool \<Rightarrow> bool \<Rightarrow> ULevel \<Rightarrow> FStaticLightingSystem
     \<Rightarrow> error + (ULevel \<times> FStaticLightingSystem)" where
  "GatherLevel dbg bPrecompute bForceNoPrecomputed Level s =
     (case GatherLevelBSP dbg bPrecompute bForceNoPrecomputed Level s of
        Inl e \<Rightarrow> Inl e
      | Inr (Level1, s1) \<Rightarrow>
         (case GatherActors dbg bPrecompute bForceNoPrecomputed
                 (bShouldBuildLightingForLevel Level1) (Actors Level1) (s1, False) of
            Inl e \<Rightarrow> Inl e
          | Inr (as', s2, bMarkLevelDirty) \<Rightarrow>
              Inr ((if bMarkLevelDirty then MarkPackageDirty else id)
                     (Level1\<lparr>Actors := as'\<rparr>), s2)))"

fun GatherLevels ::
  "FLightmassDebugOptions \<Rightarrow> bool \<Rightarrow> bool \<Rightarrow> ULevel list \<Rightarrow> FStaticLightingSystem
     \<Rightarrow> error + (ULevel list \<times> FStaticLightingSystem)" where
  "GatherLevels dbg bPrecompute bForceNoPrecomputed [] s = Inr ([], s)"
| "GatherLevels dbg bPrecompute bForceNoPrecomputed (Level # ls) s =
     (case GatherLevel dbg bPrecompute bForceNoPrecomputed Level s of
        Inl e \<Rightarrow> Inl e
      | Inr (Level1, s1) \<Rightarrow>
         (case GatherLevels dbg bPrecompute bForceNoPrecomputed ls s1 of
            Inl e \<Rightarrow> Inl e
          | Inr (ls', s2) \<Rightarrow> Inr (Level1 # ls', s2)))"

definition GatherStaticLightingInfo ::
  "FLightmassDebugOptions \<Rightarrow> bool \<Rightarrow> UWorld \<Rightarrow> FStaticLightingSystem
     \<Rightarrow> error + (UWorld \<times> FStaticLightingSystem)" where
  "GatherStaticLightingInfo dbg bForceNoPrecomputed World s =
     (case GatherLevels dbg (bPrecomputeVisibility World) bForceNoPrecomputed
             (Levels World) s of
        Inl e \<Rightarrow> Inl e
      | Inr (ls, s1) \<Rightarrow> Inr (World\<lparr>Levels := ls\<rparr>, s1))"

subsection \<open>Sorting the mappings\<close>

text \<open>The comparison of lines 502 to 508: \<^verbatim>\<open>return B.NumTexels < A.NumTexels;\<close>\<close>

definition FCompareNumTexels ::
  "FStaticLightingMappingSortHelper \<Rightarrow> FStaticLightingMappingSortHelper \<Rightarrow> bool" where
  "FCompareNumTexels A B = (NumTexels B < NumTexels A)"

text \<open>
  Modelled from the spec: \<^verbatim>\<open>TArray::Sort\<close> (Sorting.h) is not among the sources; only
  its call with \<^verbatim>\<open>FCompareNumTexels\<close> is. The spec gives the rule "descending by texel
  count, ties broken by original gather order (stable sort)". \<open>TArray_Sort\<close> is an
  insertion sort by the predicate it is given: an element is placed behind exactly those
  elements that the predicate puts before it, so elements that the predicate does not
  order keep the order they had.
\<close>

fun InsertSorted :: "('a \<Rightarrow> 'a \<Rightarrow> bool) \<Rightarrow> 'a \<Rightarrow> 'a list \<Rightarrow> 'a list" where
  "InsertSorted precedes x [] = [x]"
| "InsertSorted precedes x (y # ys) =
     (if precedes y x then y # InsertSorted precedes x ys else x # y # ys)"

fun TArray_Sort :: "('a \<Rightarrow> 'a \<Rightarrow> bool) \<Rightarrow> 'a list \<Rightarrow> 'a list" where
  "TArray_Sort precedes [] = []"
| "TArray_Sort precedes (x # xs) = InsertSorted precedes x (TArray_Sort precedes xs)"

text \<open>The loop of lines 511 to 523 over the sorted helpers.\<close>

fun AddSortedMappings ::
  "FStaticLightingMappingSortHelper list \<Rightarrow> FStaticLightingSystem \<Rightarrow> FStaticLightingSystem" where
  "AddSortedMappings [] s = s"
| "AddSortedMappings (h # hs) s =
     (let s1 = s\<lparr>Mappings := Mappings s @ [Mapping h]\<rparr>;
          s2 = (if bProcessMapping (Mapping h)
                then (case Mesh (Mapping h) of
                        None \<Rightarrow> s1
                      | Some m \<Rightarrow> AssignDeterministicGuid m s1)
                else s1)
      in AddSortedMappings hs s2)"

text \<open>Lines 500 to 525.\<close>

definition SortMappings :: "FLightmassDebugOptions \<Rightarrow> FStaticLightingSystem \<Rightarrow> FStaticLightingSystem" where
  "SortMappings dbg s =
     (if bSortMappings dbg
      then (AddSortedMappings (TArray_Sort FCompareNumTexels (UnSortedMappings s)) s)
             \<lparr>UnSortedMappings := []\<rparr>
      else s)"

text \<open>
  The check of lines 528 to 543. It reads \<^verbatim>\<open>Mapping->Mesh->Guid\<close> of every mapping
  that is tagged for rebuild, and logs a warning for a GUID that is not
  \<^verbatim>\<open>(0,0,0,D)\<close> with \<^verbatim>\<open>D < Mappings.Num()\<close>. The result is the list of the mappings
  warned about.
\<close>

fun VerifyDeterministicLighting ::
  "FStaticLightingSystem \<Rightarrow> FStaticLightingMapping list
     \<Rightarrow> error + FStaticLightingMapping list" where
  "VerifyDeterministicLighting s [] = Inr []"
| "VerifyDeterministicLighting s (c # cs) =
     (if bProcessMapping c
      then (case Mesh c of
              None \<Rightarrow> Inl NullDereference
            | Some m \<Rightarrow>
               (let CheckGuid = Guid (MeshObjects s m)
                in case VerifyDeterministicLighting s cs of
                     Inl e \<Rightarrow> Inl e
                   | Inr ws \<Rightarrow>
                       if GuidA CheckGuid \<noteq> 0 \<or> GuidB CheckGuid \<noteq> 0 \<or> GuidC CheckGuid \<noteq> 0
                          \<or> unat (GuidD CheckGuid) \<ge> length (Mappings s) mod 2 ^ 32
                       then Inr (c # ws) else Inr ws))
      else VerifyDeterministicLighting s cs)"

subsection \<open>The editor: manager, notifications, collaborators\<close>

text \<open>The texts are the \<^verbatim>\<open>LOCTEXT\<close> keys of the source.\<close>

datatype FText =
  EmptyText
  | LightBuildMessage
  | LightBuildDoneMessage
  | LightBuildInProgressWarning
  | LightBuildCanceledMessage
  | LightBuildFailedMessage
  | SwarmKickoffFailedMessage
  | LightKickoffSwarmMessage
  | LightExportProgressMessage
  | LightBuildProgressMessage

datatype ECompletionState = CS_None | CS_Pending | CS_Success | CS_Fail

record SNotificationItem =
  NotificationText :: FText
  CompletionState :: ECompletionState
  bExpired :: bool

text \<open>The calls made on collaborators that the theorems below speak about, in the order made.\<close>

datatype ECall =
  NewLightmassProcessor | DeleteLightmassProcessor
  | OpenJob | InitiateExport | ExecuteAmortizedMaterialExport | BeginRun | Update
  | CompleteRun | CloseJob
  | GatherScene | InvalidateStaticLighting | ApplyNewLightingData bool
  | SetCrashTrackingEnabled bool

text \<open>
  \<open>StaticLightingSystem\<close> is the manager's pointer with the object it points to;
  \<open>LightBuildNotification\<close> is the manager's weak pointer, an index into the
  notifications that Slate shows; \<open>bMapBuildCancelled\<close> is the flag behind
  \<^verbatim>\<open>GEditor->GetMapBuildCancelled()\<close>.
\<close>

record FEditor =
  StaticLightingSystem :: "FStaticLightingSystem option"
  LightBuildNotification :: "nat option"
  Notifications :: "SNotificationItem list"
  bMapBuildCancelled :: bool
  GWorld :: UWorld
  Calls :: "ECall list"

text \<open>
  What the collaborators answer during one call into the manager.
  \<open>ConstructedMeshes\<close> is the state in which their constructors leave the mesh objects.
\<close>

record FExternal =
  GLightmassDebugOptions :: FLightmassDebugOptions
  bAllowStaticLighting :: bool
  ConstructedMeshes :: "mesh_ref \<Rightarrow> FStaticLightingMesh"
  bSwarmConnectionIsValid :: bool
  bOpenJobSuccessful :: bool
  bCrashTrackerLoaded :: bool
  bCrashTrackerCapturing :: bool
  bAmortizedExportCompleted :: bool
  bBeginRunSuccessful :: bool
  bUpdateFinished :: bool
  bProcessingCompletedSuccessfully :: bool
  bCompleteRunSuccessful :: bool
  bCloseJobSuccessful :: bool
  bAutoApplyLightingEnable :: bool
  GIsSlowTask :: bool
  bInterpEditModeActive :: bool
  bPlayWorldValid :: bool
  bAnyMenusVisible :: bool
  GIsDemoMode :: bool
  bHasGameName :: bool

definition Call :: "ECall \<Rightarrow> FEditor \<Rightarrow> FEditor" where
  "Call c e = e\<lparr>Calls := Calls e @ [c]\<rparr>"

text \<open>
  A write of \<^verbatim>\<open>this\<close> by a member function of the system. The caller is always the
  manager's pointer. Lines 2020 and 2032 assign \<^verbatim>\<open>CurrentBuildStage\<close> after the manager
  has deleted the system: the store goes to freed memory, which nothing reads again, and
  changes nothing here.
\<close>

definition UpdateThis :: "(FStaticLightingSystem \<Rightarrow> FStaticLightingSystem) \<Rightarrow> FEditor \<Rightarrow> FEditor" where
  "UpdateThis f e = e\<lparr>StaticLightingSystem := map_option f (StaticLightingSystem e)\<rparr>"

subsection \<open>FStaticLightingManager: notifications\<close>

definition AddNotification :: "FText \<Rightarrow> FEditor \<Rightarrow> FEditor" where
  "AddNotification txt e =
     e\<lparr>Notifications := Notifications e @
          [\<lparr>NotificationText = txt, CompletionState = CS_None, bExpired = False\<rparr>]\<rparr>"

definition SetCompletionState :: "nat \<Rightarrow> ECompletionState \<Rightarrow> FEditor \<Rightarrow> FEditor" where
  "SetCompletionState i st e =
     e\<lparr>Notifications := (Notifications e)[i := (Notifications e ! i)\<lparr>CompletionState := st\<rparr>]\<rparr>"

definition SendProgressNotification :: "FEditor \<Rightarrow> FEditor" where
  "SendProgressNotification e =
     (let i = length (Notifications e);
          e1 = AddNotification LightBuildMessage e
      in SetCompletionState i CS_Pending (e1\<lparr>LightBuildNotification := Some i\<rparr>))"

definition ClearCurrentNotification :: "FEditor \<Rightarrow> FEditor" where
  "ClearCurrentNotification e =
     (case LightBuildNotification e of
        None \<Rightarrow> e
      | Some i \<Rightarrow>
          e\<lparr>Notifications := (Notifications e)
               [i := (Notifications e ! i)\<lparr>CompletionState := CS_None, bExpired := True\<rparr>],
            LightBuildNotification := None\<rparr>)"

definition SetNotificationText :: "FText \<Rightarrow> FEditor \<Rightarrow> FEditor" where
  "SetNotificationText txt e =
     (case LightBuildNotification e of
        None \<Rightarrow> e
      | Some i \<Rightarrow>
          e\<lparr>Notifications := (Notifications e)
               [i := (Notifications e ! i)\<lparr>NotificationText := txt\<rparr>]\<rparr>)"

definition SendBuildDoneNotification :: "bool \<Rightarrow> FEditor \<Rightarrow> FEditor" where
  "SendBuildDoneNotification AutoApplyFailed e =
     (let i = length (Notifications e);
          e1 = AddNotification LightBuildDoneMessage e
      in SetCompletionState i (if AutoApplyFailed then CS_Pending else CS_Success)
           (e1\<lparr>LightBuildNotification := Some i\<rparr>))"

subsection \<open>FStaticLightingManager: the life of the system\<close>

text \<open>The constructor (lines 292 to 302).\<close>

definition NewStaticLightingSystem :: "FExternal \<Rightarrow> FLightingBuildOptions \<Rightarrow> FStaticLightingSystem" where
  "NewStaticLightingSystem x InOptions =
     \<lparr>Options = InOptions, bBuildCanceled = False, DeterministicIndex = 0,
      NextVisibilityId = 0, CurrentBuildStage = NotRunning,
      bCrashTrackerOriginallyEnabled = False, LightmassProcessor = False,
      Meshes = [], Mappings = [], UnSortedMappings = [],
      MeshObjects = ConstructedMeshes x, NumBSPSurfaces = 0\<rparr>"

text \<open>The destructor (lines 304 to 320), run by \<^verbatim>\<open>delete\<close>.\<close>

definition DeleteStaticLightingSystem :: "FExternal \<Rightarrow> FStaticLightingSystem \<Rightarrow> FEditor \<Rightarrow> FEditor" where
  "DeleteStaticLightingSystem x s e =
     (let e1 = (if bCrashTrackerOriginallyEnabled s \<and> bCrashTrackerLoaded x
                then Call (SetCrashTrackingEnabled True) e else e)
      in if LightmassProcessor s then Call DeleteLightmassProcessor e1 else e1)"

definition DestroyStaticLightingSystem :: "FExternal \<Rightarrow> FEditor \<Rightarrow> FEditor" where
  "DestroyStaticLightingSystem x e =
     (case StaticLightingSystem e of
        None \<Rightarrow> e
      | Some s \<Rightarrow> (DeleteStaticLightingSystem x s e)\<lparr>StaticLightingSystem := None\<rparr>)"

definition IsLightingBuildCurrentlyRunning :: "FEditor \<Rightarrow> bool" where
  "IsLightingBuildCurrentlyRunning e = (StaticLightingSystem e \<noteq> None)"

definition FailLightingBuild :: "FExternal \<Rightarrow> FText \<Rightarrow> FEditor \<Rightarrow> FEditor" where
  "FailLightingBuild x ErrorText e =
     (let e1 = ClearCurrentNotification e;
          txt = (if bMapBuildCancelled e1 then LightBuildCanceledMessage
                 else if ErrorText = EmptyText then LightBuildFailedMessage
                 else ErrorText);
          i = length (Notifications e1);
          e2 = (AddNotification txt e1)\<lparr>LightBuildNotification := Some i\<rparr>;
          e3 = SetCompletionState i CS_Fail e2
      in DestroyStaticLightingSystem x e3)"

subsection \<open>BeginLightmassProcess\<close>

text \<open>
  Lines 353 to 357: \<^verbatim>\<open>TObjectIterator<UPrimitiveComponent>\<close> visits every primitive
  component of the process, whatever level it is in.
\<close>

definition ResetComponent :: "UPrimitiveComponent \<Rightarrow> UPrimitiveComponent" where
  "ResetComponent Component = Component\<lparr>VisibilityId := INDEX_NONE\<rparr>"

definition ResetActor :: "AActor \<Rightarrow> AActor" where
  "ResetActor Actor = Actor\<lparr>Components := map ResetComponent (Components Actor)\<rparr>"

definition ResetLevel :: "ULevel \<Rightarrow> ULevel" where
  "ResetLevel Level =
     Level\<lparr>Actors := map (map_option ResetActor) (Actors Level),
           ModelComponents := map (map_option ResetComponent) (ModelComponents Level)\<rparr>"

definition ResetVisibilityIds :: "UWorld \<Rightarrow> UWorld" where
  "ResetVisibilityIds World =
     World\<lparr>Levels := map ResetLevel (Levels World),
           OtherPrimitiveComponents := map ResetComponent (OtherPrimitiveComponents World)\<rparr>"

text \<open>
  The member functions that do not call back into the manager take the system
  (\<^verbatim>\<open>*this\<close>) and the editor, and return both; their caller stores the system back
  behind the manager's pointer.
\<close>

definition CreateLightmassProcessor ::
  "FExternal \<Rightarrow> FStaticLightingSystem \<Rightarrow> FEditor
     \<Rightarrow> error + (bool \<times> FStaticLightingSystem \<times> FEditor)" where
  "CreateLightmassProcessor x s e =
     (if bOnlyBuildVisibility (Options s) \<and> \<not> bPrecomputeVisibility (GWorld e)
      then Inr (False, s, e)
      else if LightmassProcessor s then Inl AssertionFailed
      else if \<not> bSwarmConnectionIsValid x
      then Inr (False, s\<lparr>LightmassProcessor := False\<rparr>,
                Call DeleteLightmassProcessor (Call NewLightmassProcessor e))
      else Inr (True, s\<lparr>LightmassProcessor := True\<rparr>, Call NewLightmassProcessor e))"

definition InitiateLightmassProcessor ::
  "FExternal \<Rightarrow> FStaticLightingSystem \<Rightarrow> FEditor \<Rightarrow> bool \<times> FStaticLightingSystem \<times> FEditor" where
  "InitiateLightmassProcessor x s e =
     (if \<not> bMapBuildCancelled e
      then (let e1 = Call OpenJob e
            in if bOpenJobSuccessful x
               then (let e2 = Call InitiateExport e1;
                         s1 = s\<lparr>CurrentBuildStage := AmortizedExport\<rparr>
                     in if bCrashTrackerLoaded x
                        then (True,
                              s1\<lparr>bCrashTrackerOriginallyEnabled := bCrashTrackerCapturing x\<rparr>,
                              Call (SetCrashTrackingEnabled False) e2)
                        else (True, s1, e2))
               else (False, s, e1))
      else (False, s, e))"

text \<open>
  Lines 322 to 588. The results page, the texel counters, the warning about skipped
  levels, the configuration reads and the list of lights (lines 449 to 485, which also
  deletes the generated mesh area lights) are not modelled: the levels are read as those
  steps leave them.
\<close>

definition BeginLightmassProcess ::
  "FExternal \<Rightarrow> FStaticLightingSystem \<Rightarrow> FEditor
     \<Rightarrow> error + (bool \<times> FStaticLightingSystem \<times> FEditor)" where
  "BeginLightmassProcess x s e =
     (let s0 = s\<lparr>CurrentBuildStage := Startup\<rparr>;
          World0 = ResetVisibilityIds (GWorld e);
          bForceNoPrecomputed =
            (bForceNoPrecomputedLighting World0 \<or> \<not> bAllowStaticLighting x);
          dbg = GLightmassDebugOptions x
      in case GatherStaticLightingInfo dbg bForceNoPrecomputed World0 s0 of
           Inl err \<Rightarrow> Inl err
         | Inr (World1, s1) \<Rightarrow>
            (let s2 = SortMappings dbg s1
             in case VerifyDeterministicLighting s2 (Mappings s2) of
                  Inl err \<Rightarrow> Inl err
                | Inr warned \<Rightarrow>
                   (let e1 = e\<lparr>GWorld := World1\<rparr>
                    in if \<not> bForceNoPrecomputed
                       then (case CreateLightmassProcessor x s2 e1 of
                               Inl err \<Rightarrow> Inl err
                             | Inr (bLightingSuccessful, s3, e3) \<Rightarrow>
                                 if bLightingSuccessful
                                 then Inr (InitiateLightmassProcessor x s3 (Call GatherScene e3))
                                 else Inr (False, s3, e3))
                       else Inr (False, s2,
                                 Call (ApplyNewLightingData True)
                                   (Call InvalidateStaticLighting e1)))))"

subsection \<open>The build stages\<close>

definition CreateStaticLightingSystem ::
  "FExternal \<Rightarrow> FLightingBuildOptions \<Rightarrow> FEditor \<Rightarrow> error + FEditor" where
  "CreateStaticLightingSystem x InOptions e =
     (case StaticLightingSystem e of
        None \<Rightarrow>
         (case BeginLightmassProcess x (NewStaticLightingSystem x InOptions) e of
            Inl err \<Rightarrow> Inl err
          | Inr (bSuccess, s, e1) \<Rightarrow>
             (let e2 = e1\<lparr>StaticLightingSystem := Some s\<rparr>
              in if bSuccess then Inr (SendProgressNotification e2)
                 else Inr (DestroyStaticLightingSystem x e2)))
      | Some s \<Rightarrow>
          Inr (SetCompletionState (length (Notifications e)) CS_Fail
                 (AddNotification LightBuildInProgressWarning e)))"

text \<open>Lines 1877 to 1963, as far as they decide success and call collaborators.\<close>

definition FinishLightmassProcess ::
  "FExternal \<Rightarrow> FStaticLightingSystem \<Rightarrow> FEditor \<Rightarrow> bool \<times> FStaticLightingSystem \<times> FEditor" where
  "FinishLightmassProcess x s e =
     (let s1 = s\<lparr>CurrentBuildStage := Import\<rparr>;
          e1 = Call CompleteRun (Call InvalidateStaticLighting e);
          e2 = Call CloseJob e1;
          bSuccessful1 = (bCloseJobSuccessful x \<and> bCompleteRunSuccessful x);
          s2 = s1\<lparr>bBuildCanceled := (bBuildCanceled s1 \<or> bMapBuildCancelled e2)\<rparr>;
          bSuccessful = (bSuccessful1 \<and> \<not> bBuildCanceled s2)
      in (bSuccessful, s2, Call (ApplyNewLightingData bSuccessful) e2))"

definition ProcessLightingData :: "FExternal \<Rightarrow> bool \<Rightarrow> FEditor \<Rightarrow> error + FEditor" where
  "ProcessLightingData x bDiscardResults e =
     (case StaticLightingSystem e of
        None \<Rightarrow> Inl AssertionFailed
      | Some s \<Rightarrow>
         (let e1 = (if \<not> bDiscardResults
                    then (case FinishLightmassProcess x s e of
                            (bSuccessful, s', e') \<Rightarrow>
                              (let e'' = e'\<lparr>StaticLightingSystem := Some s'\<rparr>
                               in if \<not> bSuccessful then FailLightingBuild x EmptyText e''
                                  else e''))
                    else e)
          in Inr (ClearCurrentNotification (DestroyStaticLightingSystem x e1))))"

definition IsAsyncBuilding :: "FStaticLightingSystem \<Rightarrow> bool" where
  "IsAsyncBuilding s = (CurrentBuildStage s = AsynchronousBuilding)"

definition CancelLightingBuild :: "FExternal \<Rightarrow> FEditor \<Rightarrow> error + FEditor" where
  "CancelLightingBuild x e =
     (case StaticLightingSystem e of
        None \<Rightarrow> Inl NullDereference
      | Some s \<Rightarrow>
          if IsAsyncBuilding s
          then Inr (ClearCurrentNotification (e\<lparr>bMapBuildCancelled := True\<rparr>))
          else Inr (FailLightingBuild x EmptyText e))"

definition KickoffSwarm :: "FExternal \<Rightarrow> FEditor \<Rightarrow> FEditor" where
  "KickoffSwarm x e =
     (let e1 = Call BeginRun e
      in if bBeginRunSuccessful x
         then UpdateThis (\<lambda>s. s\<lparr>CurrentBuildStage := AsynchronousBuilding\<rparr>) e1
         else FailLightingBuild x SwarmKickoffFailedMessage e1)"

text \<open>Lines 2050 to 2061; \<^verbatim>\<open>bIsInteratcting\<close> is the constant false.\<close>

definition CanAutoApplyLighting :: "FExternal \<Rightarrow> bool" where
  "CanAutoApplyLighting x =
     (let bAutoApplyEnabled = bAutoApplyLightingEnable x;
          bSlowTask = GIsSlowTask x;
          bInterpEditMode = bInterpEditModeActive x;
          bPlayWorld = bPlayWorldValid x;
          bAnyMenus = bAnyMenusVisible x;
          bIsInteratcting = False;
          bHasGameOrProjectLoaded = bHasGameName x
      in bAutoApplyEnabled \<and> \<not> bSlowTask \<and> \<not> bInterpEditMode \<and> \<not> bPlayWorld \<and> \<not> bAnyMenus
         \<and> \<not> bIsInteratcting \<and> \<not> GIsDemoMode x \<and> bHasGameOrProjectLoaded)"

text \<open>Lines 1965 to 2042.\<close>

definition UpdateLightingBuild :: "FExternal \<Rightarrow> FEditor \<Rightarrow> error + FEditor" where
  "UpdateLightingBuild x e =
     (case StaticLightingSystem e of
        None \<Rightarrow> Inl NullDereference
      | Some s \<Rightarrow>
          if CurrentBuildStage s = AmortizedExport
          then (let e1 = SetNotificationText LightExportProgressMessage
                           (Call ExecuteAmortizedMaterialExport e)
                in if bAmortizedExportCompleted x
                   then (let e2 = (if bCrashTrackerOriginallyEnabled s \<and> bCrashTrackerLoaded x
                                   then UpdateThis (\<lambda>s. s\<lparr>bCrashTrackerOriginallyEnabled := False\<rparr>)
                                          (Call (SetCrashTrackingEnabled True) e1)
                                   else e1)
                         in Inr (UpdateThis (\<lambda>s. s\<lparr>CurrentBuildStage := SwarmKickoff\<rparr>) e2))
                   else Inr e1)
          else if CurrentBuildStage s = SwarmKickoff
          then Inr (KickoffSwarm x (SetNotificationText LightKickoffSwarmMessage e))
          else if CurrentBuildStage s = AsynchronousBuilding
          then (let e1 = SetNotificationText LightBuildProgressMessage (Call Update e)
                in if bUpdateFinished x
                   then (let e2 = ClearCurrentNotification e1
                         in if bProcessingCompletedSuccessfully x
                            then Inr (UpdateThis
                                        (\<lambda>s. s\<lparr>CurrentBuildStage := AutoApplyingImport\<rparr>) e2)
                            else Inr (UpdateThis (\<lambda>s. s\<lparr>CurrentBuildStage := NotRunning\<rparr>)
                                        (FailLightingBuild x EmptyText e2)))
                   else Inr e1)
          else if CurrentBuildStage s = AutoApplyingImport
          then (if CanAutoApplyLighting x
                then (case ProcessLightingData x False (SendBuildDoneNotification False e) of
                        Inl err \<Rightarrow> Inl err
                      | Inr e1 \<Rightarrow>
                          Inr (UpdateThis (\<lambda>s. s\<lparr>CurrentBuildStage := NotRunning\<rparr>) e1))
                else Inr (UpdateThis (\<lambda>s. s\<lparr>CurrentBuildStage := WaitingForImport\<rparr>)
                            (SendBuildDoneNotification True e)))
          else Inr e)"

definition UpdateBuildLighting :: "FExternal \<Rightarrow> FEditor \<Rightarrow> error + FEditor" where
  "UpdateBuildLighting x e =
     (if StaticLightingSystem e \<noteq> None then UpdateLightingBuild x e else Inr e)"

section \<open>Example states\<close>

definition ExampleOptions :: FLightingBuildOptions where
  "ExampleOptions =
     \<lparr>bOnlyBuildSelected = False, bOnlyBuildVisibility = False, bDumpBinaryResults = False\<rparr>"

definition ExampleExternal :: FExternal where
  "ExampleExternal =
     \<lparr>GLightmassDebugOptions =
        \<lparr>bSortMappings = True, bUseImmediateImport = False, bImmediateProcessMappings = False\<rparr>,
      bAllowStaticLighting = True,
      ConstructedMeshes = (\<lambda>m. \<lparr>Guid = MakeGuid 7 7 7 7, VisibilityIds = []\<rparr>),
      bSwarmConnectionIsValid = True,
      bOpenJobSuccessful = True,
      bCrashTrackerLoaded = True,
      bCrashTrackerCapturing = True,
      bAmortizedExportCompleted = True,
      bBeginRunSuccessful = True,
      bUpdateFinished = True,
      bProcessingCompletedSuccessfully = False,
      bCompleteRunSuccessful = True,
      bCloseJobSuccessful = True,
      bAutoApplyLightingEnable = True,
      GIsSlowTask = False,
      bInterpEditModeActive = False,
      bPlayWorldValid = False,
      bAnyMenusVisible = False,
      GIsDemoMode = True,
      bHasGameName = True\<rparr>"

definition EmptyWorld :: UWorld where
  "EmptyWorld =
     \<lparr>Levels = [], OtherPrimitiveComponents = [], bPrecomputeVisibility = False,
      bForceNoPrecomputedLighting = False\<rparr>"

text \<open>An editor whose build is in the given stage, with its progress notification.\<close>

definition ExampleEditor :: "EBuildStage \<Rightarrow> FEditor" where
  "ExampleEditor stage =
     \<lparr>StaticLightingSystem =
        Some ((NewStaticLightingSystem ExampleExternal ExampleOptions)
                \<lparr>CurrentBuildStage := stage, LightmassProcessor := True\<rparr>),
      LightBuildNotification = Some 0,
      Notifications =
        [\<lparr>NotificationText = LightBuildMessage, CompletionState = CS_Pending, bExpired = False\<rparr>],
      bMapBuildCancelled = False,
      GWorld = EmptyWorld,
      Calls = [NewLightmassProcessor, GatherScene, OpenJob, InitiateExport]\<rparr>"

section \<open>The manager and the build stages\<close>

lemma StaticLightingSystem_UpdateThis [simp]:
  "StaticLightingSystem (UpdateThis f e) = map_option f (StaticLightingSystem e)"
  by (simp add: UpdateThis_def)

lemma StaticLightingSystem_notify [simp]:
  "StaticLightingSystem (SetNotificationText t e) = StaticLightingSystem e"
  "StaticLightingSystem (ClearCurrentNotification e) = StaticLightingSystem e"
  "StaticLightingSystem (SendBuildDoneNotification b e) = StaticLightingSystem e"
  "StaticLightingSystem (SendProgressNotification e) = StaticLightingSystem e"
  "StaticLightingSystem (AddNotification t e) = StaticLightingSystem e"
  "StaticLightingSystem (SetCompletionState i c e) = StaticLightingSystem e"
  "StaticLightingSystem (Call k e) = StaticLightingSystem e"
  by (simp_all add: SetNotificationText_def ClearCurrentNotification_def
      SendBuildDoneNotification_def SendProgressNotification_def AddNotification_def
      SetCompletionState_def Call_def Let_def split: option.splits)

lemma Calls_notify [simp]:
  "Calls (SetNotificationText t e) = Calls e"
  "Calls (ClearCurrentNotification e) = Calls e"
  "Calls (SendBuildDoneNotification b e) = Calls e"
  "Calls (SendProgressNotification e) = Calls e"
  "Calls (AddNotification t e) = Calls e"
  "Calls (SetCompletionState i c e) = Calls e"
  "Calls (UpdateThis f e) = Calls e"
  "Calls (Call k e) = Calls e @ [k]"
  by (simp_all add: SetNotificationText_def ClearCurrentNotification_def
      SendBuildDoneNotification_def SendProgressNotification_def AddNotification_def
      SetCompletionState_def Call_def UpdateThis_def Let_def split: option.splits)

lemma bMapBuildCancelled_notify [simp]:
  "bMapBuildCancelled (SetNotificationText t e) = bMapBuildCancelled e"
  "bMapBuildCancelled (ClearCurrentNotification e) = bMapBuildCancelled e"
  "bMapBuildCancelled (Call k e) = bMapBuildCancelled e"
  by (simp_all add: SetNotificationText_def ClearCurrentNotification_def Call_def
      split: option.splits)

lemma StaticLightingSystem_Destroy [simp]:
  "StaticLightingSystem (DestroyStaticLightingSystem x e) = None"
  by (simp add: DestroyStaticLightingSystem_def split: option.splits)

lemma Notifications_Destroy [simp]:
  "Notifications (DestroyStaticLightingSystem x e) = Notifications e"
  by (simp add: DestroyStaticLightingSystem_def DeleteStaticLightingSystem_def Call_def Let_def
      split: option.splits)

lemma Calls_Destroy:
  "\<exists>cs. Calls (DestroyStaticLightingSystem x e) = Calls e @ cs
        \<and> set cs \<subseteq> {SetCrashTrackingEnabled True, DeleteLightmassProcessor}"
  by (auto simp add: DestroyStaticLightingSystem_def DeleteStaticLightingSystem_def Let_def
      split: option.splits)

lemma StaticLightingSystem_Fail [simp]:
  "StaticLightingSystem (FailLightingBuild x t e) = None"
  by (simp add: FailLightingBuild_def Let_def)

lemma Notifications_Fail:
  "Notifications (FailLightingBuild x t e) =
     Notifications (ClearCurrentNotification e) @
       [\<lparr>NotificationText =
           (if bMapBuildCancelled e then LightBuildCanceledMessage
            else if t = EmptyText then LightBuildFailedMessage else t),
         CompletionState = CS_Fail, bExpired = False\<rparr>]"
  by (simp add: FailLightingBuild_def Let_def AddNotification_def SetCompletionState_def)

lemma Calls_Fail:
  "\<exists>cs. Calls (FailLightingBuild x t e) = Calls e @ cs
        \<and> set cs \<subseteq> {SetCrashTrackingEnabled True, DeleteLightmassProcessor}"
proof -
  define e3 where "e3 = SetCompletionState (length (Notifications (ClearCurrentNotification e))) CS_Fail
     ((AddNotification (if bMapBuildCancelled (ClearCurrentNotification e) then LightBuildCanceledMessage
                 else if t = EmptyText then LightBuildFailedMessage
                 else t) (ClearCurrentNotification e))\<lparr>LightBuildNotification := Some (length (Notifications (ClearCurrentNotification e)))\<rparr>)"
  have c: "Calls e3 = Calls e"
    by (simp add: e3_def AddNotification_def SetCompletionState_def)
  have "FailLightingBuild x t e = DestroyStaticLightingSystem x e3"
    by (simp add: FailLightingBuild_def Let_def e3_def)
  with Calls_Destroy [of x e3] c show ?thesis by simp
qed

text \<open>
  Claim C2. A poll of the manager while the system's stage is AsynchronousBuilding
  returns, and: when the processor's \<^verbatim>\<open>Update\<close> reports finished and the processing
  completed successfully, the system is the same with the stage AutoApplyingImport; when
  it reports finished and the processing failed, the build is failed (the failure
  notification is shown and the system is destroyed, so that no build is running); when
  it does not report finished, the system is unchanged, still in AsynchronousBuilding.
\<close>

theorem async_poll_outcomes:
  assumes "StaticLightingSystem e = Some s" and "CurrentBuildStage s = AsynchronousBuilding"
  shows "\<exists>e'. UpdateBuildLighting x e = Inr e' \<and>
     (if bUpdateFinished x
      then (if bProcessingCompletedSuccessfully x
            then StaticLightingSystem e' = Some (s\<lparr>CurrentBuildStage := AutoApplyingImport\<rparr>)
            else StaticLightingSystem e' = None
                 \<and> \<not> IsLightingBuildCurrentlyRunning e'
                 \<and> last (Notifications e') =
                     \<lparr>NotificationText = (if bMapBuildCancelled e then LightBuildCanceledMessage
                                          else LightBuildFailedMessage),
                      CompletionState = CS_Fail, bExpired = False\<rparr>)
      else StaticLightingSystem e' = Some s)"
  using assms
  by (simp add: UpdateBuildLighting_def UpdateLightingBuild_def Let_def
      IsLightingBuildCurrentlyRunning_def Notifications_Fail UpdateThis_def)

theorem async_poll_outcomes_witness:
  "StaticLightingSystem (ExampleEditor AsynchronousBuilding) \<noteq> None
   \<and> (\<exists>e'. UpdateBuildLighting ExampleExternal (ExampleEditor AsynchronousBuilding) = Inr e'
          \<and> StaticLightingSystem e' = None
          \<and> last (Notifications e') =
              \<lparr>NotificationText = LightBuildFailedMessage,
               CompletionState = CS_Fail, bExpired = False\<rparr>)"
proof -
  define s where "s = (NewStaticLightingSystem ExampleExternal ExampleOptions)
         \<lparr>CurrentBuildStage := AsynchronousBuilding, LightmassProcessor := True\<rparr>"
  have h1: "StaticLightingSystem (ExampleEditor AsynchronousBuilding) = Some s"
    by (simp add: ExampleEditor_def s_def)
  have h2: "CurrentBuildStage s = AsynchronousBuilding"
    by (simp add: s_def)
  have x: "bUpdateFinished ExampleExternal" "\<not> bProcessingCompletedSuccessfully ExampleExternal"
    by (simp_all add: ExampleExternal_def)
  have m: "\<not> bMapBuildCancelled (ExampleEditor AsynchronousBuilding)"
    by (simp add: ExampleEditor_def)
  from async_poll_outcomes [OF h1 h2, of ExampleExternal] x m h1 show ?thesis
    by auto
qed

text \<open>
  Claim C3. A build request made while a system is alive returns the editor as it was,
  with the manager's pointer, the system behind it, the world and the calls made so far
  unchanged, but for one more notification: the "already in progress" warning, in the
  failed state. The constructor is not run.
\<close>

theorem second_build_rejected:
  assumes "StaticLightingSystem e = Some s"
  shows "CreateStaticLightingSystem x InOptions e =
           Inr (e\<lparr>Notifications := Notifications e @
                    [\<lparr>NotificationText = LightBuildInProgressWarning,
                      CompletionState = CS_Fail, bExpired = False\<rparr>]\<rparr>)"
  using assms
  by (simp add: CreateStaticLightingSystem_def AddNotification_def SetCompletionState_def)

theorem second_build_rejected_witness:
  "StaticLightingSystem (ExampleEditor AmortizedExport) \<noteq> None
   \<and> CreateStaticLightingSystem ExampleExternal ExampleOptions (ExampleEditor AmortizedExport) =
       Inr ((ExampleEditor AmortizedExport)\<lparr>Notifications :=
              Notifications (ExampleEditor AmortizedExport) @
                [\<lparr>NotificationText = LightBuildInProgressWarning,
                  CompletionState = CS_Fail, bExpired = False\<rparr>]\<rparr>)"
proof -
  obtain s where h: "StaticLightingSystem (ExampleEditor AmortizedExport) = Some s"
    by (simp add: ExampleEditor_def)
  from second_build_rejected [OF h, of ExampleExternal ExampleOptions] h show ?thesis
    by simp
qed

text \<open>
  Claim C4, as stated, fails: with the preference enabled, no menu open, no slow task,
  InterpEdit inactive, no play world and a game loaded, \<^verbatim>\<open>CanAutoApplyLighting\<close> still
  answers false when \<^verbatim>\<open>GIsDemoMode\<close> is set.
\<close>

theorem auto_apply_needs_no_demo_mode_counterexample:
  "bAutoApplyLightingEnable ExampleExternal \<and> \<not> bAnyMenusVisible ExampleExternal
   \<and> \<not> GIsSlowTask ExampleExternal \<and> \<not> bInterpEditModeActive ExampleExternal
   \<and> \<not> bPlayWorldValid ExampleExternal \<and> bHasGameName ExampleExternal
   \<and> \<not> CanAutoApplyLighting ExampleExternal"
  by (simp add: ExampleExternal_def CanAutoApplyLighting_def)

text \<open>
  Claim C4, amended. \<^verbatim>\<open>CanAutoApplyLighting\<close> holds if and only if the auto-apply
  preference is enabled, no menu is visible, no slow task is in progress, InterpEdit is
  not active, no play world exists, a game or project is loaded, and the editor is not in
  demo mode. A poll in the stage AutoApplyingImport applies the results and destroys the
  system when it holds; when it does not, the system stays, in the stage
  WaitingForImport, and nothing is applied.
\<close>

theorem auto_apply_gate:
  assumes "StaticLightingSystem e = Some s" and "CurrentBuildStage s = AutoApplyingImport"
  shows "(CanAutoApplyLighting x \<longleftrightarrow>
            bAutoApplyLightingEnable x \<and> \<not> bAnyMenusVisible x \<and> \<not> GIsSlowTask x
            \<and> \<not> bInterpEditModeActive x \<and> \<not> bPlayWorldValid x \<and> bHasGameName x
            \<and> \<not> GIsDemoMode x)
       \<and> (\<exists>e'. UpdateBuildLighting x e = Inr e' \<and>
            (if CanAutoApplyLighting x
             then StaticLightingSystem e' = None
                  \<and> (\<exists>b cs. Calls e' =
                        Calls e @ [InvalidateStaticLighting, CompleteRun, CloseJob,
                                   ApplyNewLightingData b] @ cs)
             else StaticLightingSystem e' = Some (s\<lparr>CurrentBuildStage := WaitingForImport\<rparr>)
                  \<and> Calls e' = Calls e \<and> GWorld e' = GWorld e))"
proof -
  have gate: "CanAutoApplyLighting x \<longleftrightarrow>
            bAutoApplyLightingEnable x \<and> \<not> bAnyMenusVisible x \<and> \<not> GIsSlowTask x
            \<and> \<not> bInterpEditModeActive x \<and> \<not> bPlayWorldValid x \<and> bHasGameName x
            \<and> \<not> GIsDemoMode x"
    by (auto simp add: CanAutoApplyLighting_def Let_def)
  have tick: "\<exists>e'. UpdateBuildLighting x e = Inr e' \<and>
            (if CanAutoApplyLighting x
             then StaticLightingSystem e' = None
                  \<and> (\<exists>b cs. Calls e' =
                        Calls e @ [InvalidateStaticLighting, CompleteRun, CloseJob,
                                   ApplyNewLightingData b] @ cs)
             else StaticLightingSystem e' = Some (s\<lparr>CurrentBuildStage := WaitingForImport\<rparr>)
                  \<and> Calls e' = Calls e \<and> GWorld e' = GWorld e)"
  proof (cases "CanAutoApplyLighting x")
    case False
    then show ?thesis
      using assms
      by (simp add: UpdateBuildLighting_def UpdateLightingBuild_def SendBuildDoneNotification_def
          AddNotification_def SetCompletionState_def UpdateThis_def Let_def)
  next
    case True
    define e0 where "e0 = SendBuildDoneNotification False e"
    have s0: "StaticLightingSystem e0 = Some s" and c0: "Calls e0 = Calls e"
      using assms by (simp_all add: e0_def)
    obtain ok s' e1 where fin: "FinishLightmassProcess x s e0 = (ok, s', e1)"
      by (cases "FinishLightmassProcess x s e0") auto
    have c1: "Calls e1 = Calls e @ [InvalidateStaticLighting, CompleteRun, CloseJob,
                                   ApplyNewLightingData ok]"
      using fin c0 by (auto simp add: FinishLightmassProcess_def Let_def)
    define e2 where "e2 = e1\<lparr>StaticLightingSystem := Some s'\<rparr>"
    define e3 where "e3 = (if \<not> ok then FailLightingBuild x EmptyText e2 else e2)"
    have "\<exists>cs. Calls e3 = Calls e1 @ cs"
      using Calls_Fail [of x EmptyText e2] by (auto simp add: e3_def e2_def)
    then obtain cs where c3: "Calls e3 = Calls e1 @ cs" by blast
    obtain cs' where c4: "Calls (DestroyStaticLightingSystem x e3) = Calls e3 @ cs'"
      using Calls_Destroy [of x e3] by blast
    have p: "ProcessLightingData x False e0 =
               Inr (ClearCurrentNotification (DestroyStaticLightingSystem x e3))"
      using s0 fin by (simp add: ProcessLightingData_def e3_def e2_def)
    have "UpdateBuildLighting x e =
            Inr (UpdateThis (\<lambda>s. s\<lparr>CurrentBuildStage := NotRunning\<rparr>)
                   (ClearCurrentNotification (DestroyStaticLightingSystem x e3)))"
      using assms True p by (simp add: UpdateBuildLighting_def UpdateLightingBuild_def e0_def)
    then show ?thesis
      using True c1 c3 c4 by simp
  qed
  from gate tick show ?thesis by (rule conjI)
qed

theorem auto_apply_gate_witness:
  "StaticLightingSystem (ExampleEditor AutoApplyingImport) \<noteq> None
   \<and> \<not> CanAutoApplyLighting ExampleExternal
   \<and> (\<exists>e' s'. UpdateBuildLighting ExampleExternal (ExampleEditor AutoApplyingImport) = Inr e'
          \<and> StaticLightingSystem e' = Some s'
          \<and> CurrentBuildStage s' = WaitingForImport
          \<and> Calls e' = Calls (ExampleEditor AutoApplyingImport))"
proof -
  define s where "s = (NewStaticLightingSystem ExampleExternal ExampleOptions)
         \<lparr>CurrentBuildStage := AutoApplyingImport, LightmassProcessor := True\<rparr>"
  have h1: "StaticLightingSystem (ExampleEditor AutoApplyingImport) = Some s"
    by (simp add: ExampleEditor_def s_def)
  have h2: "CurrentBuildStage s = AutoApplyingImport"
    by (simp add: s_def)
  have x: "\<not> CanAutoApplyLighting ExampleExternal"
    by (simp add: ExampleExternal_def CanAutoApplyLighting_def)
  from auto_apply_gate [OF h1 h2, of ExampleExternal] x h1 show ?thesis
    by auto
qed

text \<open>
  Claim C5. A cancellation request while a system is alive returns, and the editor it
  leaves is the following. In the stage AsynchronousBuilding: the map-build-cancelled
  flag is set, the notification that the manager points to (the progress notification)
  has the completion state \<^verbatim>\<open>CS_None\<close> and is expired, the manager's pointer to it is
  reset, and nothing else has changed: the system is alive as it was, no collaborator has
  been called. In every other stage: the progress notification is cleared in the same
  way, a new notification with the text "canceled" (when the flag was set before) or
  "failed" and the state \<^verbatim>\<open>CS_Fail\<close> is shown and pointed to, the system's destructor
  has made its calls, and the manager has no system.
\<close>

theorem cancel_lighting_build:
  assumes "StaticLightingSystem e = Some s"
  shows "\<exists>e'. CancelLightingBuild x e = Inr e' \<and>
     (if CurrentBuildStage s = AsynchronousBuilding
      then e' = e\<lparr>bMapBuildCancelled := True,
                   Notifications :=
                     (case LightBuildNotification e of
                        None \<Rightarrow> Notifications e
                      | Some i \<Rightarrow> (Notifications e)
                          [i := (Notifications e ! i)\<lparr>CompletionState := CS_None, bExpired := True\<rparr>]),
                   LightBuildNotification := None\<rparr>
      else e' = e\<lparr>Notifications :=
                     (case LightBuildNotification e of
                        None \<Rightarrow> Notifications e
                      | Some i \<Rightarrow> (Notifications e)
                          [i := (Notifications e ! i)\<lparr>CompletionState := CS_None, bExpired := True\<rparr>])
                     @ [\<lparr>NotificationText =
                           (if bMapBuildCancelled e then LightBuildCanceledMessage
                            else LightBuildFailedMessage),
                         CompletionState = CS_Fail, bExpired = False\<rparr>],
                   LightBuildNotification := Some (length (Notifications e)),
                   Calls := Calls e
                     @ (if bCrashTrackerOriginallyEnabled s \<and> bCrashTrackerLoaded x
                        then [SetCrashTrackingEnabled True] else [])
                     @ (if LightmassProcessor s then [DeleteLightmassProcessor] else []),
                   StaticLightingSystem := None\<rparr>)"
proof (cases "CurrentBuildStage s = AsynchronousBuilding")
  case True
  with assms show ?thesis
    by (simp add: CancelLightingBuild_def IsAsyncBuilding_def ClearCurrentNotification_def
        split: option.splits)
next
  case False
  define cleared where "cleared =
     (case LightBuildNotification e of
        None \<Rightarrow> Notifications e
      | Some i \<Rightarrow> (Notifications e)
          [i := (Notifications e ! i)\<lparr>CompletionState := CS_None, bExpired := True\<rparr>])"
  have len: "length cleared = length (Notifications e)"
    by (simp add: cleared_def split: option.splits)
  have c: "ClearCurrentNotification e =
             e\<lparr>Notifications := cleared, LightBuildNotification := None\<rparr>"
    by (simp add: ClearCurrentNotification_def cleared_def split: option.splits)
  have "FailLightingBuild x EmptyText e =
          e\<lparr>Notifications := cleared
                     @ [\<lparr>NotificationText =
                           (if bMapBuildCancelled e then LightBuildCanceledMessage
                            else LightBuildFailedMessage),
                         CompletionState = CS_Fail, bExpired = False\<rparr>],
                   LightBuildNotification := Some (length (Notifications e)),
                   Calls := Calls e
                     @ (if bCrashTrackerOriginallyEnabled s \<and> bCrashTrackerLoaded x
                        then [SetCrashTrackingEnabled True] else [])
                     @ (if LightmassProcessor s then [DeleteLightmassProcessor] else []),
                   StaticLightingSystem := None\<rparr>"
    unfolding FailLightingBuild_def c
    using assms
    by (simp add: DestroyStaticLightingSystem_def DeleteStaticLightingSystem_def
        AddNotification_def SetCompletionState_def Call_def Let_def len [symmetric])
  with False assms show ?thesis
    unfolding cleared_def
    by (simp add: CancelLightingBuild_def IsAsyncBuilding_def)
qed

theorem cancel_lighting_build_witness:
  "StaticLightingSystem (ExampleEditor AsynchronousBuilding) \<noteq> None
   \<and> Notifications (ExampleEditor AsynchronousBuilding) =
       [\<lparr>NotificationText = LightBuildMessage, CompletionState = CS_Pending, bExpired = False\<rparr>]
   \<and> CancelLightingBuild ExampleExternal (ExampleEditor AsynchronousBuilding) =
       Inr ((ExampleEditor AsynchronousBuilding)
             \<lparr>bMapBuildCancelled := True,
              Notifications :=
                [\<lparr>NotificationText = LightBuildMessage, CompletionState = CS_None, bExpired = True\<rparr>],
              LightBuildNotification := None\<rparr>)
   \<and> StaticLightingSystem (ExampleEditor SwarmKickoff) \<noteq> None
   \<and> CancelLightingBuild ExampleExternal (ExampleEditor SwarmKickoff) =
       Inr ((ExampleEditor SwarmKickoff)
             \<lparr>Notifications :=
                [\<lparr>NotificationText = LightBuildMessage, CompletionState = CS_None, bExpired = True\<rparr>,
                 \<lparr>NotificationText = LightBuildFailedMessage, CompletionState = CS_Fail,
                   bExpired = False\<rparr>],
              LightBuildNotification := Some 1,
              Calls := Calls (ExampleEditor SwarmKickoff) @ [DeleteLightmassProcessor],
              StaticLightingSystem := None\<rparr>)"
proof -
  define s where "s = (\<lambda>stage. (NewStaticLightingSystem ExampleExternal ExampleOptions)
         \<lparr>CurrentBuildStage := stage, LightmassProcessor := True\<rparr>)"
  have h: "StaticLightingSystem (ExampleEditor stage) = Some (s stage)" for stage
    by (simp add: ExampleEditor_def s_def)
  have st: "CurrentBuildStage (s stage) = stage" "LightmassProcessor (s stage)"
    "\<not> bCrashTrackerOriginallyEnabled (s stage)" for stage
    by (simp_all add: s_def NewStaticLightingSystem_def)
  have n: "Notifications (ExampleEditor stage) =
       [\<lparr>NotificationText = LightBuildMessage, CompletionState = CS_Pending, bExpired = False\<rparr>]"
    "LightBuildNotification (ExampleEditor stage) = Some 0"
    "\<not> bMapBuildCancelled (ExampleEditor stage)" for stage
    by (simp_all add: ExampleEditor_def)
  from cancel_lighting_build [OF h [of AsynchronousBuilding], of ExampleExternal]
    cancel_lighting_build [OF h [of SwarmKickoff], of ExampleExternal] h st n
  show ?thesis
    by auto
qed

text \<open>
  Claim C6. Cancelling in the stage AmortizedExport destroys the system (no build is
  running afterwards), and the calls it makes on collaborators do not include CloseJob.
  The stage AmortizedExport is entered by \<^verbatim>\<open>InitiateLightmassProcessor\<close> only after it
  has called OpenJob and OpenJob has succeeded.
\<close>

theorem cancel_during_export_skips_close_job:
  assumes "StaticLightingSystem e = Some s" and "CurrentBuildStage s = AmortizedExport"
  shows "(\<exists>e' cs. CancelLightingBuild x e = Inr e'
            \<and> StaticLightingSystem e' = None \<and> \<not> IsLightingBuildCurrentlyRunning e'
            \<and> Calls e' = Calls e @ cs \<and> CloseJob \<notin> set cs)
       \<and> (\<forall>x0 s0 e0 ok s1 e1.
            InitiateLightmassProcessor x0 s0 e0 = (ok, s1, e1)
            \<and> CurrentBuildStage s0 \<noteq> AmortizedExport \<and> CurrentBuildStage s1 = AmortizedExport
            \<longrightarrow> bOpenJobSuccessful x0 \<and> ok
                \<and> (\<exists>cs. Calls e1 = Calls e0 @ [OpenJob, InitiateExport] @ cs))"
proof -
  obtain cs where cs: "Calls (FailLightingBuild x EmptyText e) = Calls e @ cs"
    and sub: "set cs \<subseteq> {SetCrashTrackingEnabled True, DeleteLightmassProcessor}"
    using Calls_Fail [of x EmptyText e] by blast
  from sub have "CloseJob \<notin> set cs" by auto
  with cs assms have cancel: "\<exists>e' cs. CancelLightingBuild x e = Inr e'
            \<and> StaticLightingSystem e' = None \<and> \<not> IsLightingBuildCurrentlyRunning e'
            \<and> Calls e' = Calls e @ cs \<and> CloseJob \<notin> set cs"
    by (simp add: CancelLightingBuild_def IsAsyncBuilding_def
        IsLightingBuildCurrentlyRunning_def)
  have opened: "\<forall>x0 s0 e0 ok s1 e1.
            InitiateLightmassProcessor x0 s0 e0 = (ok, s1, e1)
            \<and> CurrentBuildStage s0 \<noteq> AmortizedExport \<and> CurrentBuildStage s1 = AmortizedExport
            \<longrightarrow> bOpenJobSuccessful x0 \<and> ok
                \<and> (\<exists>cs. Calls e1 = Calls e0 @ [OpenJob, InitiateExport] @ cs)"
    by (auto simp add: InitiateLightmassProcessor_def Let_def split: if_splits)
  from cancel opened show ?thesis by (rule conjI)
qed

theorem cancel_during_export_skips_close_job_witness:
  "StaticLightingSystem (ExampleEditor AmortizedExport) \<noteq> None
   \<and> (\<exists>e' cs. CancelLightingBuild ExampleExternal (ExampleEditor AmortizedExport) = Inr e'
          \<and> StaticLightingSystem e' = None
          \<and> Calls e' = Calls (ExampleEditor AmortizedExport) @ cs \<and> CloseJob \<notin> set cs)
   \<and> OpenJob \<in> set (Calls (ExampleEditor AmortizedExport))"
proof -
  define s where "s = (NewStaticLightingSystem ExampleExternal ExampleOptions)
         \<lparr>CurrentBuildStage := AmortizedExport, LightmassProcessor := True\<rparr>"
  have h1: "StaticLightingSystem (ExampleEditor AmortizedExport) = Some s"
    by (simp add: ExampleEditor_def s_def)
  have h2: "CurrentBuildStage s = AmortizedExport"
    by (simp add: s_def)
  have o: "OpenJob \<in> set (Calls (ExampleEditor AmortizedExport))"
    by (simp add: ExampleEditor_def)
  from cancel_during_export_skips_close_job [OF h1 h2, of ExampleExternal] h1 o
  show ?thesis
    by auto
qed

section \<open>The components of the world\<close>

definition PointedTo :: "'a option list \<Rightarrow> 'a list" where
  "PointedTo ps = concat (map (\<lambda>p. case p of None \<Rightarrow> [] | Some v \<Rightarrow> [v]) ps)"

definition ActorComponents :: "ULevel \<Rightarrow> UPrimitiveComponent list" where
  "ActorComponents Level = concat (map Components (PointedTo (Actors Level)))"

definition LevelComponents :: "ULevel \<Rightarrow> UPrimitiveComponent list" where
  "LevelComponents Level = ActorComponents Level @ PointedTo (ModelComponents Level)"

definition AllPrimitiveComponents :: "UWorld \<Rightarrow> UPrimitiveComponent list" where
  "AllPrimitiveComponents World =
     concat (map LevelComponents (Levels World)) @ OtherPrimitiveComponents World"

definition ExampleWorld :: UWorld where
  "ExampleWorld =
    \<lparr>Levels =
      [\<lparr>Actors =
          [Some \<lparr>bSelected = False,
                 Components =
                   [\<lparr>VisibilityId = 5, bRegistered = True, Mobility = Static,
                     bStaticLightingBuildEnqueued = False,
                     StaticLightingInfo =
                       \<lparr>InfoVisibilityId = INDEX_NONE,
                        InfoMeshes = [Some (ComponentMesh 0)],
                        InfoMappings =
                          [\<lparr>Mesh = Some (ComponentMesh 0), bProcessMapping = False,
                            TexelCount = 16\<rparr>]\<rparr>\<rparr>,
                    \<lparr>VisibilityId = INDEX_NONE, bRegistered = True, Mobility = Movable,
                     bStaticLightingBuildEnqueued = False,
                     StaticLightingInfo =
                       \<lparr>InfoVisibilityId = INDEX_NONE,
                        InfoMeshes = [Some (ComponentMesh 1)],
                        InfoMappings =
                          [\<lparr>Mesh = Some (ComponentMesh 1), bProcessMapping = False,
                            TexelCount = 64\<rparr>]\<rparr>\<rparr>]\<rparr>,
           None],
        ModelComponents =
          [Some \<lparr>VisibilityId = 9, bRegistered = True, Mobility = Static,
                 bStaticLightingBuildEnqueued = False,
                 StaticLightingInfo =
                   \<lparr>InfoVisibilityId = INDEX_NONE, InfoMeshes = [], InfoMappings = []\<rparr>\<rparr>],
        Model =
          \<lparr>Nodes = [\<lparr>iSurf = 0, iVertPool = 0, NumVertices = 3, ComponentIndex = 0\<rparr>],
           Surfs = [\<lparr>pBase = 0, vTextureU = 0, vTextureV = 1, vNormal = 2\<rparr>],
           Points = [FVector, FVector, FVector],
           Vectors = [FVector, FVector, FVector],
           Verts = [\<lparr>pVertex = 0\<rparr>, \<lparr>pVertex = 1\<rparr>, \<lparr>pVertex = 2\<rparr>],
           NodeGroups = [(0, Some \<lparr>GroupNodes = [0], GroupTexelCount = 32\<rparr>)]\<rparr>,
        SelectedSurfaceIndices = [],
        bShouldBuildLightingForLevel = True,
        bPackageDirty = False\<rparr>,
       \<lparr>Actors =
          [Some \<lparr>bSelected = False,
                 Components =
                   [\<lparr>VisibilityId = 3, bRegistered = True, Mobility = Static,
                     bStaticLightingBuildEnqueued = False,
                     StaticLightingInfo =
                       \<lparr>InfoVisibilityId = INDEX_NONE,
                        InfoMeshes = [Some (ComponentMesh 2)],
                        InfoMappings =
                          [\<lparr>Mesh = Some (ComponentMesh 2), bProcessMapping = False,
                            TexelCount = 128\<rparr>]\<rparr>\<rparr>]\<rparr>],
        ModelComponents = [],
        Model = \<lparr>Nodes = [], Surfs = [], Points = [], Vectors = [], Verts = [],
                 NodeGroups = []\<rparr>,
        SelectedSurfaceIndices = [],
        bShouldBuildLightingForLevel = False,
        bPackageDirty = False\<rparr>],
     OtherPrimitiveComponents =
       [\<lparr>VisibilityId = 7, bRegistered = False, Mobility = Movable,
         bStaticLightingBuildEnqueued = False,
         StaticLightingInfo =
           \<lparr>InfoVisibilityId = INDEX_NONE, InfoMeshes = [], InfoMappings = []\<rparr>\<rparr>],
     bPrecomputeVisibility = True,
     bForceNoPrecomputedLighting = False\<rparr>"

definition IdleEditor :: FEditor where
  "IdleEditor =
     \<lparr>StaticLightingSystem = None, LightBuildNotification = None, Notifications = [],
      bMapBuildCancelled = False, GWorld = ExampleWorld, Calls = []\<rparr>"


lemma PointedTo_simps [simp]:
  "PointedTo [] = []"
  "PointedTo (None # ps) = PointedTo ps"
  "PointedTo (Some v # ps) = v # PointedTo ps"
  by (simp_all add: PointedTo_def)

lemma PointedTo_map_option: "PointedTo (map (map_option f) ps) = map f (PointedTo ps)"
proof (induction ps)
  case Nil
  show ?case by simp
next
  case (Cons a ps)
  then show ?case by (cases a) simp_all
qed

lemma VisibilityId_Reset: "c \<in> set (AllPrimitiveComponents (ResetVisibilityIds World)) \<Longrightarrow> VisibilityId c = INDEX_NONE"
  by (auto simp add: AllPrimitiveComponents_def ResetVisibilityIds_def LevelComponents_def
      ActorComponents_def ResetLevel_def ResetActor_def ResetComponent_def PointedTo_map_option)

lemma ResetComponent_idem [simp]: "ResetComponent (ResetComponent c) = ResetComponent c"
  by (simp add: ResetComponent_def)

lemma ResetActor_idem [simp]: "ResetActor (ResetActor a) = ResetActor a"
  by (simp add: ResetActor_def o_def)

lemma ResetLevel_idem [simp]: "ResetLevel (ResetLevel l) = ResetLevel l"
  by (simp add: ResetLevel_def o_def option.map_comp)

lemma Reset_idem: "ResetVisibilityIds (ResetVisibilityIds World) = ResetVisibilityIds World"
  by (simp add: ResetVisibilityIds_def o_def)

lemma ResetLevel_comp [simp]: "ResetLevel \<circ> ResetLevel = ResetLevel"
  by (rule ext) simp

lemma ResetComponent_comp [simp]: "ResetComponent \<circ> ResetComponent = ResetComponent"
  by (rule ext) simp

lemma Reset_idem2: "ResetVisibilityIds (ResetVisibilityIds World) = ResetVisibilityIds World"
  by (simp add: ResetVisibilityIds_def)

lemma Begin_reset:
  "BeginLightmassProcess x s (e\<lparr>GWorld := ResetVisibilityIds (GWorld e)\<rparr>) = BeginLightmassProcess x s e"
  unfolding BeginLightmassProcess_def by (simp add: Reset_idem2 Let_def split: sum.splits prod.splits)

lemma LevelComponents_subset:
  assumes "i < length (Levels World)"
  shows "set (LevelComponents (Levels World ! i)) \<subseteq> set (AllPrimitiveComponents World)"
proof
  fix c
  assume "c \<in> set (LevelComponents (Levels World ! i))"
  moreover have "Levels World ! i \<in> set (Levels World)"
    using assms by simp
  ultimately show "c \<in> set (AllPrimitiveComponents World)"
    unfolding AllPrimitiveComponents_def by auto
qed

text \<open>
  Claim C10. The reset at the start of \<^verbatim>\<open>BeginLightmassProcess\<close> leaves every primitive
  component of the process (the actors' components and the model components of every
  level, whether or not the options build it, and the components outside the world) as it
  was but with \<open>VisibilityId = INDEX_NONE\<close>; and the gather runs on the world so reset:
  the build is the same as the build of a world whose ids were already reset.
\<close>

theorem startup_resets_every_visibility_id:
  "AllPrimitiveComponents (ResetVisibilityIds World) =
     map (\<lambda>c. c\<lparr>VisibilityId := INDEX_NONE\<rparr>) (AllPrimitiveComponents World)
   \<and> (\<forall>c \<in> set (AllPrimitiveComponents (ResetVisibilityIds World)).
         VisibilityId c = INDEX_NONE)
   \<and> BeginLightmassProcess x s e =
       BeginLightmassProcess x s (e\<lparr>GWorld := ResetVisibilityIds (GWorld e)\<rparr>)"
proof -
  have "AllPrimitiveComponents (ResetVisibilityIds World) =
          map ResetComponent (AllPrimitiveComponents World)"
    by (simp add: AllPrimitiveComponents_def ResetVisibilityIds_def LevelComponents_def
        ActorComponents_def ResetLevel_def ResetActor_def PointedTo_map_option map_concat o_def)
  then show ?thesis
    by (simp add: Begin_reset ResetComponent_def)
qed

theorem startup_resets_every_visibility_id_witness:
  "\<not> bShouldBuildLightingForLevel (Levels ExampleWorld ! 1)
   \<and> map VisibilityId (LevelComponents (Levels ExampleWorld ! 1)) = [3]
   \<and> set (LevelComponents (Levels (ResetVisibilityIds ExampleWorld) ! 1)) \<noteq> {}
   \<and> set (LevelComponents (Levels (ResetVisibilityIds ExampleWorld) ! 1))
        \<subseteq> set (AllPrimitiveComponents (ResetVisibilityIds ExampleWorld))
   \<and> map VisibilityId (LevelComponents (Levels (ResetVisibilityIds ExampleWorld) ! 1)) =
        [INDEX_NONE]"
proof -
  have a: "\<not> bShouldBuildLightingForLevel (Levels ExampleWorld ! 1)"
    and b: "map VisibilityId (LevelComponents (Levels ExampleWorld ! 1)) = [3]"
    by (simp_all add: ExampleWorld_def LevelComponents_def ActorComponents_def)
  obtain c where c: "LevelComponents (Levels (ResetVisibilityIds ExampleWorld) ! 1) = [c]"
    by (simp add: ExampleWorld_def ResetVisibilityIds_def ResetLevel_def ResetActor_def
        LevelComponents_def ActorComponents_def)
  have "(1::nat) < length (Levels (ResetVisibilityIds ExampleWorld))"
    by (simp add: ExampleWorld_def ResetVisibilityIds_def)
  then have sub: "set (LevelComponents (Levels (ResetVisibilityIds ExampleWorld) ! 1))
        \<subseteq> set (AllPrimitiveComponents (ResetVisibilityIds ExampleWorld))"
    by (rule LevelComponents_subset)
  with c have "c \<in> set (AllPrimitiveComponents (ResetVisibilityIds ExampleWorld))"
    by simp
  with startup_resets_every_visibility_id [of ExampleWorld] have "VisibilityId c = INDEX_NONE"
    by blast
  with a b c sub show ?thesis by simp
qed

section \<open>Sorting\<close>

lemma mset_InsertSorted: "mset (InsertSorted precedes x ys) = add_mset x (mset ys)"
  by (induction ys) simp_all

lemma mset_TArray_Sort: "mset (TArray_Sort precedes xs) = mset xs"
  by (induction xs) (simp_all add: mset_InsertSorted)

lemma length_TArray_Sort: "length (TArray_Sort precedes xs) = length xs"
  using mset_TArray_Sort [of precedes xs] by (metis size_mset)

lemma set_TArray_Sort: "set (TArray_Sort precedes xs) = set xs"
  using mset_TArray_Sort [of precedes xs] by (metis set_mset_mset)

lemma set_InsertSorted: "set (InsertSorted precedes x ys) = insert x (set ys)"
  using mset_InsertSorted [of precedes x ys] by (metis set_mset_mset set_mset_add_mset_insert)

lemma sorted_InsertSorted:
  "sorted_wrt (\<lambda>A B. NumTexels B \<le> NumTexels A) ys
   \<Longrightarrow> sorted_wrt (\<lambda>A B. NumTexels B \<le> NumTexels A) (InsertSorted FCompareNumTexels x ys)"
  by (induction ys) (auto simp add: set_InsertSorted FCompareNumTexels_def)

lemma sorted_TArray_Sort:
  "sorted_wrt (\<lambda>A B. NumTexels B \<le> NumTexels A) (TArray_Sort FCompareNumTexels xs)"
  by (induction xs) (simp_all add: sorted_InsertSorted)

lemma filter_InsertSorted:
  "filter (\<lambda>h. NumTexels h = n) (InsertSorted FCompareNumTexels x ys) =
   filter (\<lambda>h. NumTexels h = n) (x # ys)"
  by (induction ys) (auto simp add: FCompareNumTexels_def)

lemma filter_TArray_Sort:
  "filter (\<lambda>h. NumTexels h = n) (TArray_Sort FCompareNumTexels xs) =
   filter (\<lambda>h. NumTexels h = n) xs"
  by (induction xs) (simp_all add: filter_InsertSorted)

lemma Mappings_AssignDeterministicGuid [simp]:
  "Mappings (AssignDeterministicGuid m s) = Mappings s"
  "UnSortedMappings (AssignDeterministicGuid m s) = UnSortedMappings s"
  "Meshes (AssignDeterministicGuid m s) = Meshes s"
  "NumBSPSurfaces (AssignDeterministicGuid m s) = NumBSPSurfaces s"
  "NextVisibilityId (AssignDeterministicGuid m s) = NextVisibilityId s"
  "DeterministicIndex (AssignDeterministicGuid m s) = DeterministicIndex s + 1"
  by (simp_all add: AssignDeterministicGuid_def)

lemma Mappings_AddSortedMappings:
  "Mappings (AddSortedMappings hs s) = Mappings s @ map Mapping hs"
  by (induction hs arbitrary: s) (simp_all add: Let_def split: option.splits)

lemma Meshes_AddSortedMappings [simp]:
  "Meshes (AddSortedMappings hs s) = Meshes s"
  by (induction hs arbitrary: s) (simp_all add: Let_def split: option.splits)

text \<open>
  Claim C7. When sorting is enabled, \<open>SortMappings\<close> appends to \<open>Mappings\<close> the mappings
  of a list \<open>hs\<close> of helpers and empties \<open>UnSortedMappings\<close>, where \<open>hs\<close> is a permutation
  of the gathered helpers, is in descending order of \<open>NumTexels\<close>, and keeps the helpers
  of each texel count in the order in which they were gathered.
\<close>

theorem sorted_mappings_descending_stable:
  assumes "bSortMappings dbg"
  shows "\<exists>hs. Mappings (SortMappings dbg s) = Mappings s @ map Mapping hs
     \<and> UnSortedMappings (SortMappings dbg s) = []
     \<and> mset hs = mset (UnSortedMappings s)
     \<and> sorted_wrt (\<lambda>A B. NumTexels B \<le> NumTexels A) hs
     \<and> (\<forall>n. filter (\<lambda>h. NumTexels h = n) hs =
              filter (\<lambda>h. NumTexels h = n) (UnSortedMappings s))"
  using assms
  by (intro exI [of _ "TArray_Sort FCompareNumTexels (UnSortedMappings s)"])
     (simp add: SortMappings_def Mappings_AddSortedMappings mset_TArray_Sort
        sorted_TArray_Sort filter_TArray_Sort)


definition ExampleUnsorted :: FStaticLightingSystem where
  "ExampleUnsorted =
     (NewStaticLightingSystem ExampleExternal ExampleOptions)
       \<lparr>UnSortedMappings :=
          [\<lparr>Mapping = \<lparr>Mesh = Some (ComponentMesh 0), bProcessMapping = True, TexelCount = 16\<rparr>,
            NumTexels = 16\<rparr>,
           \<lparr>Mapping = \<lparr>Mesh = Some (ComponentMesh 1), bProcessMapping = True, TexelCount = 64\<rparr>,
            NumTexels = 64\<rparr>,
           \<lparr>Mapping = \<lparr>Mesh = Some (ComponentMesh 2), bProcessMapping = True, TexelCount = 16\<rparr>,
            NumTexels = 16\<rparr>]\<rparr>"

theorem sorted_mappings_descending_stable_witness:
  "bSortMappings (GLightmassDebugOptions ExampleExternal)
   \<and> (\<exists>hs. Mappings (SortMappings (GLightmassDebugOptions ExampleExternal) ExampleUnsorted) =
             map Mapping hs
          \<and> mset hs = mset (UnSortedMappings ExampleUnsorted)
          \<and> sorted_wrt (\<lambda>A B. NumTexels B \<le> NumTexels A) hs)
   \<and> map Mesh (Mappings (SortMappings (GLightmassDebugOptions ExampleExternal) ExampleUnsorted)) =
       [Some (ComponentMesh 1), Some (ComponentMesh 0), Some (ComponentMesh 2)]"
proof -
  have b: "bSortMappings (GLightmassDebugOptions ExampleExternal)"
    by (simp add: ExampleExternal_def)
  have m: "Mappings ExampleUnsorted = []"
    by (simp add: ExampleUnsorted_def NewStaticLightingSystem_def)
  have v: "map Mesh (Mappings (SortMappings (GLightmassDebugOptions ExampleExternal)
                                ExampleUnsorted)) =
       [Some (ComponentMesh 1), Some (ComponentMesh 0), Some (ComponentMesh 2)]"
    by (simp add: ExampleExternal_def ExampleUnsorted_def NewStaticLightingSystem_def
        SortMappings_def FCompareNumTexels_def AssignDeterministicGuid_def Let_def)
  from sorted_mappings_descending_stable [OF b, of ExampleUnsorted] b m v show ?thesis
    by auto
qed

section \<open>What the gather keeps\<close>

text \<open>
  A property of the system that \<^verbatim>\<open>AddPrimitiveStaticLightingInfo\<close> and the addition of a
  BSP surface keep, and that does not depend on \<open>NextVisibilityId\<close>, holds after the
  gather when it holds before.
\<close>

lemma BSPNodeLoop_keeps:
  assumes vis: "\<And>s n. P s \<Longrightarrow> P (s\<lparr>NextVisibilityId := n\<rparr>)"
  shows "P s \<Longrightarrow> BSPNodeLoop bp nodes nis (mcs, s, d, ids) = Inr (mcs', s', d', ids') \<Longrightarrow> P s'"
proof (induction nis arbitrary: mcs s d ids)
  case Nil
  then show ?case by simp
next
  case (Cons ni nis)
  from Cons.prems(2) obtain mcs1 s1 d1 ids1 where
    rest: "BSPNodeLoop bp nodes nis (mcs1, s1, d1, ids1) = Inr (mcs', s', d', ids')"
    and s1: "s1 = s \<or> s1 = s\<lparr>NextVisibilityId := int32 (NextVisibilityId s + 1)\<rparr>"
    by (auto split: sum.splits option.splits if_splits)
  from s1 Cons.prems(1) have "P s1" by (auto intro: vis)
  then show ?case using rest by (rule Cons.IH)
qed

lemma AddBSPNodeGroups_keeps:
  assumes vis: "\<And>s n. P s \<Longrightarrow> P (s\<lparr>NextVisibilityId := n\<rparr>)"
      and bsp: "\<And>s ids t. P s \<Longrightarrow> P (AddSurfaceStaticLighting dbg b ids t s)"
  shows "P s \<Longrightarrow> AddBSPNodeGroups dbg bp b nodes gs (mcs, s, d) = Inr (mcs', s', d') \<Longrightarrow> P s'"
proof (induction gs arbitrary: mcs s d)
  case Nil
  then show ?case by simp
next
  case (Cons g gs)
  obtain k og where g: "g = (k, og)" by (cases g)
  show ?case
  proof (cases og)
    case None
    with Cons.prems g show ?thesis by simp
  next
    case (Some NodeGroup)
    show ?thesis
    proof (cases "GroupNodes NodeGroup = []")
      case True
      with Cons g Some show ?thesis by simp
    next
      case False
      with Cons.prems g Some obtain mcs1 s1 d1 ids1 where
        loop: "BSPNodeLoop bp nodes (GroupNodes NodeGroup) (mcs, s, d, []) = Inr (mcs1, s1, d1, ids1)"
        and rest: "AddBSPNodeGroups dbg bp b nodes gs
                     (mcs1, AddSurfaceStaticLighting dbg b (Some ids1) (GroupTexelCount NodeGroup) s1, d1)
                   = Inr (mcs', s', d')"
        by (auto split: sum.splits option.splits)
      from BSPNodeLoop_keeps [of P, OF vis Cons.prems(1) loop] have "P s1" .
      then have "P (AddSurfaceStaticLighting dbg b (Some ids1) (GroupTexelCount NodeGroup) s1)"
        by (rule bsp)
      then show ?thesis using rest by (rule Cons.IH)
    qed
  qed
qed

lemma AddBSPStaticLightingInfoGroups_keeps:
  assumes bsp: "\<And>s ids t. P s \<Longrightarrow> P (AddSurfaceStaticLighting dbg True ids t s)"
  shows "P s \<Longrightarrow> AddBSPStaticLightingInfoGroups dbg Level gs s = Inr s' \<Longrightarrow> P s'"
proof (induction gs arbitrary: s)
  case Nil
  then show ?case by simp
next
  case (Cons g gs)
  then show ?case
    by (cases g) (auto split: sum.splits option.splits if_splits intro: bsp)
qed

lemma GatherLevelBSP_cases:
  assumes "GatherLevelBSP dbg bp bf Level s = Inr (Level', s')"
  shows "(AddBSPStaticLightingInfo dbg bp Level True s = Inr (Level', s')
          \<and> bShouldBuildLightingForLevel Level \<and> \<not> bf)
       \<or> (\<exists>gs. AddBSPStaticLightingInfoGroups dbg Level gs s = Inr s' \<and> Level' = Level)
       \<or> (Level' = Level \<and> s' = s)"
proof -
  define selection where "selection =
            (if bShouldBuildLightingForLevel Level \<and> \<not> bOnlyBuildVisibility (Options s)
                \<and> bOnlyBuildSelected (Options s)
             then (if SelectedSurfaceIndices Level \<noteq> []
                   then SelectNodeGroups (Nodes (Model Level)) (SelectedSurfaceIndices Level)
                          (NodeGroups (Model Level)) ([], False)
                   else Inr ([], False))
             else Inr ([], bShouldBuildLightingForLevel Level))"
  from assms obtain gs b where sel: "selection = Inr (gs, b)"
    unfolding GatherLevelBSP_def Let_def selection_def [symmetric]
    by (cases selection) auto
  have whole: "\<not> bOnlyBuildSelected (Options s) \<or> bOnlyBuildVisibility (Options s)
               \<Longrightarrow> b = bShouldBuildLightingForLevel Level"
    using sel by (auto simp add: selection_def split: if_splits)
  from assms sel show ?thesis
    unfolding GatherLevelBSP_def Let_def selection_def [symmetric]
    using whole
    by (simp split: if_splits sum.splits) blast+
qed

lemma GatherLevelBSP_keeps:
  assumes vis: "\<And>s n. P s \<Longrightarrow> P (s\<lparr>NextVisibilityId := n\<rparr>)"
      and bsp: "\<And>s b ids t. P s \<Longrightarrow> P (AddSurfaceStaticLighting dbg b ids t s)"
      and P: "P s"
      and run: "GatherLevelBSP dbg bp bf Level s = Inr (Level', s')"
  shows "P s'"
proof -
  have whole: "AddBSPStaticLightingInfo dbg bp Level b s = Inr (Level', s') \<Longrightarrow> P s'" for b
    using AddBSPNodeGroups_keeps [of P dbg b, OF vis bsp P]
    by (auto simp add: AddBSPStaticLightingInfo_def split: sum.splits prod.splits)
  have groups: "AddBSPStaticLightingInfoGroups dbg L gs s = Inr s' \<Longrightarrow> P s'" for gs L
    using AddBSPStaticLightingInfoGroups_keeps [of P dbg, OF bsp P] by blast
  from GatherLevelBSP_cases [OF run] whole groups P show ?thesis
    by blast
qed

lemma GatherComponents_keeps:
  assumes vis: "\<And>s n. P s \<Longrightarrow> P (s\<lparr>NextVisibilityId := n\<rparr>)"
      and prim: "\<And>s pinfo b s'. P s \<Longrightarrow> AddPrimitiveStaticLightingInfo dbg pinfo b s = Inr s' \<Longrightarrow> P s'"
  shows "P s \<Longrightarrow> GatherComponents dbg bp bf b comps (s, d) = Inr (comps', s', d') \<Longrightarrow> P s'"
proof (induction comps arbitrary: s d comps' s' d')
  case Nil
  then show ?case by simp
next
  case (Cons c comps)
  show ?case
  proof (cases "bRegistered c \<and> \<not> bf")
    case False
    with Cons.prems obtain ps' where
      "GatherComponents dbg bp bf b comps (s, d) = Inr (ps', s', d')"
      by (auto split: sum.splits)
    with Cons.prems(1) show ?thesis by (rule Cons.IH)
  next
    case True
    define bAssign where "bAssign = (InfoMeshes (StaticLightingInfo c) \<noteq> [] \<and> Mobility c = Static)"
    define s1 where "s1 = (if bAssign then s\<lparr>NextVisibilityId := int32 (NextVisibilityId s + 1)\<rparr> else s)"
    have P1: "P s1" using Cons.prems(1) by (simp add: s1_def vis)
    from True Cons.prems(2) obtain pinfo s2 d1 ps' where
      add: "AddPrimitiveStaticLightingInfo dbg pinfo b s1 = Inr s2"
      and rest: "GatherComponents dbg bp bf b comps (s2, d1) = Inr (ps', s', d')"
      by (auto simp add: Let_def s1_def bAssign_def split: sum.splits)
    from prim [OF P1 add] have "P s2" .
    then show ?thesis using rest by (rule Cons.IH)
  qed
qed

lemma GatherActors_keeps:
  assumes vis: "\<And>s n. P s \<Longrightarrow> P (s\<lparr>NextVisibilityId := n\<rparr>)"
      and prim: "\<And>s pinfo b s'. P s \<Longrightarrow> AddPrimitiveStaticLightingInfo dbg pinfo b s = Inr s' \<Longrightarrow> P s'"
  shows "P s \<Longrightarrow> GatherActors dbg bp bf bl as (s, d) = Inr (as', s', d') \<Longrightarrow> P s'"
proof (induction as arbitrary: s d as' s' d')
  case Nil
  then show ?case by simp
next
  case (Cons a as)
  show ?case
  proof (cases a)
    case None
    with Cons.prems obtain as1 where "GatherActors dbg bp bf bl as (s, d) = Inr (as1, s', d')"
      by (auto split: sum.splits)
    with Cons.prems(1) show ?thesis by (rule Cons.IH)
  next
    case (Some Actor)
    with Cons.prems(2) obtain b comps comps' s1 d1 as1 where
      one: "GatherComponents dbg bp bf b comps (s, d) = Inr (comps', s1, d1)"
      and rest: "GatherActors dbg bp bf bl as (s1, d1) = Inr (as1, s', d')"
      by (auto simp add: Let_def split: sum.splits)
    from GatherComponents_keeps [of P, OF vis prim Cons.prems(1) one] have "P s1" .
    then show ?thesis using rest by (rule Cons.IH)
  qed
qed

lemma GatherLevels_keeps:
  assumes vis: "\<And>s n. P s \<Longrightarrow> P (s\<lparr>NextVisibilityId := n\<rparr>)"
      and bsp: "\<And>s b ids t. P s \<Longrightarrow> P (AddSurfaceStaticLighting dbg b ids t s)"
      and prim: "\<And>s pinfo b s'. P s \<Longrightarrow> AddPrimitiveStaticLightingInfo dbg pinfo b s = Inr s' \<Longrightarrow> P s'"
  shows "P s \<Longrightarrow> GatherLevels dbg bp bf ls s = Inr (ls', s') \<Longrightarrow> P s'"
proof (induction ls arbitrary: s ls' s')
  case Nil
  then show ?case by simp
next
  case (Cons Level ls)
  from Cons.prems(2) obtain Level1 s1 as1 s2 d2 ls1 where
    b: "GatherLevelBSP dbg bp bf Level s = Inr (Level1, s1)"
    and a: "GatherActors dbg bp bf (bShouldBuildLightingForLevel Level1) (Actors Level1) (s1, False)
              = Inr (as1, s2, d2)"
    and rest: "GatherLevels dbg bp bf ls s2 = Inr (ls1, s')"
    by (auto simp add: GatherLevel_def split: sum.splits)
  from GatherLevelBSP_keeps [of P, OF vis bsp Cons.prems(1) b] have "P s1" .
  from GatherActors_keeps [of P, OF vis prim this a] have "P s2" .
  then show ?case using rest by (rule Cons.IH)
qed

lemma GatherStaticLightingInfo_keeps:
  assumes vis: "\<And>s n. P s \<Longrightarrow> P (s\<lparr>NextVisibilityId := n\<rparr>)"
      and bsp: "\<And>s b ids t. P s \<Longrightarrow> P (AddSurfaceStaticLighting dbg b ids t s)"
      and prim: "\<And>s pinfo b s'. P s \<Longrightarrow> AddPrimitiveStaticLightingInfo dbg pinfo b s = Inr s' \<Longrightarrow> P s'"
      and P: "P s"
      and run: "GatherStaticLightingInfo dbg bf World s = Inr (World', s')"
  shows "P s'"
  using run GatherLevels_keeps [of P, OF vis bsp prim P]
  by (auto simp add: GatherStaticLightingInfo_def split: sum.splits)


section \<open>What BeginLightmassProcess returns\<close>

text \<open>The system as the collect phase of \<^verbatim>\<open>BeginLightmassProcess\<close> leaves it (line 550).\<close>

definition SameScene :: "FStaticLightingSystem \<Rightarrow> FStaticLightingSystem \<Rightarrow> bool" where
  "SameScene s s' =
     (Meshes s' = Meshes s \<and> Mappings s' = Mappings s
      \<and> UnSortedMappings s' = UnSortedMappings s \<and> MeshObjects s' = MeshObjects s
      \<and> DeterministicIndex s' = DeterministicIndex s
      \<and> NextVisibilityId s' = NextVisibilityId s \<and> NumBSPSurfaces s' = NumBSPSurfaces s)"

lemma GWorld_Call [simp]: "GWorld (Call c e) = GWorld e"
  by (simp add: Call_def)

lemma CreateLightmassProcessor_scene:
  "CreateLightmassProcessor x s e = Inr (ok, s', e') \<Longrightarrow> SameScene s s' \<and> GWorld e' = GWorld e"
  by (auto simp add: CreateLightmassProcessor_def SameScene_def split: if_splits)

lemma InitiateLightmassProcessor_scene:
  "InitiateLightmassProcessor x s e = (ok, s', e') \<Longrightarrow> SameScene s s' \<and> GWorld e' = GWorld e"
  by (auto simp add: InitiateLightmassProcessor_def SameScene_def Let_def split: if_splits)

lemma SameScene_trans: "SameScene a b \<Longrightarrow> SameScene b c \<Longrightarrow> SameScene a c"
  by (simp add: SameScene_def)

lemma SameScene_refl [simp]: "SameScene a a"
  by (simp add: SameScene_def)

lemma BeginLightmassProcess_collect:
  assumes "BeginLightmassProcess x s e = Inr (ok, s', e')"
  shows "\<exists>s1 warned.
           GatherStaticLightingInfo (GLightmassDebugOptions x)
             (bForceNoPrecomputedLighting (GWorld e) \<or> \<not> bAllowStaticLighting x)
             (ResetVisibilityIds (GWorld e)) (s\<lparr>CurrentBuildStage := Startup\<rparr>)
             = Inr (GWorld e', s1)
         \<and> VerifyDeterministicLighting (SortMappings (GLightmassDebugOptions x) s1)
             (Mappings (SortMappings (GLightmassDebugOptions x) s1)) = Inr warned
         \<and> SameScene (SortMappings (GLightmassDebugOptions x) s1) s'"
proof -
  define dbg where "dbg = GLightmassDebugOptions x"
  define bf where "bf = (bForceNoPrecomputedLighting (GWorld e) \<or> \<not> bAllowStaticLighting x)"
  have bf: "(bForceNoPrecomputedLighting (ResetVisibilityIds (GWorld e)) \<or> \<not> bAllowStaticLighting x) = bf"
    by (simp add: bf_def ResetVisibilityIds_def)
  from assms obtain World1 s1 where
    g: "GatherStaticLightingInfo dbg bf (ResetVisibilityIds (GWorld e))
          (s\<lparr>CurrentBuildStage := Startup\<rparr>) = Inr (World1, s1)"
    unfolding BeginLightmassProcess_def Let_def bf dbg_def [symmetric]
    by (auto split: sum.splits)
  define s2 where "s2 = SortMappings dbg s1"
  from assms g obtain warned where v: "VerifyDeterministicLighting s2 (Mappings s2) = Inr warned"
    unfolding BeginLightmassProcess_def Let_def bf dbg_def [symmetric] s2_def
    by (auto split: sum.splits)
  define e1 where "e1 = e\<lparr>GWorld := World1\<rparr>"
  have w1: "GWorld e1 = World1" by (simp add: e1_def)
  from assms g v have rest:
    "(if \<not> bf
      then (case CreateLightmassProcessor x s2 e1 of
              Inl err \<Rightarrow> Inl err
            | Inr (b, s3, e3) \<Rightarrow>
                if b then Inr (InitiateLightmassProcessor x s3 (Call GatherScene e3))
                else Inr (False, s3, e3))
      else Inr (False, s2, Call (ApplyNewLightingData True) (Call InvalidateStaticLighting e1)))
     = Inr (ok, s', e')"
    unfolding BeginLightmassProcess_def Let_def bf dbg_def [symmetric] s2_def e1_def
    by simp
  have "SameScene s2 s' \<and> GWorld e' = World1"
  proof (cases bf)
    case True
    with rest w1 show ?thesis by auto
  next
    case False
    with rest obtain b s3 e3 where c: "CreateLightmassProcessor x s2 e1 = Inr (b, s3, e3)"
      and r: "(if b then InitiateLightmassProcessor x s3 (Call GatherScene e3)
               else (False, s3, e3)) = (ok, s', e')"
      by (auto split: sum.splits if_splits)
    from CreateLightmassProcessor_scene [OF c] w1
    have c': "SameScene s2 s3" "GWorld e3 = World1" by simp_all
    show ?thesis
    proof (cases b)
      case True
      with r have "InitiateLightmassProcessor x s3 (Call GatherScene e3) = (ok, s', e')" by simp
      from InitiateLightmassProcessor_scene [OF this] c' show ?thesis
        by (auto intro: SameScene_trans)
    next
      case False
      with r c' show ?thesis by auto
    qed
  qed
  with g v show ?thesis
    unfolding dbg_def bf_def s2_def by blast
qed

section \<open>Meshes and mappings\<close>

lemma AddPrimitiveMeshes_lists:
  "AddPrimitiveMeshes dbg b v ms s = Inr s'
   \<Longrightarrow> Meshes s' = Meshes s @ map the ms \<and> Mappings s' = Mappings s
       \<and> UnSortedMappings s' = UnSortedMappings s \<and> NumBSPSurfaces s' = NumBSPSurfaces s
       \<and> NextVisibilityId s' = NextVisibilityId s
       \<and> (\<forall>m \<in> set ms. m \<noteq> None)"
proof (induction ms arbitrary: s)
  case Nil
  then show ?case by simp
next
  case (Cons m ms)
  show ?case
  proof (cases m)
    case None
    with Cons.prems show ?thesis by simp
  next
    case (Some r)
    with Cons.prems Cons.IH show ?thesis
      by (fastforce simp add: Let_def AddVisibilityId_def)
  qed
qed

lemma AddPrimitiveMappings_lists:
  "Meshes (AddPrimitiveMappings dbg b cs s) = Meshes s
   \<and> NumBSPSurfaces (AddPrimitiveMappings dbg b cs s) = NumBSPSurfaces s
   \<and> NextVisibilityId (AddPrimitiveMappings dbg b cs s) = NextVisibilityId s
   \<and> MeshObjects (AddPrimitiveMappings dbg b cs s) = MeshObjects s
   \<and> DeterministicIndex (AddPrimitiveMappings dbg b cs s) = DeterministicIndex s
   \<and> (if bSortMappings dbg
       then Mappings (AddPrimitiveMappings dbg b cs s) = Mappings s
            \<and> UnSortedMappings (AddPrimitiveMappings dbg b cs s) =
                UnSortedMappings s @
                map (\<lambda>c. \<lparr>Mapping = (if b then c\<lparr>bProcessMapping := True\<rparr> else c),
                          NumTexels = TexelCount c\<rparr>) cs
       else UnSortedMappings (AddPrimitiveMappings dbg b cs s) = UnSortedMappings s
            \<and> Mappings (AddPrimitiveMappings dbg b cs s) =
                Mappings s @ map (\<lambda>c. if b then c\<lparr>bProcessMapping := True\<rparr> else c) cs)"
  by (induction cs arbitrary: s) (simp_all add: Let_def)

lemma AddSurfaceStaticLighting_lists:
  "Meshes (AddSurfaceStaticLighting dbg b ids t s) = Meshes s @ [BSPSurface (NumBSPSurfaces s)]
   \<and> NumBSPSurfaces (AddSurfaceStaticLighting dbg b ids t s) = NumBSPSurfaces s + 1
   \<and> NextVisibilityId (AddSurfaceStaticLighting dbg b ids t s) = NextVisibilityId s
   \<and> (if bSortMappings dbg
       then Mappings (AddSurfaceStaticLighting dbg b ids t s) = Mappings s
            \<and> UnSortedMappings (AddSurfaceStaticLighting dbg b ids t s) =
                UnSortedMappings s @
                [\<lparr>Mapping = \<lparr>Mesh = Some (BSPSurface (NumBSPSurfaces s)), bProcessMapping = b,
                              TexelCount = t\<rparr>, NumTexels = t\<rparr>]
       else UnSortedMappings (AddSurfaceStaticLighting dbg b ids t s) = UnSortedMappings s
            \<and> Mappings (AddSurfaceStaticLighting dbg b ids t s) =
                Mappings s @ [\<lparr>Mesh = Some (BSPSurface (NumBSPSurfaces s)), bProcessMapping = b,
                               TexelCount = t\<rparr>])"
  by (simp add: AddSurfaceStaticLighting_def Let_def)

definition Paired :: "FLightmassDebugOptions \<Rightarrow> FStaticLightingSystem \<Rightarrow> bool" where
  "Paired dbg s =
     (length (Meshes s) = length (Mappings s) + length (UnSortedMappings s)
      \<and> (if bSortMappings dbg then Mappings s = [] else UnSortedMappings s = []))"

lemma AddPrimitiveStaticLightingInfo_lengths:
  assumes "AddPrimitiveStaticLightingInfo dbg pinfo b s = Inr s'"
  shows "length (InfoMeshes pinfo) = length (InfoMappings pinfo)
       \<and> length (Meshes s') = length (Meshes s) + length (InfoMeshes pinfo)
       \<and> length (Mappings s') + length (UnSortedMappings s') =
           length (Mappings s) + length (UnSortedMappings s) + length (InfoMappings pinfo)
       \<and> (Paired dbg s \<longrightarrow> Paired dbg s')"
proof -
  from assms have len: "length (InfoMeshes pinfo) = length (InfoMappings pinfo)"
    by (auto simp add: AddPrimitiveStaticLightingInfo_def split: if_splits)
  from assms obtain s1 where
    m: "AddPrimitiveMeshes dbg b (InfoVisibilityId pinfo) (InfoMeshes pinfo) s = Inr s1"
    and s': "s' = AddPrimitiveMappings dbg b (InfoMappings pinfo) s1"
    by (auto simp add: AddPrimitiveStaticLightingInfo_def split: if_splits sum.splits)
  from AddPrimitiveMeshes_lists [OF m] AddPrimitiveMappings_lists [of dbg b "InfoMappings pinfo" s1]
    len s'
  show ?thesis
    by (auto simp add: Paired_def split: if_splits)
qed

lemma Paired_gather:
  assumes "Paired dbg s" and "GatherStaticLightingInfo dbg bf World s = Inr (World', s')"
  shows "Paired dbg s'"
proof (rule GatherStaticLightingInfo_keeps [of "Paired dbg", OF _ _ _ assms])
  show "\<And>s n. Paired dbg s \<Longrightarrow> Paired dbg (s\<lparr>NextVisibilityId := n\<rparr>)"
    by (simp add: Paired_def)
  show "\<And>s b ids t. Paired dbg s \<Longrightarrow> Paired dbg (AddSurfaceStaticLighting dbg b ids t s)"
    using AddSurfaceStaticLighting_lists [of dbg]
    by (auto simp add: Paired_def split: if_splits)
  show "\<And>s pinfo b s'. Paired dbg s \<Longrightarrow> AddPrimitiveStaticLightingInfo dbg pinfo b s = Inr s'
          \<Longrightarrow> Paired dbg s'"
    using AddPrimitiveStaticLightingInfo_lengths by blast
qed

lemma Paired_sorted:
  "Paired dbg s \<Longrightarrow> length (Meshes (SortMappings dbg s)) = length (Mappings (SortMappings dbg s))
                   \<and> UnSortedMappings (SortMappings dbg s) = []"
  by (auto simp add: Paired_def SortMappings_def Mappings_AddSortedMappings length_TArray_Sort
      split: if_splits)

text \<open>
  Claim C9. A primitive info that \<^verbatim>\<open>AddPrimitiveStaticLightingInfo\<close> accepts has as many
  meshes as mappings, and adds that many to the meshes and to the mappings (sorted or
  not yet) of the system; a BSP surface adds one mesh and one mapping; so after the
  gather of a new system the meshes are as many as the mappings, and after
  \<^verbatim>\<open>BeginLightmassProcess\<close> \<open>Meshes\<close> and \<open>Mappings\<close> have the same length.
\<close>

theorem mesh_count_equals_mapping_count:
  "(AddPrimitiveStaticLightingInfo (GLightmassDebugOptions x) pinfo b s = Inr s1 \<longrightarrow>
      length (InfoMeshes pinfo) = length (InfoMappings pinfo)
      \<and> length (Meshes s1) = length (Meshes s) + length (InfoMeshes pinfo)
      \<and> length (Mappings s1) + length (UnSortedMappings s1) =
          length (Mappings s) + length (UnSortedMappings s) + length (InfoMappings pinfo))
   \<and> (length (Meshes (AddSurfaceStaticLighting (GLightmassDebugOptions x) b ids t s)) =
        length (Meshes s) + 1
      \<and> length (Mappings (AddSurfaceStaticLighting (GLightmassDebugOptions x) b ids t s))
        + length (UnSortedMappings (AddSurfaceStaticLighting (GLightmassDebugOptions x) b ids t s)) =
          length (Mappings s) + length (UnSortedMappings s) + 1)
   \<and> (GatherStaticLightingInfo (GLightmassDebugOptions x) bf World
         (NewStaticLightingSystem x InOptions) = Inr (World2, s2) \<longrightarrow>
      length (Meshes s2) = length (Mappings s2) + length (UnSortedMappings s2))
   \<and> (BeginLightmassProcess x (NewStaticLightingSystem x InOptions) e = Inr (ok, s3, e3) \<longrightarrow>
      length (Meshes s3) = length (Mappings s3) \<and> UnSortedMappings s3 = [])"
proof -
  define dbg where "dbg = GLightmassDebugOptions x"
  have new: "Paired dbg (NewStaticLightingSystem x InOptions)"
    and new': "Paired dbg ((NewStaticLightingSystem x InOptions)\<lparr>CurrentBuildStage := Startup\<rparr>)"
    by (simp_all add: Paired_def NewStaticLightingSystem_def)
  have a: "AddPrimitiveStaticLightingInfo dbg pinfo b s = Inr s1 \<longrightarrow>
      length (InfoMeshes pinfo) = length (InfoMappings pinfo)
      \<and> length (Meshes s1) = length (Meshes s) + length (InfoMeshes pinfo)
      \<and> length (Mappings s1) + length (UnSortedMappings s1) =
          length (Mappings s) + length (UnSortedMappings s) + length (InfoMappings pinfo)"
    using AddPrimitiveStaticLightingInfo_lengths [of dbg pinfo b s s1] by blast
  have b: "length (Meshes (AddSurfaceStaticLighting dbg b ids t s)) = length (Meshes s) + 1
      \<and> length (Mappings (AddSurfaceStaticLighting dbg b ids t s))
        + length (UnSortedMappings (AddSurfaceStaticLighting dbg b ids t s)) =
          length (Mappings s) + length (UnSortedMappings s) + 1"
    using AddSurfaceStaticLighting_lists [of dbg b ids t s] by (auto split: if_splits)
  have c: "GatherStaticLightingInfo dbg bf World (NewStaticLightingSystem x InOptions)
             = Inr (World2, s2) \<longrightarrow>
      length (Meshes s2) = length (Mappings s2) + length (UnSortedMappings s2)"
    using Paired_gather [OF new] by (auto simp add: Paired_def)
  have d: "BeginLightmassProcess x (NewStaticLightingSystem x InOptions) e = Inr (ok, s3, e3) \<longrightarrow>
      length (Meshes s3) = length (Mappings s3) \<and> UnSortedMappings s3 = []"
  proof
    assume "BeginLightmassProcess x (NewStaticLightingSystem x InOptions) e = Inr (ok, s3, e3)"
    from BeginLightmassProcess_collect [OF this] obtain sg where
      g: "GatherStaticLightingInfo dbg
             (bForceNoPrecomputedLighting (GWorld e) \<or> \<not> bAllowStaticLighting x)
             (ResetVisibilityIds (GWorld e))
             ((NewStaticLightingSystem x InOptions)\<lparr>CurrentBuildStage := Startup\<rparr>)
             = Inr (GWorld e3, sg)"
      and same: "SameScene (SortMappings dbg sg) s3"
      unfolding dbg_def by blast
    from Paired_gather [OF new' g] have "Paired dbg sg" .
    from Paired_sorted [OF this] same show
      "length (Meshes s3) = length (Mappings s3) \<and> UnSortedMappings s3 = []"
      by (simp add: SameScene_def)
  qed
  from a b c d show ?thesis unfolding dbg_def by blast
qed


lemma upt_0_3: "[0..<3] = [0, 1, 2]"
  by (simp add: numeral_3_eq_3 upt_rec)

text \<open>The build of the example world, evaluated.\<close>

lemma ExampleBuild:
  "\<exists>s e'. BeginLightmassProcess ExampleExternal
             (NewStaticLightingSystem ExampleExternal ExampleOptions) IdleEditor = Inr (True, s, e')
     \<and> Meshes s = [BSPSurface 0, ComponentMesh 0, ComponentMesh 1, ComponentMesh 2]
     \<and> map Mesh (Mappings s) =
         [Some (ComponentMesh 2), Some (ComponentMesh 1), Some (BSPSurface 0), Some (ComponentMesh 0)]
     \<and> map bProcessMapping (Mappings s) = [False, True, True, True]
     \<and> map (\<lambda>m. GuidD (Guid (MeshObjects s m))) [ComponentMesh 1, BSPSurface 0, ComponentMesh 0]
         = [0, 1, 2]
     \<and> NextVisibilityId s = 3
     \<and> map VisibilityId (AllPrimitiveComponents (GWorld e')) = [1, INDEX_NONE, 0, 2, INDEX_NONE]
     \<and> map bPackageDirty (Levels (GWorld e')) = [True, True]"
  by (simp add: ExampleExternal_def ExampleOptions_def IdleEditor_def ExampleWorld_def
      NewStaticLightingSystem_def BeginLightmassProcess_def GatherStaticLightingInfo_def
      GatherLevel_def GatherLevelBSP_def AddBSPStaticLightingInfo_def
      AddSurfaceStaticLighting_def AddPrimitiveStaticLightingInfo_def ResetVisibilityIds_def
      ResetLevel_def ResetActor_def ResetComponent_def INDEX_NONE_def TArray_at_def
      AddUnique_def AssignDeterministicGuid_def AddVisibilityId_def MakeGuid_def
      CacheNodeVertices_def int32_def upt_0_3
      SortMappings_def FCompareNumTexels_def MarkPackageDirty_def CreateLightmassProcessor_def
      InitiateLightmassProcessor_def Call_def Let_def AllPrimitiveComponents_def
      LevelComponents_def ActorComponents_def)

theorem mesh_count_equals_mapping_count_witness:
  "(\<exists>s1. AddPrimitiveStaticLightingInfo (GLightmassDebugOptions ExampleExternal)
            \<lparr>InfoVisibilityId = 0, InfoMeshes = [Some (ComponentMesh 0)],
             InfoMappings = [\<lparr>Mesh = Some (ComponentMesh 0), bProcessMapping = False,
                              TexelCount = 16\<rparr>]\<rparr>
            True (NewStaticLightingSystem ExampleExternal ExampleOptions) = Inr s1
         \<and> length (Meshes s1) = 1
         \<and> length (Mappings s1) + length (UnSortedMappings s1) = 1)
   \<and> (\<exists>ok s3 e3. BeginLightmassProcess ExampleExternal
                    (NewStaticLightingSystem ExampleExternal ExampleOptions) IdleEditor
                  = Inr (ok, s3, e3)
         \<and> Meshes s3 = [BSPSurface 0, ComponentMesh 0, ComponentMesh 1, ComponentMesh 2]
         \<and> length (Mappings s3) = length (Meshes s3) \<and> UnSortedMappings s3 = [])"
proof -
  define pinfo where "pinfo =
     \<lparr>InfoVisibilityId = 0, InfoMeshes = [Some (ComponentMesh 0)],
      InfoMappings = [\<lparr>Mesh = Some (ComponentMesh 0), bProcessMapping = False,
                       TexelCount = 16\<rparr>]\<rparr>"
  define s0 where "s0 = NewStaticLightingSystem ExampleExternal ExampleOptions"
  obtain s1 where a: "AddPrimitiveStaticLightingInfo (GLightmassDebugOptions ExampleExternal)
                        pinfo True s0 = Inr s1"
    by (simp add: AddPrimitiveStaticLightingInfo_def pinfo_def Let_def)
  have l0: "length (Meshes s0) = 0" "length (Mappings s0) + length (UnSortedMappings s0) = 0"
    by (simp_all add: s0_def NewStaticLightingSystem_def)
  obtain s3 e3 where b: "BeginLightmassProcess ExampleExternal s0 IdleEditor = Inr (True, s3, e3)"
    and m: "Meshes s3 = [BSPSurface 0, ComponentMesh 0, ComponentMesh 1, ComponentMesh 2]"
    using ExampleBuild unfolding s0_def by blast
  from mesh_count_equals_mapping_count [where x = ExampleExternal and pinfo = pinfo
      and b = True and s = s0 and ?s1.0 = s1 and InOptions = ExampleOptions and e = IdleEditor
      and ok = True and ?s3.0 = s3 and ?e3.0 = e3]
    a b l0 m
  show ?thesis
    unfolding pinfo_def s0_def by (auto simp add: pinfo_def)
qed

section \<open>Visibility ids\<close>

definition AssignedIds :: "UPrimitiveComponent list \<Rightarrow> int list" where
  "AssignedIds cs = filter (\<lambda>i. i \<noteq> INDEX_NONE) (map VisibilityId cs)"

text \<open>
  The condition of lines 949 and 968 under which the loop gives a component an id: the
  component is queried (it is registered and precomputed lighting is not forced off),
  the query produced a mesh, and the mobility is static.
\<close>

definition GetsVisibilityId :: "bool \<Rightarrow> UPrimitiveComponent \<Rightarrow> bool" where
  "GetsVisibilityId bForceNoPrecomputed c =
     (bRegistered c \<and> \<not> bForceNoPrecomputed \<and> InfoMeshes (StaticLightingInfo c) \<noteq> []
      \<and> Mobility c = Static)"

text \<open>A component before the build, and the same component after it.\<close>

definition Gathered :: "bool \<Rightarrow> UPrimitiveComponent \<Rightarrow> UPrimitiveComponent \<Rightarrow> bool" where
  "Gathered bForceNoPrecomputed c c' =
     (bRegistered c' = bRegistered c \<and> Mobility c' = Mobility c
      \<and> StaticLightingInfo c' = StaticLightingInfo c
      \<and> ((VisibilityId c' \<noteq> INDEX_NONE) = GetsVisibilityId bForceNoPrecomputed c))"

lemma AssignedIds_simps [simp]:
  "AssignedIds [] = []"
  "AssignedIds (c # cs) =
     (if VisibilityId c = INDEX_NONE then AssignedIds cs else VisibilityId c # AssignedIds cs)"
  "AssignedIds (cs @ ds) = AssignedIds cs @ AssignedIds ds"
  by (simp_all add: AssignedIds_def)

lemma AssignedIds_concat: "AssignedIds (concat css) = concat (map AssignedIds css)"
  by (induction css) simp_all

lemma AssignedIds_none:
  "(\<forall>c \<in> set cs. VisibilityId c = INDEX_NONE) \<Longrightarrow> AssignedIds cs = []"
  by (induction cs) simp_all

lemma AssignedIds_empty_iff:
  "AssignedIds cs = [] \<longleftrightarrow> (\<forall>c \<in> set cs. VisibilityId c = INDEX_NONE)"
  by (induction cs) simp_all

lemma NextVisibilityId_AddPrimitive:
  assumes "AddPrimitiveStaticLightingInfo dbg pinfo b s = Inr s'"
  shows "NextVisibilityId s' = NextVisibilityId s"
proof -
  from assms obtain s1 where
    m: "AddPrimitiveMeshes dbg b (InfoVisibilityId pinfo) (InfoMeshes pinfo) s = Inr s1"
    and s': "s' = AddPrimitiveMappings dbg b (InfoMappings pinfo) s1"
    by (auto simp add: AddPrimitiveStaticLightingInfo_def split: if_splits sum.splits)
  from AddPrimitiveMeshes_lists [OF m] AddPrimitiveMappings_lists [of dbg b "InfoMappings pinfo" s1] s'
  show ?thesis by simp
qed

lemma upto_from: "(n::int) < m \<Longrightarrow> [n..m - 1] = n # [n + 1..m - 1]"
  by (simp add: upto_rec1)

text \<open>The counter does not wrap around as long as it stays below \<open>2 ^ 31\<close>.\<close>

lemma int32_increment: "0 \<le> n \<Longrightarrow> n + 1 < 2 ^ 31 \<Longrightarrow> int32 (n + 1) = n + 1"
  by (simp add: int32_def)

lemma counter_bound:
  assumes "AssignedIds cs' = [n..n' - 1]" and "length cs' = length cs"
  shows "n' \<le> n + int (length cs)"
proof -
  have "length [n..n' - 1] \<le> length cs'"
    unfolding assms(1) [symmetric] by (simp add: AssignedIds_def)
  with assms(2) show ?thesis by simp
qed

lemma GatherComponents_ids:
  assumes "GatherComponents dbg bp bf b comps (s, d) = Inr (comps', s', d')"
      and "\<forall>c \<in> set comps. VisibilityId c = INDEX_NONE"
      and "0 \<le> NextVisibilityId s"
      and "NextVisibilityId s + int (length comps) < 2 ^ 31"
  shows "list_all2 (Gathered bf) comps comps'
       \<and> AssignedIds comps' = [NextVisibilityId s..NextVisibilityId s' - 1]
       \<and> NextVisibilityId s \<le> NextVisibilityId s'
       \<and> d' = (d \<or> (bp \<and> NextVisibilityId s < NextVisibilityId s'))"
  using assms
proof (induction comps arbitrary: s d comps' s' d')
  case Nil
  then show ?case by simp
next
  case (Cons c comps)
  have none: "VisibilityId c = INDEX_NONE" and nones: "\<forall>c \<in> set comps. VisibilityId c = INDEX_NONE"
    using Cons.prems(2) by simp_all
  show ?case
  proof (cases "bRegistered c \<and> \<not> bf")
    case False
    with Cons.prems(1) obtain ps' where
      rest: "GatherComponents dbg bp bf b comps (s, d) = Inr (ps', s', d')"
      and c': "comps' = c # ps'"
      by (auto split: sum.splits)
    from none False have "Gathered bf c c"
      by (auto simp add: Gathered_def GetsVisibilityId_def)
    moreover from Cons.prems(4) have "NextVisibilityId s + int (length comps) < 2 ^ 31"
      by simp
    ultimately show ?thesis
      using Cons.IH [OF rest nones Cons.prems(3)] c' none by simp
  next
    case True
    show ?thesis
    proof (cases "GetsVisibilityId bf c")
      case False
      with True have na: "\<not> (InfoMeshes (StaticLightingInfo c) \<noteq> [] \<and> Mobility c = Static)"
        by (simp add: GetsVisibilityId_def)
      with True Cons.prems(1) obtain s2 ps' where
        add: "AddPrimitiveStaticLightingInfo dbg (StaticLightingInfo c) b s = Inr s2"
        and rest: "GatherComponents dbg bp bf b comps (s2, d) = Inr (ps', s', d')"
        and c': "comps' = c # ps'"
        by (auto simp add: Let_def split: sum.splits)
      from NextVisibilityId_AddPrimitive [OF add] Cons.prems(3,4)
      have n2: "NextVisibilityId s2 = NextVisibilityId s" "0 \<le> NextVisibilityId s2"
        "NextVisibilityId s2 + int (length comps) < 2 ^ 31"
        by simp_all
      from none False have "Gathered bf c c"
        by (simp add: Gathered_def)
      with Cons.IH [OF rest nones n2(2,3)] c' none n2 show ?thesis
        by simp
    next
      case gets: True
      then have a: "InfoMeshes (StaticLightingInfo c) \<noteq> [] \<and> Mobility c = Static"
        by (simp add: GetsVisibilityId_def)
      define n where "n = NextVisibilityId s"
      from Cons.prems(3,4) have wrap: "int32 (n + 1) = n + 1"
        unfolding n_def by (intro int32_increment) simp_all
      from True a Cons.prems(1) obtain pinfo s2 ps' where
        add: "AddPrimitiveStaticLightingInfo dbg pinfo b (s\<lparr>NextVisibilityId := n + 1\<rparr>) = Inr s2"
        and rest: "GatherComponents dbg bp bf b comps (s2, if bp then True else d) = Inr (ps', s', d')"
        and c': "comps' = c\<lparr>VisibilityId := n\<rparr> # ps'"
        by (auto simp add: Let_def wrap n_def [symmetric] split: sum.splits)
      from NextVisibilityId_AddPrimitive [OF add] Cons.prems(3,4)
      have n2: "NextVisibilityId s2 = n + 1" "0 \<le> NextVisibilityId s2"
        "NextVisibilityId s2 + int (length comps) < 2 ^ 31"
        by (simp_all add: n_def)
      from Cons.prems(3) have nn: "n \<noteq> INDEX_NONE" by (simp add: n_def INDEX_NONE_def)
      from Cons.IH [OF rest nones n2(2,3)] n2
      have ih: "list_all2 (Gathered bf) comps ps'"
        "AssignedIds ps' = [n + 1..NextVisibilityId s' - 1]"
        "n + 1 \<le> NextVisibilityId s'"
        "d' = ((if bp then True else d) \<or> (bp \<and> n + 1 < NextVisibilityId s'))"
        by simp_all
      from ih(3) have up: "[n..NextVisibilityId s' - 1] = n # [n + 1..NextVisibilityId s' - 1]"
        by (intro upto_from) simp
      from nn gets have "Gathered bf c (c\<lparr>VisibilityId := n\<rparr>)"
        by (simp add: Gathered_def)
      with ih c' nn up show ?thesis
        unfolding n_def [symmetric]
        by auto
    qed
  qed
qed


lemma upto_append: "(n::int) \<le> m \<Longrightarrow> m \<le> k \<Longrightarrow> [n..m - 1] @ [m..k - 1] = [n..k - 1]"
proof (cases "m \<le> k - 1")
  case True
  assume "n \<le> m"
  with True show ?thesis using upto_split1 [of n m "k - 1"] by simp
next
  case False
  assume "m \<le> k"
  with False have "m = k" by simp
  then show ?thesis by simp
qed

lemma Gathered_enqueue [simp]:
  "Gathered bf (c\<lparr>bStaticLightingBuildEnqueued := v\<rparr>) c' = Gathered bf c c'"
  by (simp add: Gathered_def GetsVisibilityId_def)

lemma Gathered_reset [simp]: "Gathered bf (ResetComponent c) c' = Gathered bf c c'"
  by (simp add: Gathered_def GetsVisibilityId_def ResetComponent_def)

lemma GatherActors_ids:
  assumes "GatherActors dbg bp bf bl as (s, d) = Inr (as', s', d')"
      and "\<forall>c \<in> set (concat (map Components (PointedTo as))). VisibilityId c = INDEX_NONE"
      and "0 \<le> NextVisibilityId s"
      and "NextVisibilityId s + int (length (concat (map Components (PointedTo as)))) < 2 ^ 31"
  shows "list_all2 (Gathered bf) (concat (map Components (PointedTo as)))
           (concat (map Components (PointedTo as')))
       \<and> AssignedIds (concat (map Components (PointedTo as'))) =
           [NextVisibilityId s..NextVisibilityId s' - 1]
       \<and> NextVisibilityId s \<le> NextVisibilityId s'
       \<and> d' = (d \<or> (bp \<and> NextVisibilityId s < NextVisibilityId s'))"
  using assms
proof (induction as arbitrary: s d as' s' d')
  case Nil
  then show ?case by simp
next
  case (Cons a as)
  show ?case
  proof (cases a)
    case None
    with Cons.prems(1) obtain as1 where
      rest: "GatherActors dbg bp bf bl as (s, d) = Inr (as1, s', d')" and a': "as' = None # as1"
      by (auto split: sum.splits)
    from Cons.prems(2) None have "\<forall>c \<in> set (concat (map Components (PointedTo as))). VisibilityId c = INDEX_NONE"
      by simp
    moreover from Cons.prems(4) None
    have "NextVisibilityId s + int (length (concat (map Components (PointedTo as)))) < 2 ^ 31"
      by simp
    ultimately show ?thesis
      using Cons.IH [OF rest _ Cons.prems(3)] None a' by simp
  next
    case (Some Actor)
    define comps where "comps =
       (if (bl \<and> (\<not> bOnlyBuildSelected (Options s) \<or> bSelected Actor))
           \<and> \<not> bOnlyBuildVisibility (Options s)
        then map (\<lambda>c. c\<lparr>bStaticLightingBuildEnqueued := True\<rparr>) (Components Actor)
        else Components Actor)"
    from Some Cons.prems(1) obtain b comps1 s1 d1 as1 where
      one: "GatherComponents dbg bp bf b comps (s, d) = Inr (comps1, s1, d1)"
      and rest: "GatherActors dbg bp bf bl as (s1, d1) = Inr (as1, s', d')"
      and a': "as' = Some (Actor\<lparr>Components := comps1\<rparr>) # as1"
      by (auto simp add: Let_def comps_def split: sum.splits)
    from Cons.prems(2) Some have n1: "\<forall>c \<in> set comps. VisibilityId c = INDEX_NONE"
      and n2: "\<forall>c \<in> set (concat (map Components (PointedTo as))). VisibilityId c = INDEX_NONE"
      by (auto simp add: comps_def)
    have len: "length comps = length (Components Actor)"
      by (simp add: comps_def)
    from Cons.prems(4) Some
    have room: "NextVisibilityId s + int (length comps)
                  + int (length (concat (map Components (PointedTo as)))) < 2 ^ 31"
      by (simp add: len)
    then have "NextVisibilityId s + int (length comps) < 2 ^ 31" by simp
    from GatherComponents_ids [OF one n1 Cons.prems(3) this]
    have c: "list_all2 (Gathered bf) comps comps1"
      "AssignedIds comps1 = [NextVisibilityId s..NextVisibilityId s1 - 1]"
      "NextVisibilityId s \<le> NextVisibilityId s1"
      "d1 = (d \<or> (bp \<and> NextVisibilityId s < NextVisibilityId s1))"
      by simp_all
    from c(1) have c1: "list_all2 (Gathered bf) (Components Actor) comps1"
      by (simp add: comps_def list_all2_map1 split: if_splits)
    from c(1) have "length comps1 = length comps"
      by (simp add: list_all2_lengthD)
    from counter_bound [OF c(2) this] room
    have room1: "NextVisibilityId s1 + int (length (concat (map Components (PointedTo as)))) < 2 ^ 31"
      by simp
    from c(3) Cons.prems(3) have "0 \<le> NextVisibilityId s1" by simp
    from Cons.IH [OF rest n2 this room1]
    have r: "list_all2 (Gathered bf) (concat (map Components (PointedTo as)))
               (concat (map Components (PointedTo as1)))"
      "AssignedIds (concat (map Components (PointedTo as1))) =
         [NextVisibilityId s1..NextVisibilityId s' - 1]"
      "NextVisibilityId s1 \<le> NextVisibilityId s'"
      "d' = (d1 \<or> (bp \<and> NextVisibilityId s1 < NextVisibilityId s'))"
      by simp_all
    have l: "list_all2 (Gathered bf) (concat (map Components (PointedTo (a # as))))
               (concat (map Components (PointedTo as')))"
      using c1 r(1) Some a' by (simp add: list_all2_appendI)
    have i: "AssignedIds (concat (map Components (PointedTo as'))) =
               [NextVisibilityId s..NextVisibilityId s' - 1]"
      using c(2) r(2) a' upto_append [OF c(3) r(3)] by simp
    from l i c(3,4) r(3,4) show ?thesis by auto
  qed
qed

lemma TArray_at_Inr:
  "TArray_at xs i = Inr v \<Longrightarrow> 0 \<le> i \<and> nat i < length xs \<and> xs ! nat i = v"
  by (auto simp add: TArray_at_def split: if_splits)

lemma AssignedIds_update:
  assumes "k < length mcs" and "mcs ! k = Some C" and "VisibilityId C = INDEX_NONE"
      and "n \<noteq> INDEX_NONE"
  shows "mset (AssignedIds (PointedTo (mcs[k := Some (C\<lparr>VisibilityId := n\<rparr>)]))) =
         add_mset n (mset (AssignedIds (PointedTo mcs)))"
  using assms
proof (induction mcs arbitrary: k)
  case Nil
  then show ?case by simp
next
  case (Cons a mcs)
  show ?case
  proof (cases k)
    case 0
    with Cons.prems show ?thesis by simp
  next
    case (Suc j)
    with Cons.prems have "mset (AssignedIds (PointedTo (mcs[j := Some (C\<lparr>VisibilityId := n\<rparr>)]))) =
         add_mset n (mset (AssignedIds (PointedTo mcs)))"
      by (intro Cons.IH) simp_all
    with Suc show ?thesis by (cases a) simp_all
  qed
qed

text \<open>The number of components that have no visibility id.\<close>

definition Unassigned :: "UPrimitiveComponent list \<Rightarrow> nat" where
  "Unassigned cs = length (filter (\<lambda>c. VisibilityId c = INDEX_NONE) cs)"

lemma Unassigned_simps [simp]:
  "Unassigned [] = 0"
  "Unassigned (c # cs) = (if VisibilityId c = INDEX_NONE then Suc (Unassigned cs) else Unassigned cs)"
  by (simp_all add: Unassigned_def)

lemma Unassigned_le: "Unassigned cs \<le> length cs"
  by (simp add: Unassigned_def)

lemma Unassigned_update:
  assumes "k < length mcs" and "mcs ! k = Some C" and "VisibilityId C = INDEX_NONE"
      and "n \<noteq> INDEX_NONE"
  shows "Suc (Unassigned (PointedTo (mcs[k := Some (C\<lparr>VisibilityId := n\<rparr>)]))) =
         Unassigned (PointedTo mcs)"
  using assms
proof (induction mcs arbitrary: k)
  case Nil
  then show ?case by simp
next
  case (Cons a mcs)
  show ?case
  proof (cases k)
    case 0
    with Cons.prems show ?thesis by simp
  next
    case (Suc j)
    with Cons.prems have "Suc (Unassigned (PointedTo (mcs[j := Some (C\<lparr>VisibilityId := n\<rparr>)]))) =
         Unassigned (PointedTo mcs)"
      by (intro Cons.IH) simp_all
    with Suc show ?thesis by (cases a) simp_all
  qed
qed

lemma BSPNodeLoop_ids:
  assumes "BSPNodeLoop bp nodes nis (mcs, s, d, ids) = Inr (mcs', s', d', ids')"
      and "0 \<le> NextVisibilityId s"
      and "NextVisibilityId s + int (Unassigned (PointedTo mcs)) < 2 ^ 31"
  shows "mset (AssignedIds (PointedTo mcs')) =
           mset (AssignedIds (PointedTo mcs)) + mset [NextVisibilityId s..NextVisibilityId s' - 1]
       \<and> NextVisibilityId s \<le> NextVisibilityId s'
       \<and> d' = (d \<or> (bp \<and> NextVisibilityId s < NextVisibilityId s'))
       \<and> NextVisibilityId s' + int (Unassigned (PointedTo mcs')) =
           NextVisibilityId s + int (Unassigned (PointedTo mcs))"
  using assms
proof (induction nis arbitrary: mcs s d ids)
  case Nil
  then show ?case by simp
next
  case (Cons ni nis)
  from Cons.prems(1) obtain Node Component where
    node: "CacheNodeVertices nodes ni = Inr Node"
    and comp: "TArray_at mcs (ComponentIndex Node) = Inr (Some Component)"
    by (auto split: sum.splits option.splits)
  define n where "n = NextVisibilityId s"
  show ?case
  proof (cases "VisibilityId Component = INDEX_NONE")
    case False
    with Cons.prems(1) node comp have
      rest: "BSPNodeLoop bp nodes nis (mcs, s, d, AddUnique ids (VisibilityId Component))
               = Inr (mcs', s', d', ids')"
      by simp
    from Cons.IH [OF rest Cons.prems(2,3)] show ?thesis .
  next
    case True
    define mcs1 where "mcs1 = mcs[nat (ComponentIndex Node) := Some (Component\<lparr>VisibilityId := n\<rparr>)]"
    from Cons.prems(2) have nn: "n \<noteq> INDEX_NONE" and n0: "0 \<le> NextVisibilityId (s\<lparr>NextVisibilityId := n + 1\<rparr>)"
      by (simp_all add: n_def INDEX_NONE_def)
    from TArray_at_Inr [OF comp] True nn
    have un: "Suc (Unassigned (PointedTo mcs1)) = Unassigned (PointedTo mcs)"
      unfolding mcs1_def by (intro Unassigned_update) simp_all
    with Cons.prems(2,3) have wrap: "int32 (n + 1) = n + 1"
      unfolding n_def by (intro int32_increment) simp_all
    from True Cons.prems(1) node comp have
      rest: "BSPNodeLoop bp nodes nis (mcs1, s\<lparr>NextVisibilityId := n + 1\<rparr>, d \<or> bp, AddUnique ids n)
               = Inr (mcs', s', d', ids')"
      by (simp add: mcs1_def n_def [symmetric] wrap)
    from un Cons.prems(3)
    have room: "NextVisibilityId (s\<lparr>NextVisibilityId := n + 1\<rparr>) + int (Unassigned (PointedTo mcs1))
                  < 2 ^ 31"
      by (simp add: n_def)
    from TArray_at_Inr [OF comp] True nn
    have up: "mset (AssignedIds (PointedTo mcs1)) = add_mset n (mset (AssignedIds (PointedTo mcs)))"
      unfolding mcs1_def by (intro AssignedIds_update) simp_all
    from Cons.IH [OF rest n0 room]
    have ih: "mset (AssignedIds (PointedTo mcs')) =
           mset (AssignedIds (PointedTo mcs1)) + mset [n + 1..NextVisibilityId s' - 1]"
      "n + 1 \<le> NextVisibilityId s'"
      "d' = ((d \<or> bp) \<or> (bp \<and> n + 1 < NextVisibilityId s'))"
      "NextVisibilityId s' + int (Unassigned (PointedTo mcs')) =
         n + 1 + int (Unassigned (PointedTo mcs1))"
      by simp_all
    from ih(2) have "[n..NextVisibilityId s' - 1] = n # [n + 1..NextVisibilityId s' - 1]"
      by (intro upto_from) simp
    moreover from ih(4) un
    have "NextVisibilityId s' + int (Unassigned (PointedTo mcs')) =
            n + int (Unassigned (PointedTo mcs))"
      by simp
    ultimately show ?thesis
      using ih(1,2,3) up unfolding n_def [symmetric] by auto
  qed
qed

lemma AddBSPNodeGroups_ids:
  assumes "AddBSPNodeGroups dbg bp b nodes gs (mcs, s, d) = Inr (mcs', s', d')"
      and "0 \<le> NextVisibilityId s"
      and "NextVisibilityId s + int (Unassigned (PointedTo mcs)) < 2 ^ 31"
  shows "mset (AssignedIds (PointedTo mcs')) =
           mset (AssignedIds (PointedTo mcs)) + mset [NextVisibilityId s..NextVisibilityId s' - 1]
       \<and> NextVisibilityId s \<le> NextVisibilityId s'
       \<and> d' = (d \<or> (bp \<and> NextVisibilityId s < NextVisibilityId s'))
       \<and> NextVisibilityId s' + int (Unassigned (PointedTo mcs')) =
           NextVisibilityId s + int (Unassigned (PointedTo mcs))"
  using assms
proof (induction gs arbitrary: mcs s d)
  case Nil
  then show ?case by simp
next
  case (Cons g gs)
  obtain k og where g: "g = (k, og)" by (cases g)
  show ?case
  proof (cases og)
    case None
    with Cons.prems g show ?thesis by simp
  next
    case (Some NodeGroup)
    show ?thesis
    proof (cases "GroupNodes NodeGroup = []")
      case True
      with Cons.prems g Some have "AddBSPNodeGroups dbg bp b nodes gs (mcs, s, d) = Inr (mcs', s', d')"
        by simp
      from Cons.IH [OF this Cons.prems(2,3)] show ?thesis .
    next
      case False
      with Cons.prems g Some obtain mcs1 s1 d1 ids1 where
        loop: "BSPNodeLoop bp nodes (GroupNodes NodeGroup) (mcs, s, d, []) = Inr (mcs1, s1, d1, ids1)"
        and rest: "AddBSPNodeGroups dbg bp b nodes gs
                     (mcs1, AddSurfaceStaticLighting dbg b (Some ids1) (GroupTexelCount NodeGroup) s1, d1)
                   = Inr (mcs', s', d')"
        by (auto split: sum.splits option.splits)
      define s2 where "s2 = AddSurfaceStaticLighting dbg b (Some ids1) (GroupTexelCount NodeGroup) s1"
      have n2: "NextVisibilityId s2 = NextVisibilityId s1"
        using AddSurfaceStaticLighting_lists [of dbg b "Some ids1" "GroupTexelCount NodeGroup" s1]
        by (simp add: s2_def)
      from BSPNodeLoop_ids [OF loop Cons.prems(2,3)]
      have l: "mset (AssignedIds (PointedTo mcs1)) =
           mset (AssignedIds (PointedTo mcs)) + mset [NextVisibilityId s..NextVisibilityId s1 - 1]"
        "NextVisibilityId s \<le> NextVisibilityId s1"
        "d1 = (d \<or> (bp \<and> NextVisibilityId s < NextVisibilityId s1))"
        "NextVisibilityId s1 + int (Unassigned (PointedTo mcs1)) =
           NextVisibilityId s + int (Unassigned (PointedTo mcs))"
        by simp_all
      from l(2) Cons.prems(2) n2 have "0 \<le> NextVisibilityId s2" by simp
      moreover from l(4) Cons.prems(3) n2
      have "NextVisibilityId s2 + int (Unassigned (PointedTo mcs1)) < 2 ^ 31" by simp
      ultimately have "mset (AssignedIds (PointedTo mcs')) =
           mset (AssignedIds (PointedTo mcs1)) + mset [NextVisibilityId s2..NextVisibilityId s' - 1]
       \<and> NextVisibilityId s2 \<le> NextVisibilityId s'
       \<and> d' = (d1 \<or> (bp \<and> NextVisibilityId s2 < NextVisibilityId s'))
       \<and> NextVisibilityId s' + int (Unassigned (PointedTo mcs')) =
           NextVisibilityId s2 + int (Unassigned (PointedTo mcs1))"
        by (rule Cons.IH [OF rest [folded s2_def]])
      with n2
      have r: "mset (AssignedIds (PointedTo mcs')) =
           mset (AssignedIds (PointedTo mcs1)) + mset [NextVisibilityId s1..NextVisibilityId s' - 1]"
        "NextVisibilityId s1 \<le> NextVisibilityId s'"
        "d' = (d1 \<or> (bp \<and> NextVisibilityId s1 < NextVisibilityId s'))"
        "NextVisibilityId s' + int (Unassigned (PointedTo mcs')) =
           NextVisibilityId s1 + int (Unassigned (PointedTo mcs1))"
        by simp_all
      have "mset [NextVisibilityId s..NextVisibilityId s1 - 1]
            + mset [NextVisibilityId s1..NextVisibilityId s' - 1]
            = mset [NextVisibilityId s..NextVisibilityId s' - 1]"
        using upto_append [OF l(2) r(2)] by (metis mset_append)
      with l r show ?thesis by (auto simp add: add.assoc)
    qed
  qed
qed

lemma AddBSPStaticLightingInfoGroups_NextVisibilityId:
  "AddBSPStaticLightingInfoGroups dbg Level gs s = Inr s'
   \<Longrightarrow> NextVisibilityId s' = NextVisibilityId s"
proof (induction gs arbitrary: s)
  case Nil
  then show ?case by simp
next
  case (Cons g gs)
  show ?case
  proof (cases g)
    case None
    with Cons show ?thesis by simp
  next
    case (Some NodeGroup)
    have "NextVisibilityId (AddSurfaceStaticLighting dbg True None (GroupTexelCount NodeGroup) s)
            = NextVisibilityId s"
      using AddSurfaceStaticLighting_lists [of dbg True None "GroupTexelCount NodeGroup" s]
      by simp
    with Cons Some show ?thesis
      by (auto split: sum.splits option.splits if_splits)
  qed
qed

lemma GatherLevelBSP_ids:
  assumes "GatherLevelBSP dbg bp bf Level s = Inr (Level', s')"
      and "0 \<le> NextVisibilityId s"
      and "NextVisibilityId s + int (Unassigned (PointedTo (ModelComponents Level))) < 2 ^ 31"
  shows "Actors Level' = Actors Level
       \<and> bShouldBuildLightingForLevel Level' = bShouldBuildLightingForLevel Level
       \<and> mset (AssignedIds (PointedTo (ModelComponents Level'))) =
           mset (AssignedIds (PointedTo (ModelComponents Level)))
           + mset [NextVisibilityId s..NextVisibilityId s' - 1]
       \<and> NextVisibilityId s \<le> NextVisibilityId s'
       \<and> bPackageDirty Level' =
           (bPackageDirty Level \<or> (bp \<and> NextVisibilityId s < NextVisibilityId s'))
       \<and> NextVisibilityId s' + int (Unassigned (PointedTo (ModelComponents Level'))) =
           NextVisibilityId s + int (Unassigned (PointedTo (ModelComponents Level)))"
proof -
  from GatherLevelBSP_cases [OF assms(1)]
  consider
    (whole) "AddBSPStaticLightingInfo dbg bp Level True s = Inr (Level', s')"
    | (groups) gs where "AddBSPStaticLightingInfoGroups dbg Level gs s = Inr s'" "Level' = Level"
    | (none) "Level' = Level" "s' = s"
    by blast
  then show ?thesis
  proof cases
    case whole
    then obtain mcs d where
      g: "AddBSPNodeGroups dbg bp True (Model Level) (NodeGroups (Model Level))
            (ModelComponents Level, s, False) = Inr (mcs, s', d)"
      and l: "Level' = (if d then MarkPackageDirty else id) (Level\<lparr>ModelComponents := mcs\<rparr>)"
      by (auto simp add: AddBSPStaticLightingInfo_def split: sum.splits)
    from AddBSPNodeGroups_ids [OF g assms(2,3)] l show ?thesis
      by (auto simp add: MarkPackageDirty_def)
  next
    case groups
    from AddBSPStaticLightingInfoGroups_NextVisibilityId [OF groups(1)] groups(2)
    show ?thesis by simp
  next
    case none
    then show ?thesis by simp
  qed
qed


lemma GatherLevel_ids:
  assumes "GatherLevel dbg bp bf Level s = Inr (Level', s')"
      and "\<forall>c \<in> set (LevelComponents Level). VisibilityId c = INDEX_NONE"
      and "0 \<le> NextVisibilityId s"
      and "NextVisibilityId s + int (length (LevelComponents Level)) < 2 ^ 31"
  shows "list_all2 (Gathered bf) (ActorComponents Level) (ActorComponents Level')
       \<and> (\<exists>a. NextVisibilityId s \<le> a \<and> a \<le> NextVisibilityId s'
              \<and> AssignedIds (ActorComponents Level') = [a..NextVisibilityId s' - 1])
       \<and> mset (AssignedIds (LevelComponents Level')) =
           mset [NextVisibilityId s..NextVisibilityId s' - 1]
       \<and> NextVisibilityId s \<le> NextVisibilityId s'
       \<and> bPackageDirty Level' =
           (bPackageDirty Level \<or> (bp \<and> NextVisibilityId s < NextVisibilityId s'))
       \<and> NextVisibilityId s' \<le> NextVisibilityId s + int (length (LevelComponents Level))"
proof -
  from assms(1) obtain Level1 s1 as1 dm where
    b: "GatherLevelBSP dbg bp bf Level s = Inr (Level1, s1)"
    and a: "GatherActors dbg bp bf (bShouldBuildLightingForLevel Level1) (Actors Level1) (s1, False)
              = Inr (as1, s', dm)"
    and l: "Level' = (if dm then MarkPackageDirty else id) (Level1\<lparr>Actors := as1\<rparr>)"
    by (auto simp add: GatherLevel_def split: sum.splits)
  from assms(2) have nm: "AssignedIds (PointedTo (ModelComponents Level)) = []"
    and na: "\<forall>c \<in> set (concat (map Components (PointedTo (Actors Level)))). VisibilityId c = INDEX_NONE"
    by (auto simp add: LevelComponents_def ActorComponents_def AssignedIds_empty_iff)
  define na where "na = length (concat (map Components (PointedTo (Actors Level))))"
  define nm where "nm = length (PointedTo (ModelComponents Level))"
  from assms(4) have total: "NextVisibilityId s + int nm + int na < 2 ^ 31"
    by (simp add: LevelComponents_def ActorComponents_def na_def nm_def)
  have "Unassigned (PointedTo (ModelComponents Level)) \<le> nm"
    unfolding nm_def by (rule Unassigned_le)
  with total have "NextVisibilityId s + int (Unassigned (PointedTo (ModelComponents Level))) < 2 ^ 31"
    and more: "NextVisibilityId s + int (Unassigned (PointedTo (ModelComponents Level))) + int na < 2 ^ 31"
    by simp_all
  from GatherLevelBSP_ids [OF b assms(3) this(1)] nm
  have bsp: "Actors Level1 = Actors Level"
    "mset (AssignedIds (PointedTo (ModelComponents Level1))) =
       mset [NextVisibilityId s..NextVisibilityId s1 - 1]"
    "NextVisibilityId s \<le> NextVisibilityId s1"
    "bPackageDirty Level1 = (bPackageDirty Level \<or> (bp \<and> NextVisibilityId s < NextVisibilityId s1))"
    "NextVisibilityId s1 + int (Unassigned (PointedTo (ModelComponents Level1))) =
       NextVisibilityId s + int (Unassigned (PointedTo (ModelComponents Level)))"
    by simp_all
  from bsp(3) assms(3) have n1: "0 \<le> NextVisibilityId s1" by simp
  from bsp(5) more have room: "NextVisibilityId s1 + int na < 2 ^ 31" by simp
  from bsp(5) have first: "NextVisibilityId s1 \<le> NextVisibilityId s + int nm"
    using \<open>Unassigned (PointedTo (ModelComponents Level)) \<le> nm\<close> by simp
  from GatherActors_ids [OF a [unfolded bsp(1)] na n1 room [unfolded na_def]]
  have act: "list_all2 (Gathered bf) (concat (map Components (PointedTo (Actors Level))))
               (concat (map Components (PointedTo as1)))"
    "AssignedIds (concat (map Components (PointedTo as1))) =
       [NextVisibilityId s1..NextVisibilityId s' - 1]"
    "NextVisibilityId s1 \<le> NextVisibilityId s'"
    "dm = (bp \<and> NextVisibilityId s1 < NextVisibilityId s')"
    by simp_all
  have ac: "ActorComponents Level' = concat (map Components (PointedTo as1))"
    and mc: "ModelComponents Level' = ModelComponents Level1"
    and dirty: "bPackageDirty Level' = (bPackageDirty Level1 \<or> dm)"
    using l by (simp_all add: ActorComponents_def MarkPackageDirty_def)
  have "mset [NextVisibilityId s1..NextVisibilityId s' - 1]
        + mset [NextVisibilityId s..NextVisibilityId s1 - 1]
        = mset [NextVisibilityId s..NextVisibilityId s' - 1]"
    using upto_append [OF bsp(3) act(3)] by (metis mset_append add.commute)
  then have all: "mset (AssignedIds (LevelComponents Level')) =
           mset [NextVisibilityId s..NextVisibilityId s' - 1]"
    using ac mc act(2) bsp(2) by (simp add: LevelComponents_def)
  have one: "list_all2 (Gathered bf) (ActorComponents Level) (ActorComponents Level')"
    using act(1) ac by (simp add: ActorComponents_def)
  have two: "\<exists>a. NextVisibilityId s \<le> a \<and> a \<le> NextVisibilityId s'
              \<and> AssignedIds (ActorComponents Level') = [a..NextVisibilityId s' - 1]"
    using ac act(2,3) bsp(3) by auto
  from act(1) have "length (concat (map Components (PointedTo as1))) =
                      length (concat (map Components (PointedTo (Actors Level))))"
    by (simp add: list_all2_lengthD)
  from counter_bound [OF act(2) this] first
  have "NextVisibilityId s' \<le> NextVisibilityId s + int nm + int na" by (simp add: na_def)
  then have three: "NextVisibilityId s' \<le> NextVisibilityId s + int (length (LevelComponents Level))"
    by (simp add: LevelComponents_def ActorComponents_def na_def nm_def)
  from one two all bsp(3,4) act(3,4) dirty three show ?thesis by auto
qed

text \<open>A level before the build, and the same level after it.\<close>

definition LevelGathered :: "bool \<Rightarrow> bool \<Rightarrow> ULevel \<Rightarrow> ULevel \<Rightarrow> bool" where
  "LevelGathered bPrecompute bForceNoPrecomputed Level Level' =
     (list_all2 (Gathered bForceNoPrecomputed) (ActorComponents Level) (ActorComponents Level')
      \<and> (bPackageDirty Level' =
           (bPackageDirty Level
            \<or> (bPrecompute \<and> (\<exists>c \<in> set (LevelComponents Level'). VisibilityId c \<noteq> INDEX_NONE)))))"

lemma upto_empty_iff: "([n..m - 1] = []) = (\<not> (n::int) < m)"
  by auto

lemma GatherLevels_ids:
  assumes "GatherLevels dbg bp bf ls s = Inr (ls', s')"
      and "\<forall>Level \<in> set ls. \<forall>c \<in> set (LevelComponents Level). VisibilityId c = INDEX_NONE"
      and "0 \<le> NextVisibilityId s"
      and "NextVisibilityId s + int (length (concat (map LevelComponents ls))) < 2 ^ 31"
  shows "list_all2 (LevelGathered bp bf) ls ls'
       \<and> mset (AssignedIds (concat (map LevelComponents ls'))) =
           mset [NextVisibilityId s..NextVisibilityId s' - 1]
       \<and> sorted_wrt (<) (AssignedIds (concat (map ActorComponents ls')))
       \<and> (\<forall>i \<in> set (AssignedIds (concat (map ActorComponents ls'))). NextVisibilityId s \<le> i)
       \<and> NextVisibilityId s \<le> NextVisibilityId s'"
  using assms
proof (induction ls arbitrary: s ls' s')
  case Nil
  then show ?case by simp
next
  case (Cons Level ls)
  from Cons.prems(1) obtain Level1 s1 ls1 where
    one: "GatherLevel dbg bp bf Level s = Inr (Level1, s1)"
    and rest: "GatherLevels dbg bp bf ls s1 = Inr (ls1, s')"
    and l: "ls' = Level1 # ls1"
    by (auto split: sum.splits)
  from Cons.prems(2) have n1: "\<forall>c \<in> set (LevelComponents Level). VisibilityId c = INDEX_NONE"
    and n2: "\<forall>Level \<in> set ls. \<forall>c \<in> set (LevelComponents Level). VisibilityId c = INDEX_NONE"
    by simp_all
  from Cons.prems(4)
  have total: "NextVisibilityId s + int (length (LevelComponents Level))
                 + int (length (concat (map LevelComponents ls))) < 2 ^ 31"
    by simp
  then have "NextVisibilityId s + int (length (LevelComponents Level)) < 2 ^ 31" by simp
  from GatherLevel_ids [OF one n1 Cons.prems(3) this] obtain a where
    g: "list_all2 (Gathered bf) (ActorComponents Level) (ActorComponents Level1)"
    "NextVisibilityId s \<le> a" "a \<le> NextVisibilityId s1"
    "AssignedIds (ActorComponents Level1) = [a..NextVisibilityId s1 - 1]"
    "mset (AssignedIds (LevelComponents Level1)) = mset [NextVisibilityId s..NextVisibilityId s1 - 1]"
    "NextVisibilityId s \<le> NextVisibilityId s1"
    "bPackageDirty Level1 = (bPackageDirty Level \<or> (bp \<and> NextVisibilityId s < NextVisibilityId s1))"
    "NextVisibilityId s1 \<le> NextVisibilityId s + int (length (LevelComponents Level))"
    by blast
  from g(6) Cons.prems(3) have "0 \<le> NextVisibilityId s1" by simp
  moreover from g(8) total
  have "NextVisibilityId s1 + int (length (concat (map LevelComponents ls))) < 2 ^ 31" by simp
  ultimately have "list_all2 (LevelGathered bp bf) ls ls1
       \<and> mset (AssignedIds (concat (map LevelComponents ls1))) =
           mset [NextVisibilityId s1..NextVisibilityId s' - 1]
       \<and> sorted_wrt (<) (AssignedIds (concat (map ActorComponents ls1)))
       \<and> (\<forall>i \<in> set (AssignedIds (concat (map ActorComponents ls1))). NextVisibilityId s1 \<le> i)
       \<and> NextVisibilityId s1 \<le> NextVisibilityId s'"
    by (rule Cons.IH [OF rest n2])
  then
  have ih: "list_all2 (LevelGathered bp bf) ls ls1"
    "mset (AssignedIds (concat (map LevelComponents ls1))) =
       mset [NextVisibilityId s1..NextVisibilityId s' - 1]"
    "sorted_wrt (<) (AssignedIds (concat (map ActorComponents ls1)))"
    "\<forall>i \<in> set (AssignedIds (concat (map ActorComponents ls1))). NextVisibilityId s1 \<le> i"
    "NextVisibilityId s1 \<le> NextVisibilityId s'"
    by simp_all
  have "(\<exists>c \<in> set (LevelComponents Level1). VisibilityId c \<noteq> INDEX_NONE)
          = (AssignedIds (LevelComponents Level1) \<noteq> [])"
    by (simp add: AssignedIds_empty_iff)
  also have "\<dots> = (mset (AssignedIds (LevelComponents Level1)) \<noteq> {#})"
    by simp
  also have "\<dots> = (NextVisibilityId s < NextVisibilityId s1)"
    unfolding g(5) by auto
  finally have "LevelGathered bp bf Level Level1"
    using g(1,7) by (simp add: LevelGathered_def)
  with ih(1) l have A: "list_all2 (LevelGathered bp bf) (Level # ls) ls'" by simp
  have "mset [NextVisibilityId s..NextVisibilityId s1 - 1]
        + mset [NextVisibilityId s1..NextVisibilityId s' - 1]
        = mset [NextVisibilityId s..NextVisibilityId s' - 1]"
    using upto_append [OF g(6) ih(5)] by (metis mset_append)
  with g(5) ih(2) l have B: "mset (AssignedIds (concat (map LevelComponents ls'))) =
           mset [NextVisibilityId s..NextVisibilityId s' - 1]"
    by simp
  have "sorted_wrt (<) [a..NextVisibilityId s1 - 1]"
    by (simp add: strict_sorted_iff)
  with g(2,4) ih(3,4) l have C: "sorted_wrt (<) (AssignedIds (concat (map ActorComponents ls')))"
    and D: "\<forall>i \<in> set (AssignedIds (concat (map ActorComponents ls'))). NextVisibilityId s \<le> i"
    using g(6) by (auto simp add: sorted_wrt_append)
  from A B C D g(6) ih(5) show ?case by simp
qed


lemma NextVisibilityId_AddSortedMappings [simp]:
  "NextVisibilityId (AddSortedMappings hs s) = NextVisibilityId s"
  by (induction hs arbitrary: s) (simp_all add: Let_def split: option.splits)

lemma NextVisibilityId_SortMappings [simp]:
  "NextVisibilityId (SortMappings dbg s) = NextVisibilityId s"
  by (simp add: SortMappings_def)

lemma ActorComponents_ResetLevel:
  "ActorComponents (ResetLevel Level) = map ResetComponent (ActorComponents Level)"
  by (simp add: ActorComponents_def ResetLevel_def ResetActor_def PointedTo_map_option
      map_concat o_def)

lemma length_LevelComponents_ResetLevel:
  "length (LevelComponents (ResetLevel Level)) = length (LevelComponents Level)"
  by (simp add: LevelComponents_def ActorComponents_ResetLevel)
     (simp add: ResetLevel_def PointedTo_map_option)

lemma LevelGathered_reset [simp]:
  "LevelGathered bp bf (ResetLevel Level) Level' = LevelGathered bp bf Level Level'"
  by (simp add: LevelGathered_def ActorComponents_ResetLevel list_all2_map1)
     (simp add: ResetLevel_def)

text \<open>
  A world whose only component is a model component of a level without actors. The
  component is registered and movable, and a query would give it no mesh; one BSP node
  of the level lies on it.
\<close>

definition BSPOnlyWorld :: UWorld where
  "BSPOnlyWorld =
    \<lparr>Levels =
      [\<lparr>Actors = [],
        ModelComponents =
          [Some \<lparr>VisibilityId = INDEX_NONE, bRegistered = True, Mobility = Movable,
                 bStaticLightingBuildEnqueued = False,
                 StaticLightingInfo =
                   \<lparr>InfoVisibilityId = INDEX_NONE, InfoMeshes = [], InfoMappings = []\<rparr>\<rparr>],
        Model =
          \<lparr>Nodes = [\<lparr>iSurf = 0, iVertPool = 0, NumVertices = 3, ComponentIndex = 0\<rparr>],
           Surfs = [\<lparr>pBase = 0, vTextureU = 0, vTextureV = 1, vNormal = 2\<rparr>],
           Points = [FVector, FVector, FVector],
           Vectors = [FVector, FVector, FVector],
           Verts = [\<lparr>pVertex = 0\<rparr>, \<lparr>pVertex = 1\<rparr>, \<lparr>pVertex = 2\<rparr>],
           NodeGroups = [(0, Some \<lparr>GroupNodes = [0], GroupTexelCount = 32\<rparr>)]\<rparr>,
        SelectedSurfaceIndices = [],
        bShouldBuildLightingForLevel = True,
        bPackageDirty = False\<rparr>],
     OtherPrimitiveComponents = [],
     bPrecomputeVisibility = True,
     bForceNoPrecomputedLighting = False\<rparr>"

definition BSPOnlyBuild :: "error + bool \<times> FStaticLightingSystem \<times> FEditor" where
  "BSPOnlyBuild =
     BeginLightmassProcess ExampleExternal
       (NewStaticLightingSystem ExampleExternal ExampleOptions)
       (IdleEditor\<lparr>GWorld := BSPOnlyWorld\<rparr>)"

lemma BSPOnlyBuild_evaluated:
  "\<exists>s e'. BSPOnlyBuild = Inr (True, s, e')
     \<and> map VisibilityId (AllPrimitiveComponents (GWorld e')) = [0]
     \<and> map bPackageDirty (Levels (GWorld e')) = [True]"
  by (simp add: BSPOnlyBuild_def BSPOnlyWorld_def
      ExampleExternal_def ExampleOptions_def IdleEditor_def
      NewStaticLightingSystem_def BeginLightmassProcess_def GatherStaticLightingInfo_def
      GatherLevel_def GatherLevelBSP_def AddBSPStaticLightingInfo_def
      AddSurfaceStaticLighting_def AddPrimitiveStaticLightingInfo_def ResetVisibilityIds_def
      ResetLevel_def ResetActor_def ResetComponent_def INDEX_NONE_def TArray_at_def
      AddUnique_def AssignDeterministicGuid_def AddVisibilityId_def MakeGuid_def
      CacheNodeVertices_def int32_def upt_0_3
      SortMappings_def FCompareNumTexels_def MarkPackageDirty_def CreateLightmassProcessor_def
      InitiateLightmassProcessor_def Call_def Let_def AllPrimitiveComponents_def
      LevelComponents_def ActorComponents_def)

text \<open>
  Claim C8, as stated, fails. In \<open>BSPOnlyWorld\<close> the one component is registered, is not
  static and has no mesh, so the condition of the claim does not hold for it; the level
  is not dirty and the world precomputes visibility. The build returns; afterwards the
  component has the visibility id 0, the first value of the counter, and the level is
  dirty. The id comes from the whole-level BSP pass (lines 1407 to 1418), which gives
  an id to every model component without one that a node lies on, and asks neither for
  meshes nor for the mobility.
\<close>

theorem model_component_gets_visibility_id_counterexample:
  "map bRegistered (AllPrimitiveComponents BSPOnlyWorld) = [True]
   \<and> map Mobility (AllPrimitiveComponents BSPOnlyWorld) = [Movable]
   \<and> map (InfoMeshes \<circ> StaticLightingInfo) (AllPrimitiveComponents BSPOnlyWorld) = [[]]
   \<and> map (GetsVisibilityId False) (AllPrimitiveComponents BSPOnlyWorld) = [False]
   \<and> map bPackageDirty (Levels BSPOnlyWorld) = [False]
   \<and> bPrecomputeVisibility BSPOnlyWorld
   \<and> \<not> isl BSPOnlyBuild
   \<and> map VisibilityId (AllPrimitiveComponents (GWorld (snd (snd (projr BSPOnlyBuild))))) = [0]
   \<and> map bPackageDirty (Levels (GWorld (snd (snd (projr BSPOnlyBuild))))) = [True]"
proof -
  from BSPOnlyBuild_evaluated obtain s e' where
    build: "BSPOnlyBuild = Inr (True, s, e')"
    and after: "map VisibilityId (AllPrimitiveComponents (GWorld e')) = [0]"
    "map bPackageDirty (Levels (GWorld e')) = [True]"
    by (elim exE conjE) (rule that)
  have before: "map bRegistered (AllPrimitiveComponents BSPOnlyWorld) = [True]
   \<and> map Mobility (AllPrimitiveComponents BSPOnlyWorld) = [Movable]
   \<and> map (InfoMeshes \<circ> StaticLightingInfo) (AllPrimitiveComponents BSPOnlyWorld) = [[]]
   \<and> map (GetsVisibilityId False) (AllPrimitiveComponents BSPOnlyWorld) = [False]
   \<and> map bPackageDirty (Levels BSPOnlyWorld) = [False]
   \<and> bPrecomputeVisibility BSPOnlyWorld"
    by (simp add: BSPOnlyWorld_def AllPrimitiveComponents_def LevelComponents_def
        ActorComponents_def GetsVisibilityId_def)
  have "\<not> isl BSPOnlyBuild
   \<and> map VisibilityId (AllPrimitiveComponents (GWorld (snd (snd (projr BSPOnlyBuild))))) = [0]
   \<and> map bPackageDirty (Levels (GWorld (snd (snd (projr BSPOnlyBuild))))) = [True]"
    unfolding build using after by simp
  with before show ?thesis by (simp only: simp_thms)
qed

text \<open>
  Claim C8, amended. After \<open>BeginLightmassProcess\<close> on a new system, in a world whose
  levels hold fewer than \<open>2 ^ 31\<close> components (the counter is an \<^verbatim>\<open>int32\<close> and does not
  wrap around), level by level and component by component: a component of an actor has a
  visibility id exactly if it was queried (it is registered and precomputed lighting is
  not forced off), its static lighting info has at least one mesh and its mobility is
  static; the ids of the actors' components increase in the order of the gather; the ids
  of all the components, those of the BSP model components included, are pairwise
  different and are exactly the counter values 0, ..., \<open>NextVisibilityId\<close> - 1; and a
  level is dirty afterwards exactly if it was dirty before, or the world precomputes
  visibility and a component of the level (of an actor, or a BSP model component) was
  given an id.
\<close>

theorem visibility_ids_of_a_build:
  assumes "BeginLightmassProcess x (NewStaticLightingSystem x InOptions) e = Inr (ok, s', e')"
      and "int (length (concat (map LevelComponents (Levels (GWorld e))))) < 2 ^ 31"
  shows "list_all2
           (LevelGathered (bPrecomputeVisibility (GWorld e))
              (bForceNoPrecomputedLighting (GWorld e) \<or> \<not> bAllowStaticLighting x))
           (Levels (GWorld e)) (Levels (GWorld e'))
       \<and> sorted_wrt (<) (AssignedIds (concat (map ActorComponents (Levels (GWorld e')))))
       \<and> distinct (AssignedIds (AllPrimitiveComponents (GWorld e')))
       \<and> set (AssignedIds (AllPrimitiveComponents (GWorld e'))) = {0..<NextVisibilityId s'}"
proof -
  define bf where "bf = (bForceNoPrecomputedLighting (GWorld e) \<or> \<not> bAllowStaticLighting x)"
  define bp where "bp = bPrecomputeVisibility (GWorld e)"
  define s0 where "s0 = (NewStaticLightingSystem x InOptions)\<lparr>CurrentBuildStage := Startup\<rparr>"
  have n0: "NextVisibilityId s0 = 0"
    by (simp add: s0_def NewStaticLightingSystem_def)
  from BeginLightmassProcess_collect [OF assms(1)] obtain s1 where
    g: "GatherStaticLightingInfo (GLightmassDebugOptions x) bf (ResetVisibilityIds (GWorld e)) s0
          = Inr (GWorld e', s1)"
    and same: "SameScene (SortMappings (GLightmassDebugOptions x) s1) s'"
    unfolding bf_def s0_def by blast
  from same have n': "NextVisibilityId s' = NextVisibilityId s1"
    by (simp add: SameScene_def)
  from g obtain ls where
    gl: "GatherLevels (GLightmassDebugOptions x) bp bf (map ResetLevel (Levels (GWorld e))) s0
           = Inr (ls, s1)"
    and w: "GWorld e' = (ResetVisibilityIds (GWorld e))\<lparr>Levels := ls\<rparr>"
    by (auto simp add: GatherStaticLightingInfo_def ResetVisibilityIds_def bp_def
        split: sum.splits)
  have nones: "\<forall>Level \<in> set (map ResetLevel (Levels (GWorld e))).
                 \<forall>c \<in> set (LevelComponents Level). VisibilityId c = INDEX_NONE"
  proof (intro ballI)
    fix Level c
    assume "Level \<in> set (map ResetLevel (Levels (GWorld e)))" and "c \<in> set (LevelComponents Level)"
    then have "c \<in> set (AllPrimitiveComponents (ResetVisibilityIds (GWorld e)))"
      by (auto simp add: AllPrimitiveComponents_def ResetVisibilityIds_def)
    then show "VisibilityId c = INDEX_NONE" by (rule VisibilityId_Reset)
  qed
  have "length (concat (map LevelComponents (map ResetLevel (Levels (GWorld e))))) =
          length (concat (map LevelComponents (Levels (GWorld e))))"
    by (simp add: length_concat o_def length_LevelComponents_ResetLevel)
  with assms(2) n0
  have room: "NextVisibilityId s0
                + int (length (concat (map LevelComponents (map ResetLevel (Levels (GWorld e))))))
                < 2 ^ 31"
    by simp
  from n0 have "0 \<le> NextVisibilityId s0" by simp
  from GatherLevels_ids [OF gl nones this room] n0 n'
  have r: "list_all2 (LevelGathered bp bf) (map ResetLevel (Levels (GWorld e))) ls"
    "mset (AssignedIds (concat (map LevelComponents ls))) = mset [0..NextVisibilityId s' - 1]"
    "sorted_wrt (<) (AssignedIds (concat (map ActorComponents ls)))"
    by simp_all
  have other: "AssignedIds (OtherPrimitiveComponents (GWorld e')) = []"
    using w by (simp add: AssignedIds_empty_iff ResetVisibilityIds_def ResetComponent_def)
  have all: "AssignedIds (AllPrimitiveComponents (GWorld e')) =
               AssignedIds (concat (map LevelComponents ls))"
    using w other by (simp add: AllPrimitiveComponents_def)
  have A: "list_all2 (LevelGathered bp bf) (Levels (GWorld e)) (Levels (GWorld e'))"
    using r(1) w by (simp add: list_all2_map1)
  have B: "sorted_wrt (<) (AssignedIds (concat (map ActorComponents (Levels (GWorld e')))))"
    using r(3) w by simp
  have C: "distinct (AssignedIds (AllPrimitiveComponents (GWorld e')))"
    unfolding all mset_eq_imp_distinct_iff [OF r(2)] by simp
  from r(2) have "set_mset (mset (AssignedIds (concat (map LevelComponents ls)))) =
                   set_mset (mset [0..NextVisibilityId s' - 1])"
    by (rule arg_cong)
  then have "set (AssignedIds (concat (map LevelComponents ls))) = {0..NextVisibilityId s' - 1}"
    by simp
  also have "\<dots> = {0..<NextVisibilityId s'}"
    by (rule set_eqI) simp
  finally have D: "set (AssignedIds (AllPrimitiveComponents (GWorld e'))) = {0..<NextVisibilityId s'}"
    unfolding all .
  from A B C D show ?thesis unfolding bf_def bp_def by (intro conjI)
qed

theorem visibility_ids_of_a_build_witness:
  "\<exists>s e'. BeginLightmassProcess ExampleExternal
             (NewStaticLightingSystem ExampleExternal ExampleOptions) IdleEditor = Inr (True, s, e')
     \<and> map VisibilityId (AllPrimitiveComponents (GWorld e')) = [1, INDEX_NONE, 0, 2, INDEX_NONE]
     \<and> map (GetsVisibilityId False) (concat (map ActorComponents (Levels ExampleWorld)))
         = [True, False, True]
     \<and> list_all2 (LevelGathered True False) (Levels ExampleWorld) (Levels (GWorld e'))
     \<and> distinct (AssignedIds (AllPrimitiveComponents (GWorld e')))
     \<and> set (AssignedIds (AllPrimitiveComponents (GWorld e'))) = {0..<3}"
proof -
  from ExampleBuild obtain s e' where
    ex: "BeginLightmassProcess ExampleExternal
          (NewStaticLightingSystem ExampleExternal ExampleOptions) IdleEditor = Inr (True, s, e')
     \<and> Meshes s = [BSPSurface 0, ComponentMesh 0, ComponentMesh 1, ComponentMesh 2]
     \<and> map Mesh (Mappings s) =
         [Some (ComponentMesh 2), Some (ComponentMesh 1), Some (BSPSurface 0), Some (ComponentMesh 0)]
     \<and> map bProcessMapping (Mappings s) = [False, True, True, True]
     \<and> map (\<lambda>m. GuidD (Guid (MeshObjects s m))) [ComponentMesh 1, BSPSurface 0, ComponentMesh 0]
         = [0, 1, 2]
     \<and> NextVisibilityId s = 3
     \<and> map VisibilityId (AllPrimitiveComponents (GWorld e')) = [1, INDEX_NONE, 0, 2, INDEX_NONE]
     \<and> map bPackageDirty (Levels (GWorld e')) = [True, True]"
    by (elim exE) (rule that)
  then have
    b: "BeginLightmassProcess ExampleExternal
          (NewStaticLightingSystem ExampleExternal ExampleOptions) IdleEditor = Inr (True, s, e')"
    and v: "map VisibilityId (AllPrimitiveComponents (GWorld e')) = [1, INDEX_NONE, 0, 2, INDEX_NONE]"
    and n: "NextVisibilityId s = 3"
    by simp_all
  have q: "map (GetsVisibilityId False) (concat (map ActorComponents (Levels ExampleWorld)))
         = [True, False, True]"
    by (simp add: ExampleWorld_def ActorComponents_def GetsVisibilityId_def)
  have w: "GWorld IdleEditor = ExampleWorld" "bPrecomputeVisibility ExampleWorld"
    "\<not> (bForceNoPrecomputedLighting ExampleWorld \<or> \<not> bAllowStaticLighting ExampleExternal)"
    by (simp_all add: IdleEditor_def ExampleWorld_def ExampleExternal_def)
  have few: "int (length (concat (map LevelComponents (Levels (GWorld IdleEditor))))) < 2 ^ 31"
    by (simp add: IdleEditor_def ExampleWorld_def LevelComponents_def ActorComponents_def)
  have t: "list_all2 (LevelGathered True False) (Levels ExampleWorld) (Levels (GWorld e'))
     \<and> distinct (AssignedIds (AllPrimitiveComponents (GWorld e')))
     \<and> set (AssignedIds (AllPrimitiveComponents (GWorld e'))) = {0..<3}"
    using visibility_ids_of_a_build [OF b few] w n by simp
  show ?thesis
    by (intro exI [of _ s] exI [of _ e']) (simp add: b v q t)
qed


section \<open>Deterministic indices\<close>

definition ProcessedMappings :: "FStaticLightingSystem \<Rightarrow> FStaticLightingMapping list" where
  "ProcessedMappings s = filter bProcessMapping (Mappings s)"

text \<open>\<^verbatim>\<open>Mapping->Mesh->Guid\<close>, when \<^verbatim>\<open>Mapping->Mesh\<close> is not NULL.\<close>

definition MappingGuid :: "FStaticLightingSystem \<Rightarrow> FStaticLightingMapping \<Rightarrow> FGuid option" where
  "MappingGuid s c = map_option (\<lambda>m. Guid (MeshObjects s m)) (Mesh c)"

definition DenseGuids :: "nat \<Rightarrow> FGuid option list" where
  "DenseGuids k = map (\<lambda>i. Some (MakeGuid 0 0 0 (of_nat i))) [0..<k]"

definition DeterministicIds :: "FStaticLightingSystem \<Rightarrow> bool" where
  "DeterministicIds s =
     (map (MappingGuid s) (ProcessedMappings s) = DenseGuids (length (ProcessedMappings s)))"

definition Inv :: "FLightmassDebugOptions \<Rightarrow> FStaticLightingSystem \<Rightarrow> bool" where
  "Inv dbg s =
     (map Mesh (Mappings s @ map Mapping (UnSortedMappings s)) = map Some (Meshes s)
      \<and> distinct (Meshes s)
      \<and> (\<forall>n. BSPSurface n \<in> set (Meshes s) \<longrightarrow> n < NumBSPSurfaces s)
      \<and> (if bSortMappings dbg then Mappings s = [] else UnSortedMappings s = [])
      \<and> DeterministicIndex s = of_nat (length (ProcessedMappings s))
      \<and> DeterministicIds s)"

lemma DenseGuids_add:
  "DenseGuids (k + n) =
     DenseGuids k @ map (\<lambda>i. Some (MakeGuid 0 0 0 (of_nat k + of_nat i))) [0..<n]"
  by (induction n) (simp_all add: DenseGuids_def)

lemma MappingGuid_cong:
  assumes "\<And>c m. c \<in> set cs \<Longrightarrow> Mesh c = Some m
             \<Longrightarrow> Guid (MeshObjects s' m) = Guid (MeshObjects s m)"
  shows "map (MappingGuid s') cs = map (MappingGuid s) cs"
proof (rule map_cong [OF refl])
  fix c
  assume "c \<in> set cs"
  with assms show "MappingGuid s' c = MappingGuid s c"
    by (cases "Mesh c") (simp_all add: MappingGuid_def)
qed

lemma AddPrimitiveMeshes_heap:
  assumes "AddPrimitiveMeshes dbg b v (map Some rs) s = Inr s'" and "distinct rs"
  shows "(\<forall>m. m \<notin> set rs \<longrightarrow> Guid (MeshObjects s' m) = Guid (MeshObjects s m))
       \<and> (if \<not> bSortMappings dbg \<and> b
           then DeterministicIndex s' = DeterministicIndex s + of_nat (length rs)
                \<and> map (\<lambda>r. Guid (MeshObjects s' r)) rs =
                    map (\<lambda>i. MakeGuid 0 0 0 (DeterministicIndex s + of_nat i)) [0..<length rs]
           else DeterministicIndex s' = DeterministicIndex s
                \<and> (\<forall>m. Guid (MeshObjects s' m) = Guid (MeshObjects s m)))"
  using assms
proof (induction rs arbitrary: s)
  case Nil
  then show ?case by simp
next
  case (Cons r rs)
  define s3 where "s3 =
     (let s1 = AddVisibilityId r v s;
          s2 = (if \<not> bSortMappings dbg \<and> b then AssignDeterministicGuid r s1 else s1)
      in s2\<lparr>Meshes := Meshes s2 @ [r]\<rparr>)"
  from Cons.prems(1) have rest: "AddPrimitiveMeshes dbg b v (map Some rs) s3 = Inr s'"
    by (simp add: s3_def Let_def)
  from Cons.prems(2) have d: "distinct rs" and r: "r \<notin> set rs" by simp_all
  note ih = Cons.IH [OF rest d]
  show ?case
  proof (cases "\<not> bSortMappings dbg \<and> b")
    case True
    have g3: "Guid (MeshObjects s3 r) = MakeGuid 0 0 0 (DeterministicIndex s)"
      and o3: "\<And>m. m \<noteq> r \<Longrightarrow> Guid (MeshObjects s3 m) = Guid (MeshObjects s m)"
      and i3: "DeterministicIndex s3 = DeterministicIndex s + 1"
      using True by (simp_all add: s3_def Let_def AssignDeterministicGuid_def AddVisibilityId_def)
    from ih True have
      a: "\<forall>m. m \<notin> set rs \<longrightarrow> Guid (MeshObjects s' m) = Guid (MeshObjects s3 m)"
      and b': "DeterministicIndex s' = DeterministicIndex s3 + of_nat (length rs)"
      and c: "map (\<lambda>r. Guid (MeshObjects s' r)) rs =
                map (\<lambda>i. MakeGuid 0 0 0 (DeterministicIndex s3 + of_nat i)) [0..<length rs]"
      by simp_all
    have m: "map (\<lambda>i. MakeGuid 0 0 0 (DeterministicIndex s + of_nat i)) [0..<length (r # rs)] =
            MakeGuid 0 0 0 (DeterministicIndex s)
            # map (\<lambda>i. MakeGuid 0 0 0 (DeterministicIndex s3 + of_nat i)) [0..<length rs]"
      by (simp add: map_upt_Suc i3 ac_simps del: upt_Suc)
    have one: "\<forall>m. m \<notin> set (r # rs) \<longrightarrow> Guid (MeshObjects s' m) = Guid (MeshObjects s m)"
      using a o3 by simp
    have two: "DeterministicIndex s' = DeterministicIndex s + of_nat (length (r # rs))"
      using b' i3 by (simp add: ac_simps)
    have "Guid (MeshObjects s' r) = MakeGuid 0 0 0 (DeterministicIndex s)"
      using a r g3 by simp
    with c have three: "map (\<lambda>r. Guid (MeshObjects s' r)) (r # rs) =
            map (\<lambda>i. MakeGuid 0 0 0 (DeterministicIndex s + of_nat i)) [0..<length (r # rs)]"
      unfolding m by simp
    from one two three True show ?thesis
      by (simp only: if_True simp_thms)
  next
    case False
    have o3: "\<And>m. Guid (MeshObjects s3 m) = Guid (MeshObjects s m)"
      and i3: "DeterministicIndex s3 = DeterministicIndex s"
      using False by (auto simp add: s3_def Let_def AddVisibilityId_def)
    with ih False show ?thesis by auto
  qed
qed


lemma MappingGuid_paired:
  assumes "map Mesh cs = map Some rs"
  shows "map (MappingGuid s) cs = map (\<lambda>r. Some (Guid (MeshObjects s r))) rs"
proof -
  have "map (MappingGuid s) cs = map (map_option (\<lambda>m. Guid (MeshObjects s m))) (map Mesh cs)"
    by (simp add: MappingGuid_def o_def)
  also have "\<dots> = map (\<lambda>r. Some (Guid (MeshObjects s r))) rs"
    unfolding assms by (simp add: o_def)
  finally show ?thesis .
qed

lemma Processed_mesh:
  assumes "map Mesh (Mappings s @ map Mapping (UnSortedMappings s)) = map Some (Meshes s)"
      and "c \<in> set (ProcessedMappings s)"
  shows "\<exists>m. Mesh c = Some m \<and> m \<in> set (Meshes s)"
proof -
  from assms(2) have "Mesh c \<in> set (map Mesh (Mappings s @ map Mapping (UnSortedMappings s)))"
    by (auto simp add: ProcessedMappings_def)
  then have "Mesh c \<in> set (map Some (Meshes s))"
    unfolding assms(1) .
  then show ?thesis by auto
qed

text \<open>One step of the gather: meshes \<open>rs\<close> and their mappings are added.\<close>

lemma Inv_extend:
  assumes inv: "Inv dbg s"
      and meshes: "Meshes s' = Meshes s @ rs" "distinct rs" "set rs \<inter> set (Meshes s) = {}"
      and num: "\<forall>n. BSPSurface n \<in> set (Meshes s) \<union> set rs \<longrightarrow> n < NumBSPSurfaces s'"
      and old: "\<forall>m. m \<notin> set rs \<longrightarrow> Guid (MeshObjects s' m) = Guid (MeshObjects s m)"
      and sorted_case: "bSortMappings dbg \<Longrightarrow>
            Mappings s' = []
            \<and> map (Mesh \<circ> Mapping) (UnSortedMappings s') =
                map (Mesh \<circ> Mapping) (UnSortedMappings s) @ map Some rs
            \<and> DeterministicIndex s' = DeterministicIndex s"
      and unsorted_case: "\<not> bSortMappings dbg \<Longrightarrow>
            UnSortedMappings s' = [] \<and> Mappings s' = Mappings s @ cs
            \<and> map Mesh cs = map Some rs
            \<and> (if b
                then (\<forall>c \<in> set cs. bProcessMapping c)
                     \<and> DeterministicIndex s' = DeterministicIndex s + of_nat (length rs)
                     \<and> map (\<lambda>r. Guid (MeshObjects s' r)) rs =
                         map (\<lambda>i. MakeGuid 0 0 0 (DeterministicIndex s + of_nat i)) [0..<length rs]
                else (\<forall>c \<in> set cs. \<not> bProcessMapping c)
                     \<and> DeterministicIndex s' = DeterministicIndex s)"
  shows "Inv dbg s'"
proof -
  from inv have
    pair: "map Mesh (Mappings s @ map Mapping (UnSortedMappings s)) = map Some (Meshes s)"
    and dist: "distinct (Meshes s)"
    and mode: "if bSortMappings dbg then Mappings s = [] else UnSortedMappings s = []"
    and idx: "DeterministicIndex s = of_nat (length (ProcessedMappings s))"
    and ids: "map (MappingGuid s) (ProcessedMappings s) = DenseGuids (length (ProcessedMappings s))"
    by (simp_all add: Inv_def DeterministicIds_def)
  have D: "distinct (Meshes s')"
    using dist meshes by auto
  have N: "\<forall>n. BSPSurface n \<in> set (Meshes s') \<longrightarrow> n < NumBSPSurfaces s'"
    using num meshes(1) by auto
  have oldguids: "map (MappingGuid s') (ProcessedMappings s) = map (MappingGuid s) (ProcessedMappings s)"
  proof (rule MappingGuid_cong)
    fix c m
    assume "c \<in> set (ProcessedMappings s)" and m: "Mesh c = Some m"
    from Processed_mesh [OF pair this(1)] m have "m \<in> set (Meshes s)" by auto
    with meshes(3) have "m \<notin> set rs" by auto
    with old show "Guid (MeshObjects s' m) = Guid (MeshObjects s m)" by simp
  qed
  show ?thesis
  proof (cases "bSortMappings dbg")
    case True
    from sorted_case [OF True] have
      m': "Mappings s' = []"
      and u': "map (Mesh \<circ> Mapping) (UnSortedMappings s') =
                 map (Mesh \<circ> Mapping) (UnSortedMappings s) @ map Some rs"
      and i': "DeterministicIndex s' = DeterministicIndex s"
      by simp_all
    from mode True have m0: "Mappings s = []" by simp
    then have p0: "ProcessedMappings s = []" and p': "ProcessedMappings s' = []"
      using m' by (simp_all add: ProcessedMappings_def)
    have P: "map Mesh (Mappings s' @ map Mapping (UnSortedMappings s')) = map Some (Meshes s')"
      using pair m0 m' u' meshes(1) by simp
    from P D N True m' i' idx p0 p' show ?thesis
      by (simp add: Inv_def DeterministicIds_def DenseGuids_def)
  next
    case False
    from unsorted_case [OF False] have
      u': "UnSortedMappings s' = []"
      and m': "Mappings s' = Mappings s @ cs"
      and cr: "map Mesh cs = map Some rs"
      by simp_all
    from mode False have u0: "UnSortedMappings s = []" by simp
    have P: "map Mesh (Mappings s' @ map Mapping (UnSortedMappings s')) = map Some (Meshes s')"
      using pair u0 u' m' cr meshes(1) by simp
    have len: "length cs = length rs"
      using cr by (metis length_map)
    have "DeterministicIndex s' = of_nat (length (ProcessedMappings s')) \<and> DeterministicIds s'"
    proof (cases b)
      case True
      with unsorted_case [OF False] have
        fl: "\<forall>c \<in> set cs. bProcessMapping c"
        and i': "DeterministicIndex s' = DeterministicIndex s + of_nat (length rs)"
        and g': "map (\<lambda>r. Guid (MeshObjects s' r)) rs =
                   map (\<lambda>i. MakeGuid 0 0 0 (DeterministicIndex s + of_nat i)) [0..<length rs]"
        by simp_all
      from fl have "filter bProcessMapping cs = cs" by simp
      then have p': "ProcessedMappings s' = ProcessedMappings s @ cs"
        using m' by (simp add: ProcessedMappings_def)
      have "map (MappingGuid s') cs = map (\<lambda>r. Some (Guid (MeshObjects s' r))) rs"
        using cr by (rule MappingGuid_paired)
      also have "\<dots> = map Some (map (\<lambda>r. Guid (MeshObjects s' r)) rs)"
        by (simp add: o_def)
      also have "\<dots> = map (\<lambda>i. Some (MakeGuid 0 0 0
                          (of_nat (length (ProcessedMappings s)) + of_nat i))) [0..<length rs]"
        unfolding g' idx by (simp add: o_def)
      finally have new: "map (MappingGuid s') cs =
          map (\<lambda>i. Some (MakeGuid 0 0 0 (of_nat (length (ProcessedMappings s)) + of_nat i)))
            [0..<length rs]" .
      have "map (MappingGuid s') (ProcessedMappings s') =
              DenseGuids (length (ProcessedMappings s) + length rs)"
        unfolding p' DenseGuids_add by (simp add: oldguids ids new)
      with p' len i' idx show ?thesis
        by (simp add: DeterministicIds_def)
    next
      case False
      with unsorted_case [OF \<open>\<not> bSortMappings dbg\<close>] have
        fl: "\<forall>c \<in> set cs. \<not> bProcessMapping c"
        and i': "DeterministicIndex s' = DeterministicIndex s"
        by simp_all
      from fl have "filter bProcessMapping cs = []" by simp
      then have p': "ProcessedMappings s' = ProcessedMappings s"
        using m' by (simp add: ProcessedMappings_def)
      with oldguids ids i' idx show ?thesis
        by (simp add: DeterministicIds_def)
    qed
    with P D N False u' show ?thesis
      by (simp add: Inv_def)
  qed
qed


text \<open>
  What the build expects of a component's \<^verbatim>\<open>GetStaticLightingInfo\<close> (the "one to one
  relationship between mappings and meshes" of line 1607): the i-th mapping points to the
  i-th mesh, the meshes are objects of the component's own (not NULL, not a BSP surface
  of the system), and a mapping is constructed with \<^verbatim>\<open>bProcessMapping\<close> false.
\<close>

definition IsComponentMesh :: "mesh_ref option \<Rightarrow> bool" where
  "IsComponentMesh m = (case m of Some (ComponentMesh a) \<Rightarrow> True | _ \<Rightarrow> False)"

definition OneToOne :: "FStaticLightingPrimitiveInfo \<Rightarrow> bool" where
  "OneToOne pinfo =
     (map Mesh (InfoMappings pinfo) = InfoMeshes pinfo
      \<and> list_all (\<lambda>c. \<not> bProcessMapping c) (InfoMappings pinfo)
      \<and> list_all IsComponentMesh (InfoMeshes pinfo))"

definition InfoMeshesOf :: "UPrimitiveComponent list \<Rightarrow> mesh_ref option list" where
  "InfoMeshesOf comps = concat (map (\<lambda>c. InfoMeshes (StaticLightingInfo c)) comps)"

lemma InfoMeshesOf_simps [simp]:
  "InfoMeshesOf [] = []"
  "InfoMeshesOf (c # cs) = InfoMeshes (StaticLightingInfo c) @ InfoMeshesOf cs"
  "InfoMeshesOf (cs @ ds) = InfoMeshesOf cs @ InfoMeshesOf ds"
  by (simp_all add: InfoMeshesOf_def)

lemma InfoMeshesOf_map:
  "(\<And>c. StaticLightingInfo (f c) = StaticLightingInfo c) \<Longrightarrow> InfoMeshesOf (map f cs) = InfoMeshesOf cs"
  by (simp add: InfoMeshesOf_def o_def)

lemma MappingGuid_NextVisibilityId [simp]:
  "MappingGuid (s\<lparr>NextVisibilityId := n\<rparr>) = MappingGuid s"
  by (rule ext) (simp add: MappingGuid_def)

lemma Inv_NextVisibilityId [simp]: "Inv dbg (s\<lparr>NextVisibilityId := n\<rparr>) = Inv dbg s"
  by (simp add: Inv_def DeterministicIds_def ProcessedMappings_def)

lemma AddSurfaceStaticLighting_heap:
  "(\<forall>m. m \<noteq> BSPSurface (NumBSPSurfaces s)
      \<longrightarrow> Guid (MeshObjects (AddSurfaceStaticLighting dbg b ids t s) m) = Guid (MeshObjects s m))
   \<and> (if \<not> bSortMappings dbg \<and> b
       then Guid (MeshObjects (AddSurfaceStaticLighting dbg b ids t s) (BSPSurface (NumBSPSurfaces s)))
              = MakeGuid 0 0 0 (DeterministicIndex s)
            \<and> DeterministicIndex (AddSurfaceStaticLighting dbg b ids t s) = DeterministicIndex s + 1
       else DeterministicIndex (AddSurfaceStaticLighting dbg b ids t s) = DeterministicIndex s)"
  by (simp add: AddSurfaceStaticLighting_def Let_def AssignDeterministicGuid_def
      split: option.splits)

lemma Inv_AddSurface:
  assumes "Inv dbg s"
  shows "Inv dbg (AddSurfaceStaticLighting dbg b ids t s)"
proof -
  define s' where "s' = AddSurfaceStaticLighting dbg b ids t s"
  define r where "r = BSPSurface (NumBSPSurfaces s)"
  note l = AddSurfaceStaticLighting_lists [of dbg b ids t s, folded s'_def r_def]
  note h = AddSurfaceStaticLighting_heap [of s dbg b ids t, folded s'_def r_def]
  from assms have bound: "\<forall>n. BSPSurface n \<in> set (Meshes s) \<longrightarrow> n < NumBSPSurfaces s"
    by (simp add: Inv_def)
  then have fresh: "r \<notin> set (Meshes s)" by (auto simp add: r_def)
  define c where "c = \<lparr>Mesh = Some r, bProcessMapping = b, TexelCount = t\<rparr>"
  have "Inv dbg s'"
  proof (rule Inv_extend [OF assms, where rs = "[r]" and cs = "[c]" and b = b])
    show "Meshes s' = Meshes s @ [r]" using l by simp
    show "distinct [r]" by simp
    show "set [r] \<inter> set (Meshes s) = {}" using fresh by simp
    show "\<forall>n. BSPSurface n \<in> set (Meshes s) \<union> set [r] \<longrightarrow> n < NumBSPSurfaces s'"
      using bound l by (auto simp add: r_def)
    show "\<forall>m. m \<notin> set [r] \<longrightarrow> Guid (MeshObjects s' m) = Guid (MeshObjects s m)"
      using h by simp
    show "bSortMappings dbg \<Longrightarrow>
            Mappings s' = []
            \<and> map (Mesh \<circ> Mapping) (UnSortedMappings s') =
                map (Mesh \<circ> Mapping) (UnSortedMappings s) @ map Some [r]
            \<and> DeterministicIndex s' = DeterministicIndex s"
      using l h assms by (simp add: Inv_def)
    show "\<not> bSortMappings dbg \<Longrightarrow>
            UnSortedMappings s' = [] \<and> Mappings s' = Mappings s @ [c]
            \<and> map Mesh [c] = map Some [r]
            \<and> (if b
                then (\<forall>c \<in> set [c]. bProcessMapping c)
                     \<and> DeterministicIndex s' = DeterministicIndex s + of_nat (length [r])
                     \<and> map (\<lambda>r. Guid (MeshObjects s' r)) [r] =
                         map (\<lambda>i. MakeGuid 0 0 0 (DeterministicIndex s + of_nat i)) [0..<length [r]]
                else (\<forall>c \<in> set [c]. \<not> bProcessMapping c)
                     \<and> DeterministicIndex s' = DeterministicIndex s)"
      using l h assms by (simp add: Inv_def c_def)
  qed
  then show ?thesis by (simp add: s'_def)
qed

lemma OneToOne_refs:
  assumes "OneToOne pinfo"
  shows "\<exists>rs. InfoMeshes pinfo = map Some rs \<and> (\<forall>n. BSPSurface n \<notin> set rs)"
proof -
  from assms have all: "\<forall>m \<in> set (InfoMeshes pinfo). IsComponentMesh m"
    by (simp add: OneToOne_def list_all_iff)
  have "InfoMeshes pinfo = map Some (map the (InfoMeshes pinfo))"
  proof (rule nth_equalityI)
    show "length (InfoMeshes pinfo) = length (map Some (map the (InfoMeshes pinfo)))" by simp
    fix i
    assume "i < length (InfoMeshes pinfo)"
    with all have "IsComponentMesh (InfoMeshes pinfo ! i)" by simp
    then show "InfoMeshes pinfo ! i = map Some (map the (InfoMeshes pinfo)) ! i"
      using \<open>i < length (InfoMeshes pinfo)\<close>
      by (cases "InfoMeshes pinfo ! i") (simp_all add: IsComponentMesh_def)
  qed
  moreover have "\<forall>n. BSPSurface n \<notin> set (map the (InfoMeshes pinfo))"
  proof (intro allI notI)
    fix n
    assume "BSPSurface n \<in> set (map the (InfoMeshes pinfo))"
    then obtain m where "m \<in> set (InfoMeshes pinfo)" and "the m = BSPSurface n" by auto
    with all show False
      by (cases m) (auto simp add: IsComponentMesh_def split: mesh_ref.splits)
  qed
  ultimately show ?thesis by blast
qed

lemma Inv_AddPrimitive:
  assumes inv: "Inv dbg s"
      and wf: "OneToOne pinfo"
      and dist: "distinct (InfoMeshes pinfo)"
      and fresh: "set (InfoMeshes pinfo) \<inter> Some ` set (Meshes s) = {}"
      and run: "AddPrimitiveStaticLightingInfo dbg pinfo b s = Inr s'"
  shows "Inv dbg s' \<and> map Some (Meshes s') = map Some (Meshes s) @ InfoMeshes pinfo"
proof -
  from OneToOne_refs [OF wf] obtain rs where
    rs: "InfoMeshes pinfo = map Some rs" and nobsp: "\<forall>n. BSPSurface n \<notin> set rs"
    by blast
  from dist rs have drs: "distinct rs" by (simp add: distinct_map)
  from fresh rs have frs: "set rs \<inter> set (Meshes s) = {}" by auto
  from run obtain s1 where
    m: "AddPrimitiveMeshes dbg b (InfoVisibilityId pinfo) (map Some rs) s = Inr s1"
    and s': "s' = AddPrimitiveMappings dbg b (InfoMappings pinfo) s1"
    by (auto simp add: AddPrimitiveStaticLightingInfo_def rs split: if_splits sum.splits)
  note l1 = AddPrimitiveMeshes_lists [OF m]
  note h1 = AddPrimitiveMeshes_heap [OF m drs]
  note l2 = AddPrimitiveMappings_lists [of dbg b "InfoMappings pinfo" s1, folded s']
  define cs where "cs = map (\<lambda>c. if b then c\<lparr>bProcessMapping := True\<rparr> else c) (InfoMappings pinfo)"
  have mesh_cs: "map Mesh cs = map Some rs"
    using wf rs by (simp add: cs_def OneToOne_def o_def if_distrib [of Mesh] cong: if_cong)
  have unfl: "\<forall>c \<in> set (InfoMappings pinfo). \<not> bProcessMapping c"
    using wf by (simp add: OneToOne_def list_all_iff)
  have meshes': "Meshes s' = Meshes s @ rs"
    using l1 l2 by (simp add: o_def)
  from inv have bound: "\<forall>n. BSPSurface n \<in> set (Meshes s) \<longrightarrow> n < NumBSPSurfaces s"
    and mode: "if bSortMappings dbg then Mappings s = [] else UnSortedMappings s = []"
    by (simp_all add: Inv_def)
  have "Inv dbg s'"
  proof (rule Inv_extend [OF inv meshes' drs frs, where cs = cs and b = b])
    show "\<forall>n. BSPSurface n \<in> set (Meshes s) \<union> set rs \<longrightarrow> n < NumBSPSurfaces s'"
      using bound nobsp l1 l2 by auto
    show "\<forall>m. m \<notin> set rs \<longrightarrow> Guid (MeshObjects s' m) = Guid (MeshObjects s m)"
      using h1 l2 by simp
    show "bSortMappings dbg \<Longrightarrow>
            Mappings s' = []
            \<and> map (Mesh \<circ> Mapping) (UnSortedMappings s') =
                map (Mesh \<circ> Mapping) (UnSortedMappings s) @ map Some rs
            \<and> DeterministicIndex s' = DeterministicIndex s"
      using l1 l2 h1 mode mesh_cs by (simp add: o_def cs_def)
    show "\<not> bSortMappings dbg \<Longrightarrow>
            UnSortedMappings s' = [] \<and> Mappings s' = Mappings s @ cs
            \<and> map Mesh cs = map Some rs
            \<and> (if b
                then (\<forall>c \<in> set cs. bProcessMapping c)
                     \<and> DeterministicIndex s' = DeterministicIndex s + of_nat (length rs)
                     \<and> map (\<lambda>r. Guid (MeshObjects s' r)) rs =
                         map (\<lambda>i. MakeGuid 0 0 0 (DeterministicIndex s + of_nat i)) [0..<length rs]
                else (\<forall>c \<in> set cs. \<not> bProcessMapping c)
                     \<and> DeterministicIndex s' = DeterministicIndex s)"
      using l1 l2 h1 mode mesh_cs unfl by (auto simp add: cs_def)
  qed
  with meshes' rs show ?thesis by simp
qed


text \<open>
  The invariant together with a bound on the meshes collected so far: they are among
  \<open>M\<close> or BSP surfaces of the system.
\<close>

definition InvWithin ::
  "FLightmassDebugOptions \<Rightarrow> mesh_ref option set \<Rightarrow> FStaticLightingSystem \<Rightarrow> bool" where
  "InvWithin dbg M s = (Inv dbg s \<and> Some ` set (Meshes s) \<subseteq> M \<union> Some ` range BSPSurface)"

lemma InvWithin_mono: "InvWithin dbg M s \<Longrightarrow> M \<subseteq> M' \<Longrightarrow> InvWithin dbg M' s"
  by (auto simp add: InvWithin_def)

lemma InvWithin_NextVisibilityId [simp]:
  "InvWithin dbg M (s\<lparr>NextVisibilityId := n\<rparr>) = InvWithin dbg M s"
  by (simp add: InvWithin_def)

lemma InvWithin_AddSurface:
  "InvWithin dbg M s \<Longrightarrow> InvWithin dbg M (AddSurfaceStaticLighting dbg b ids t s)"
  using AddSurfaceStaticLighting_lists [of dbg b ids t s]
  by (auto simp add: InvWithin_def Inv_AddSurface)

lemma GatherLevelBSP_inv:
  assumes "InvWithin dbg M s"
      and "GatherLevelBSP dbg bp bf Level s = Inr (Level', s')"
  shows "InvWithin dbg M s'"
  using assms
  by (rule GatherLevelBSP_keeps [of "InvWithin dbg M", rotated 2])
    (simp_all add: InvWithin_AddSurface)

lemma OneToOne_component_meshes:
  "OneToOne pinfo \<Longrightarrow> set (InfoMeshes pinfo) \<inter> Some ` range BSPSurface = {}"
  by (auto simp add: OneToOne_def list_all_iff IsComponentMesh_def)

lemma OneToOne_InfoVisibilityId [simp]:
  "OneToOne (pinfo\<lparr>InfoVisibilityId := v\<rparr>) = OneToOne pinfo"
  by (simp add: OneToOne_def)

lemma InvWithin_AddPrimitive:
  assumes inv: "InvWithin dbg M s"
      and wf: "OneToOne pinfo"
      and dist: "distinct (InfoMeshes pinfo)"
      and fresh: "set (InfoMeshes pinfo) \<inter> M = {}"
      and run: "AddPrimitiveStaticLightingInfo dbg pinfo b s = Inr s'"
  shows "InvWithin dbg (M \<union> set (InfoMeshes pinfo)) s'"
proof -
  from inv have i: "Inv dbg s" and sub: "Some ` set (Meshes s) \<subseteq> M \<union> Some ` range BSPSurface"
    by (simp_all add: InvWithin_def)
  from sub fresh OneToOne_component_meshes [OF wf]
  have "set (InfoMeshes pinfo) \<inter> Some ` set (Meshes s) = {}" by blast
  from Inv_AddPrimitive [OF i wf dist this run]
  have i': "Inv dbg s'" and m: "map Some (Meshes s') = map Some (Meshes s) @ InfoMeshes pinfo"
    by simp_all
  from m have "set (map Some (Meshes s')) = set (map Some (Meshes s) @ InfoMeshes pinfo)"
    by simp
  then have "Some ` set (Meshes s') = Some ` set (Meshes s) \<union> set (InfoMeshes pinfo)"
    by simp
  with sub i' show ?thesis by (auto simp add: InvWithin_def)
qed

lemma GatherComponents_inv:
  "InvWithin dbg M s
   \<Longrightarrow> \<forall>c \<in> set comps. OneToOne (StaticLightingInfo c)
   \<Longrightarrow> distinct (InfoMeshesOf comps)
   \<Longrightarrow> set (InfoMeshesOf comps) \<inter> M = {}
   \<Longrightarrow> GatherComponents dbg bp bf b comps (s, d) = Inr (comps', s', d')
   \<Longrightarrow> InvWithin dbg (M \<union> set (InfoMeshesOf comps)) s'"
proof (induction comps arbitrary: s d comps' s' d' M)
  case Nil
  then show ?case by simp
next
  case (Cons c comps)
  define ms where "ms = InfoMeshes (StaticLightingInfo c)"
  from Cons.prems have wf: "OneToOne (StaticLightingInfo c)"
    and wfs: "\<forall>c \<in> set comps. OneToOne (StaticLightingInfo c)"
    and dc: "distinct ms" and ds: "distinct (InfoMeshesOf comps)"
    and apart: "set ms \<inter> set (InfoMeshesOf comps) = {}"
    and fc: "set ms \<inter> M = {}" and fs: "set (InfoMeshesOf comps) \<inter> M = {}"
    by (auto simp add: ms_def)
  show ?case
  proof (cases "bRegistered c \<and> \<not> bf")
    case False
    with Cons.prems(5) obtain ps' where
      "GatherComponents dbg bp bf b comps (s, d) = Inr (ps', s', d')"
      by (auto split: sum.splits)
    from Cons.IH [OF Cons.prems(1) wfs ds fs this]
    show ?thesis by (rule InvWithin_mono) auto
  next
    case True
    define bAssign where "bAssign = (InfoMeshes (StaticLightingInfo c) \<noteq> [] \<and> Mobility c = Static)"
    define s1 where "s1 = (if bAssign then s\<lparr>NextVisibilityId := int32 (NextVisibilityId s + 1)\<rparr> else s)"
    define pinfo where "pinfo = (if bAssign
        then (StaticLightingInfo c)\<lparr>InfoVisibilityId := NextVisibilityId s\<rparr>
        else StaticLightingInfo c)"
    have P1: "InvWithin dbg M s1" using Cons.prems(1) by (simp add: s1_def)
    have p: "OneToOne pinfo" "InfoMeshes pinfo = ms"
      using wf by (simp_all add: pinfo_def ms_def)
    from True Cons.prems(5) obtain s2 d1 ps' where
      add: "AddPrimitiveStaticLightingInfo dbg pinfo b s1 = Inr s2"
      and rest: "GatherComponents dbg bp bf b comps (s2, d1) = Inr (ps', s', d')"
      by (auto simp add: Let_def s1_def bAssign_def pinfo_def split: sum.splits)
    from InvWithin_AddPrimitive [OF P1 p(1) _ _ add] dc fc p(2)
    have P2: "InvWithin dbg (M \<union> set ms) s2" by simp
    from apart fs have "set (InfoMeshesOf comps) \<inter> (M \<union> set ms) = {}" by blast
    from Cons.IH [OF P2 wfs ds this rest]
    show ?thesis by (rule InvWithin_mono) (auto simp add: ms_def)
  qed
qed

lemma GatherActors_inv:
  "InvWithin dbg M s
   \<Longrightarrow> \<forall>c \<in> set (concat (map Components (PointedTo as))). OneToOne (StaticLightingInfo c)
   \<Longrightarrow> distinct (InfoMeshesOf (concat (map Components (PointedTo as))))
   \<Longrightarrow> set (InfoMeshesOf (concat (map Components (PointedTo as)))) \<inter> M = {}
   \<Longrightarrow> GatherActors dbg bp bf bl as (s, d) = Inr (as', s', d')
   \<Longrightarrow> InvWithin dbg (M \<union> set (InfoMeshesOf (concat (map Components (PointedTo as))))) s'"
proof (induction as arbitrary: s d as' s' d' M)
  case Nil
  then show ?case by simp
next
  case (Cons a as)
  show ?case
  proof (cases a)
    case None
    with Cons.prems(5) obtain as1 where "GatherActors dbg bp bf bl as (s, d) = Inr (as1, s', d')"
      by (auto split: sum.splits)
    from Cons.IH [OF Cons.prems(1) _ _ _ this] Cons.prems(2,3,4) None
    show ?thesis by simp
  next
    case (Some Actor)
    define rest where "rest = concat (map Components (PointedTo as))"
    from Cons.prems Some have wf: "\<forall>c \<in> set (Components Actor). OneToOne (StaticLightingInfo c)"
      and wfs: "\<forall>c \<in> set rest. OneToOne (StaticLightingInfo c)"
      and dc: "distinct (InfoMeshesOf (Components Actor))" and ds: "distinct (InfoMeshesOf rest)"
      and apart: "set (InfoMeshesOf (Components Actor)) \<inter> set (InfoMeshesOf rest) = {}"
      and fc: "set (InfoMeshesOf (Components Actor)) \<inter> M = {}"
      and fs: "set (InfoMeshesOf rest) \<inter> M = {}"
      by (auto simp add: rest_def)
    define b where "b = (bl \<and> (\<not> bOnlyBuildSelected (Options s) \<or> bSelected Actor))"
    define comps where "comps = (if b \<and> \<not> bOnlyBuildVisibility (Options s)
                   then map (\<lambda>c. c\<lparr>bStaticLightingBuildEnqueued := True\<rparr>) (Components Actor)
                   else Components Actor)"
    have comps: "comps = Components Actor
              \<or> comps = map (\<lambda>c. c\<lparr>bStaticLightingBuildEnqueued := True\<rparr>) (Components Actor)"
      by (simp add: comps_def)
    have "(case GatherComponents dbg bp bf b comps (s, d) of
             Inl e \<Rightarrow> Inl e
           | Inr (comps', s1, dirty1) \<Rightarrow>
              (case GatherActors dbg bp bf bl as (s1, dirty1) of
                 Inl e \<Rightarrow> Inl e
               | Inr (as', s2, dirty2) \<Rightarrow>
                   Inr (Some (Actor\<lparr>Components := comps'\<rparr>) # as', s2, dirty2)))
          = Inr (as', s', d')"
      using Cons.prems(5) Some by (simp add: Let_def b_def comps_def)
    then obtain comps' s1 d1 as1 where
      one: "GatherComponents dbg bp bf b comps (s, d) = Inr (comps', s1, d1)"
      and more: "GatherActors dbg bp bf bl as (s1, d1) = Inr (as1, s', d')"
      by (auto split: sum.splits)
    from comps have same: "InfoMeshesOf comps = InfoMeshesOf (Components Actor)"
      by (auto simp add: InfoMeshesOf_map)
    from comps wf have wf': "\<forall>c \<in> set comps. OneToOne (StaticLightingInfo c)" by auto
    from GatherComponents_inv [OF Cons.prems(1) wf' _ _ one] same dc fc
    have P1: "InvWithin dbg (M \<union> set (InfoMeshesOf (Components Actor))) s1" by simp
    from apart fs have "set (InfoMeshesOf rest) \<inter> (M \<union> set (InfoMeshesOf (Components Actor))) = {}"
      by blast
    from Cons.IH [OF P1 wfs [unfolded rest_def] ds [unfolded rest_def] this [unfolded rest_def] more]
    show ?thesis by (rule InvWithin_mono) (auto simp add: Some)
  qed
qed


lemma GatherLevelBSP_actors:
  assumes "GatherLevelBSP dbg bp bf Level s = Inr (Level', s')"
  shows "Actors Level' = Actors Level"
  using GatherLevelBSP_cases [OF assms]
  by (auto simp add: AddBSPStaticLightingInfo_def MarkPackageDirty_def
      split: sum.splits prod.splits if_splits)

lemma GatherLevels_inv:
  "InvWithin dbg M s
   \<Longrightarrow> \<forall>c \<in> set (concat (map ActorComponents ls)). OneToOne (StaticLightingInfo c)
   \<Longrightarrow> distinct (InfoMeshesOf (concat (map ActorComponents ls)))
   \<Longrightarrow> set (InfoMeshesOf (concat (map ActorComponents ls))) \<inter> M = {}
   \<Longrightarrow> GatherLevels dbg bp bf ls s = Inr (ls', s')
   \<Longrightarrow> InvWithin dbg (M \<union> set (InfoMeshesOf (concat (map ActorComponents ls)))) s'"
proof (induction ls arbitrary: s ls' s' M)
  case Nil
  then show ?case by simp
next
  case (Cons Level ls)
  define rest where "rest = concat (map ActorComponents ls)"
  from Cons.prems have wf: "\<forall>c \<in> set (ActorComponents Level). OneToOne (StaticLightingInfo c)"
    and wfs: "\<forall>c \<in> set rest. OneToOne (StaticLightingInfo c)"
    and dc: "distinct (InfoMeshesOf (ActorComponents Level))" and ds: "distinct (InfoMeshesOf rest)"
    and apart: "set (InfoMeshesOf (ActorComponents Level)) \<inter> set (InfoMeshesOf rest) = {}"
    and fc: "set (InfoMeshesOf (ActorComponents Level)) \<inter> M = {}"
    and fs: "set (InfoMeshesOf rest) \<inter> M = {}"
    by (auto simp add: rest_def)
  from Cons.prems(5) obtain Level1 s1 as1 s2 d2 ls1 where
    b: "GatherLevelBSP dbg bp bf Level s = Inr (Level1, s1)"
    and a: "GatherActors dbg bp bf (bShouldBuildLightingForLevel Level1) (Actors Level1) (s1, False)
              = Inr (as1, s2, d2)"
    and more: "GatherLevels dbg bp bf ls s2 = Inr (ls1, s')"
    by (auto simp add: GatherLevel_def split: sum.splits)
  from GatherLevelBSP_inv [OF Cons.prems(1) b] have P1: "InvWithin dbg M s1" .
  have same: "concat (map Components (PointedTo (Actors Level1))) = ActorComponents Level"
    by (simp add: GatherLevelBSP_actors [OF b] ActorComponents_def)
  from GatherActors_inv [OF P1 _ _ _ a] wf dc fc
  have P2: "InvWithin dbg (M \<union> set (InfoMeshesOf (ActorComponents Level))) s2"
    unfolding same by simp
  from apart fs have "set (InfoMeshesOf rest) \<inter> (M \<union> set (InfoMeshesOf (ActorComponents Level))) = {}"
    by blast
  from Cons.IH [OF P2 wfs [unfolded rest_def] ds [unfolded rest_def] this [unfolded rest_def] more]
  show ?case by (rule InvWithin_mono) auto
qed


text \<open>The loop of lines 511 to 523 hands out the next indices, in the sorted order.\<close>

lemma ProcessedMappings_snoc:
  "ProcessedMappings (s\<lparr>Mappings := Mappings s @ [c]\<rparr>) =
     (if bProcessMapping c then ProcessedMappings s @ [c] else ProcessedMappings s)"
  by (simp add: ProcessedMappings_def)

lemma AddSortedMappings_ids:
  "DeterministicIds s
   \<Longrightarrow> DeterministicIndex s = of_nat (length (ProcessedMappings s))
   \<Longrightarrow> distinct (map (\<lambda>h. Mesh (Mapping h)) hs)
   \<Longrightarrow> \<forall>h \<in> set hs. Mesh (Mapping h) \<noteq> None
   \<Longrightarrow> (\<lambda>h. Mesh (Mapping h)) ` set hs \<inter> Mesh ` set (ProcessedMappings s) = {}
   \<Longrightarrow> DeterministicIds (AddSortedMappings hs s)
       \<and> DeterministicIndex (AddSortedMappings hs s) =
           of_nat (length (ProcessedMappings (AddSortedMappings hs s)))"
proof (induction hs arbitrary: s)
  case Nil
  then show ?case by simp
next
  case (Cons h hs)
  define c where "c = Mapping h"
  from Cons.prems(4) obtain m where m: "Mesh c = Some m" by (auto simp add: c_def)
  define s1 where "s1 = s\<lparr>Mappings := Mappings s @ [c]\<rparr>"
  define s2 where "s2 = (if bProcessMapping c then AssignDeterministicGuid m s1 else s1)"
  have step: "AddSortedMappings (h # hs) s = AddSortedMappings hs s2"
    using m by (simp add: Let_def s2_def s1_def c_def)
  from Cons.prems have dist: "distinct (map (\<lambda>h. Mesh (Mapping h)) hs)"
    and some: "\<forall>h \<in> set hs. Mesh (Mapping h) \<noteq> None"
    and new: "Some m \<notin> (\<lambda>h. Mesh (Mapping h)) ` set hs"
    and fresh: "Some m \<notin> Mesh ` set (ProcessedMappings s)"
    and apart: "(\<lambda>h. Mesh (Mapping h)) ` set hs \<inter> Mesh ` set (ProcessedMappings s) = {}"
    using m by (auto simp add: c_def)
  have "DeterministicIds s2
      \<and> DeterministicIndex s2 = of_nat (length (ProcessedMappings s2))
      \<and> (\<lambda>h. Mesh (Mapping h)) ` set hs \<inter> Mesh ` set (ProcessedMappings s2) = {}"
  proof (cases "bProcessMapping c")
    case False
    then have p: "ProcessedMappings s2 = ProcessedMappings s"
      and g: "MappingGuid s2 = MappingGuid s"
      and i: "DeterministicIndex s2 = DeterministicIndex s"
      by (simp_all add: s2_def s1_def ProcessedMappings_snoc MappingGuid_def fun_eq_iff)
    with Cons.prems(1,2) apart show ?thesis
      by (simp add: DeterministicIds_def)
  next
    case True
    define k where "k = length (ProcessedMappings s)"
    from True have p: "ProcessedMappings s2 = ProcessedMappings s @ [c]"
      by (simp add: s2_def s1_def ProcessedMappings_def)
    from True have i: "DeterministicIndex s2 = DeterministicIndex s + 1"
      by (simp add: s2_def s1_def)
    from True have heap: "MeshObjects s2 =
        (MeshObjects s)(m := (MeshObjects s m)\<lparr>Guid := MakeGuid 0 0 0 (DeterministicIndex s)\<rparr>)"
      by (simp add: s2_def s1_def AssignDeterministicGuid_def)
    have old: "map (MappingGuid s2) (ProcessedMappings s) = map (MappingGuid s) (ProcessedMappings s)"
    proof (rule MappingGuid_cong)
      fix c' m'
      assume "c' \<in> set (ProcessedMappings s)" and "Mesh c' = Some m'"
      with fresh have "m' \<noteq> m" by force
      then show "Guid (MeshObjects s2 m') = Guid (MeshObjects s m')"
        by (simp add: heap)
    qed
    have this_one: "MappingGuid s2 c = Some (MakeGuid 0 0 0 (of_nat k))"
      using m Cons.prems(2) by (simp add: MappingGuid_def heap k_def)
    have "map (MappingGuid s2) (ProcessedMappings s2) =
            DenseGuids k @ [Some (MakeGuid 0 0 0 (of_nat k))]"
      unfolding p using Cons.prems(1) by (simp add: old this_one DeterministicIds_def k_def)
    also have "\<dots> = DenseGuids (Suc k)"
      by (simp add: DenseGuids_def)
    finally have A: "DeterministicIds s2"
      by (simp add: DeterministicIds_def p k_def)
    have B: "DeterministicIndex s2 = of_nat (length (ProcessedMappings s2))"
      using i Cons.prems(2) by (simp add: p)
    have C: "(\<lambda>h. Mesh (Mapping h)) ` set hs \<inter> Mesh ` set (ProcessedMappings s2) = {}"
      using apart new m by (auto simp add: p)
    from A B C show ?thesis by simp
  qed
  then show ?case
    unfolding step using dist some by (intro Cons.IH) simp_all
qed

lemma MappingGuid_UnSortedMappings [simp]:
  "MappingGuid (s\<lparr>UnSortedMappings := u\<rparr>) = MappingGuid s"
  by (rule ext) (simp add: MappingGuid_def)

lemma DeterministicIds_UnSortedMappings [simp]:
  "DeterministicIds (s\<lparr>UnSortedMappings := u\<rparr>) = DeterministicIds s"
  by (simp add: DeterministicIds_def ProcessedMappings_def)

lemma SortMappings_ids:
  assumes "Inv dbg s"
  shows "DeterministicIds (SortMappings dbg s)
       \<and> mset (map Mesh (Mappings (SortMappings dbg s))) = mset (map Some (Meshes s))"
proof (cases "bSortMappings dbg")
  case False
  with assms have "map Mesh (Mappings s) = map Some (Meshes s)" and "DeterministicIds s"
    by (auto simp add: Inv_def)
  with False show ?thesis by (simp add: SortMappings_def)
next
  case True
  define hs where "hs = TArray_Sort FCompareNumTexels (UnSortedMappings s)"
  from True assms have none: "Mappings s = []"
    and pairs: "map (\<lambda>h. Mesh (Mapping h)) (UnSortedMappings s) = map Some (Meshes s)"
    and dist: "distinct (Meshes s)"
    and ids: "DeterministicIds s"
    and idx: "DeterministicIndex s = of_nat (length (ProcessedMappings s))"
    by (auto simp add: Inv_def o_def)
  have "mset hs = mset (UnSortedMappings s)"
    by (simp add: hs_def mset_TArray_Sort)
  then have "mset (map (\<lambda>h. Mesh (Mapping h)) hs) = mset (map (\<lambda>h. Mesh (Mapping h)) (UnSortedMappings s))"
    by simp
  then have perm: "mset (map (\<lambda>h. Mesh (Mapping h)) hs) = mset (map Some (Meshes s))"
    by (simp only: pairs)
  have d1: "distinct (map (\<lambda>h. Mesh (Mapping h)) hs)"
    unfolding mset_eq_imp_distinct_iff [OF perm] using dist by (simp add: distinct_map)
  from perm have "set_mset (mset (map (\<lambda>h. Mesh (Mapping h)) hs)) = set_mset (mset (map Some (Meshes s)))"
    by (rule arg_cong)
  then have "(\<lambda>h. Mesh (Mapping h)) ` set hs = Some ` set (Meshes s)"
    by simp
  then have d2: "\<forall>h \<in> set hs. Mesh (Mapping h) \<noteq> None"
    by blast
  have d3: "(\<lambda>h. Mesh (Mapping h)) ` set hs \<inter> Mesh ` set (ProcessedMappings s) = {}"
    by (simp add: ProcessedMappings_def none)
  from AddSortedMappings_ids [OF ids idx d1 d2 d3]
  have A: "DeterministicIds (SortMappings dbg s)"
    using True by (simp add: SortMappings_def hs_def)
  have "Mappings (SortMappings dbg s) = map Mapping hs"
    using True by (simp add: SortMappings_def hs_def Mappings_AddSortedMappings none)
  with perm have B: "mset (map Mesh (Mappings (SortMappings dbg s))) = mset (map Some (Meshes s))"
    by (simp add: o_def)
  from A B show ?thesis by simp
qed


text \<open>
  The meshes that the components of the world hand to the build are one to one with
  their mappings, and no mesh is handed over twice.
\<close>

definition OneToOneWorld :: "UWorld \<Rightarrow> bool" where
  "OneToOneWorld World =
     (list_all (\<lambda>c. OneToOne (StaticLightingInfo c)) (concat (map ActorComponents (Levels World)))
      \<and> distinct (InfoMeshesOf (concat (map ActorComponents (Levels World)))))"

lemma SameScene_ids:
  "SameScene s s' \<Longrightarrow> DeterministicIds s' = DeterministicIds s"
  by (simp add: SameScene_def DeterministicIds_def ProcessedMappings_def MappingGuid_def
      cong: map_cong)

lemma Inv_new:
  "InvWithin dbg {} ((NewStaticLightingSystem x InOptions)\<lparr>CurrentBuildStage := Startup\<rparr>)"
  by (simp add: InvWithin_def Inv_def NewStaticLightingSystem_def DeterministicIds_def
      ProcessedMappings_def DenseGuids_def)

lemma unat_DenseGuids:
  assumes "map g cs = DenseGuids (length cs)" and "length cs \<le> 2 ^ 32"
  shows "map (\<lambda>c. map_option (\<lambda>G. unat (GuidD G)) (g c)) cs = map Some [0..<length cs]"
proof -
  have "map (\<lambda>c. map_option (\<lambda>G. unat (GuidD G)) (g c)) cs =
          map (map_option (\<lambda>G. unat (GuidD G))) (map g cs)"
    by (simp add: o_def)
  also have "\<dots> = map (\<lambda>i. Some (unat (word_of_nat i :: 32 word))) [0..<length cs]"
    unfolding assms(1) by (simp add: DenseGuids_def MakeGuid_def o_def)
  also have "\<dots> = map Some [0..<length cs]"
  proof (rule map_cong [OF refl])
    fix i
    assume "i \<in> set [0..<length cs]"
    with assms(2) have "i < 2 ^ 32" by simp
    then show "Some (unat (word_of_nat i :: 32 word)) = Some i"
      by (simp add: unsigned_of_nat take_bit_nat_eq_self)
  qed
  finally show ?thesis .
qed


text \<open>The same collaborators with \<^verbatim>\<open>bSortMappings\<close> off.\<close>

definition ExampleExternalUnsorted :: FExternal where
  "ExampleExternalUnsorted =
     ExampleExternal\<lparr>GLightmassDebugOptions :=
        \<lparr>bSortMappings = False, bUseImmediateImport = False, bImmediateProcessMappings = False\<rparr>\<rparr>"

lemma ExampleBuildUnsorted:
  "\<exists>s e'. BeginLightmassProcess ExampleExternalUnsorted
             (NewStaticLightingSystem ExampleExternalUnsorted ExampleOptions) IdleEditor
           = Inr (True, s, e')
     \<and> map Mesh (Mappings s) =
         [Some (BSPSurface 0), Some (ComponentMesh 0), Some (ComponentMesh 1), Some (ComponentMesh 2)]
     \<and> map bProcessMapping (Mappings s) = [True, True, True, False]"
  by (simp add: ExampleExternalUnsorted_def ExampleExternal_def ExampleOptions_def IdleEditor_def
      ExampleWorld_def
      NewStaticLightingSystem_def BeginLightmassProcess_def GatherStaticLightingInfo_def
      GatherLevel_def GatherLevelBSP_def AddBSPStaticLightingInfo_def
      AddSurfaceStaticLighting_def AddPrimitiveStaticLightingInfo_def ResetVisibilityIds_def
      ResetLevel_def ResetActor_def ResetComponent_def INDEX_NONE_def TArray_at_def
      AddUnique_def AssignDeterministicGuid_def AddVisibilityId_def MakeGuid_def
      CacheNodeVertices_def int32_def upt_0_3
      SortMappings_def FCompareNumTexels_def MarkPackageDirty_def CreateLightmassProcessor_def
      InitiateLightmassProcessor_def Call_def Let_def AllPrimitiveComponents_def
      LevelComponents_def ActorComponents_def)

text \<open>
  Claim C1. After \<open>BeginLightmassProcess\<close> on a new system, in a world whose components
  hand over meshes one to one with their mappings, the mappings flagged for rebuild, in
  the order of \<open>Mappings\<close>, have the GUIDs (0,0,0,0), (0,0,0,1), ..., (0,0,0,k-1), where k
  is the number of flagged mappings; the flagged mappings have different meshes; and, k
  fitting the 32 bits of the index, the D components read as numbers are 0, 1, ..., k-1.
  The statement does not depend on \<^verbatim>\<open>bSortMappings\<close>: it covers the assignment after the
  sort and the assignment during the gather.
\<close>

theorem deterministic_indices_dense:
  assumes run: "BeginLightmassProcess x (NewStaticLightingSystem x InOptions) e = Inr (ok, s', e')"
      and wf: "OneToOneWorld (GWorld e)"
  shows "map (MappingGuid s') (ProcessedMappings s') = DenseGuids (length (ProcessedMappings s'))
       \<and> distinct (map Mesh (ProcessedMappings s'))
       \<and> (length (ProcessedMappings s') \<le> 2 ^ 32 \<longrightarrow>
            map (\<lambda>c. map_option (\<lambda>G. unat (GuidD G)) (MappingGuid s' c)) (ProcessedMappings s')
              = map Some [0..<length (ProcessedMappings s')])"
proof -
  define dbg where "dbg = GLightmassDebugOptions x"
  define bf where "bf = (bForceNoPrecomputedLighting (GWorld e) \<or> \<not> bAllowStaticLighting x)"
  define s0 where "s0 = (NewStaticLightingSystem x InOptions)\<lparr>CurrentBuildStage := Startup\<rparr>"
  define comps where "comps = concat (map ActorComponents (Levels (GWorld e)))"
  from BeginLightmassProcess_collect [OF run] obtain s1 where
    g: "GatherStaticLightingInfo dbg bf (ResetVisibilityIds (GWorld e)) s0 = Inr (GWorld e', s1)"
    and same: "SameScene (SortMappings dbg s1) s'"
    unfolding bf_def s0_def dbg_def by blast
  from g obtain ls where
    gl: "GatherLevels dbg (bPrecomputeVisibility (GWorld e)) bf
           (map ResetLevel (Levels (GWorld e))) s0 = Inr (ls, s1)"
    by (auto simp add: GatherStaticLightingInfo_def ResetVisibilityIds_def split: sum.splits)
  have reset: "concat (map ActorComponents (map ResetLevel (Levels (GWorld e)))) =
                 map ResetComponent comps"
    by (simp add: comps_def o_def ActorComponents_ResetLevel map_concat)
  have meshes: "InfoMeshesOf (map ResetComponent comps) = InfoMeshesOf comps"
    by (rule InfoMeshesOf_map) (simp add: ResetComponent_def)
  from wf have w1: "\<forall>c \<in> set (map ResetComponent comps). OneToOne (StaticLightingInfo c)"
    and w2: "distinct (InfoMeshesOf (map ResetComponent comps))"
    unfolding meshes
    by (simp_all add: OneToOneWorld_def comps_def [symmetric] list_all_iff ResetComponent_def)
  have "InvWithin dbg ({} \<union> set (InfoMeshesOf (map ResetComponent comps))) s1"
    using Inv_new [of dbg x InOptions, folded s0_def] w1 w2 _ gl
    unfolding reset [symmetric]
    by (rule GatherLevels_inv) simp
  then have "Inv dbg s1" by (simp add: InvWithin_def)
  then have d1: "distinct (Meshes s1)" by (simp add: Inv_def)
  from SortMappings_ids [OF \<open>Inv dbg s1\<close>]
  have ids: "DeterministicIds (SortMappings dbg s1)"
    and perm: "mset (map Mesh (Mappings (SortMappings dbg s1))) = mset (map Some (Meshes s1))"
    by simp_all
  from same have m: "Mappings s' = Mappings (SortMappings dbg s1)"
    by (simp add: SameScene_def)
  from ids SameScene_ids [OF same]
  have A: "map (MappingGuid s') (ProcessedMappings s') = DenseGuids (length (ProcessedMappings s'))"
    by (simp add: DeterministicIds_def)
  have "distinct (map Mesh (Mappings s'))"
    unfolding m mset_eq_imp_distinct_iff [OF perm] using d1 by (simp add: distinct_map)
  then have B: "distinct (map Mesh (ProcessedMappings s'))"
    unfolding ProcessedMappings_def by (rule distinct_map_filter)
  have C: "length (ProcessedMappings s') \<le> 2 ^ 32 \<longrightarrow>
            map (\<lambda>c. map_option (\<lambda>G. unat (GuidD G)) (MappingGuid s' c)) (ProcessedMappings s')
              = map Some [0..<length (ProcessedMappings s')]"
    using unat_DenseGuids [OF A] by blast
  from A B C show ?thesis by (intro conjI)
qed


theorem deterministic_indices_dense_witness:
  "(\<exists>s e'. BeginLightmassProcess ExampleExternal
             (NewStaticLightingSystem ExampleExternal ExampleOptions) IdleEditor = Inr (True, s, e')
     \<and> OneToOneWorld (GWorld IdleEditor)
     \<and> map Mesh (ProcessedMappings s) =
         [Some (ComponentMesh 1), Some (BSPSurface 0), Some (ComponentMesh 0)]
     \<and> map (MappingGuid s) (ProcessedMappings s) =
         [Some (MakeGuid 0 0 0 0), Some (MakeGuid 0 0 0 1), Some (MakeGuid 0 0 0 2)]
     \<and> map (\<lambda>c. map_option (\<lambda>G. unat (GuidD G)) (MappingGuid s c)) (ProcessedMappings s)
         = [Some 0, Some 1, Some 2])
   \<and> (\<exists>s e'. BeginLightmassProcess ExampleExternalUnsorted
             (NewStaticLightingSystem ExampleExternalUnsorted ExampleOptions) IdleEditor
           = Inr (True, s, e')
     \<and> map Mesh (ProcessedMappings s) =
         [Some (BSPSurface 0), Some (ComponentMesh 0), Some (ComponentMesh 1)]
     \<and> map (MappingGuid s) (ProcessedMappings s) =
         [Some (MakeGuid 0 0 0 0), Some (MakeGuid 0 0 0 1), Some (MakeGuid 0 0 0 2)]
     \<and> map (\<lambda>c. map_option (\<lambda>G. unat (GuidD G)) (MappingGuid s c)) (ProcessedMappings s)
         = [Some 0, Some 1, Some 2])"
proof -
  have wf: "OneToOneWorld (GWorld IdleEditor)"
    by (simp add: OneToOneWorld_def IdleEditor_def ExampleWorld_def ActorComponents_def
        OneToOne_def IsComponentMesh_def)
  have up: "[0..<3] = [0, 1, 2]" "DenseGuids 3 = [Some (MakeGuid 0 0 0 0), Some (MakeGuid 0 0 0 1),
      Some (MakeGuid 0 0 0 2)]"
    by (simp_all add: DenseGuids_def upt_rec [of 0] upt_rec [of 1] upt_rec [of 2]
        upt_rec [of "Suc 0"] upt_rec [of "Suc (Suc 0)"])
  have sorted_path: "\<exists>s e'. BeginLightmassProcess ExampleExternal
             (NewStaticLightingSystem ExampleExternal ExampleOptions) IdleEditor = Inr (True, s, e')
     \<and> OneToOneWorld (GWorld IdleEditor)
     \<and> map Mesh (ProcessedMappings s) =
         [Some (ComponentMesh 1), Some (BSPSurface 0), Some (ComponentMesh 0)]
     \<and> map (MappingGuid s) (ProcessedMappings s) =
         [Some (MakeGuid 0 0 0 0), Some (MakeGuid 0 0 0 1), Some (MakeGuid 0 0 0 2)]
     \<and> map (\<lambda>c. map_option (\<lambda>G. unat (GuidD G)) (MappingGuid s c)) (ProcessedMappings s)
         = [Some 0, Some 1, Some 2]"
  proof -
    from ExampleBuild obtain s e' where
      ex: "BeginLightmassProcess ExampleExternal
            (NewStaticLightingSystem ExampleExternal ExampleOptions) IdleEditor = Inr (True, s, e')
       \<and> Meshes s = [BSPSurface 0, ComponentMesh 0, ComponentMesh 1, ComponentMesh 2]
       \<and> map Mesh (Mappings s) =
           [Some (ComponentMesh 2), Some (ComponentMesh 1), Some (BSPSurface 0), Some (ComponentMesh 0)]
       \<and> map bProcessMapping (Mappings s) = [False, True, True, True]
       \<and> map (\<lambda>m. GuidD (Guid (MeshObjects s m))) [ComponentMesh 1, BSPSurface 0, ComponentMesh 0]
           = [0, 1, 2]
       \<and> NextVisibilityId s = 3
       \<and> map VisibilityId (AllPrimitiveComponents (GWorld e')) = [1, INDEX_NONE, 0, 2, INDEX_NONE]
       \<and> map bPackageDirty (Levels (GWorld e')) = [True, True]"
      by (elim exE) (rule that)
    then have
      b: "BeginLightmassProcess ExampleExternal
            (NewStaticLightingSystem ExampleExternal ExampleOptions) IdleEditor = Inr (True, s, e')"
      and ms: "map Mesh (Mappings s) =
           [Some (ComponentMesh 2), Some (ComponentMesh 1), Some (BSPSurface 0), Some (ComponentMesh 0)]"
      and fs: "map bProcessMapping (Mappings s) = [False, True, True, True]"
      by simp_all
    from ms fs obtain c0 c1 c2 c3 where
      cs: "Mappings s = [c0, c1, c2, c3]"
      by (auto simp add: map_eq_Cons_conv)
    from ms fs have p: "ProcessedMappings s = [c1, c2, c3]"
      and m: "map Mesh [c1, c2, c3] =
                [Some (ComponentMesh 1), Some (BSPSurface 0), Some (ComponentMesh 0)]"
      by (simp_all add: cs ProcessedMappings_def)
    have k: "length (ProcessedMappings s) = 3" "(3::nat) \<le> 2 ^ 32"
      by (simp_all add: p)
    from deterministic_indices_dense [OF b wf] k up
    have t: "map (MappingGuid s) (ProcessedMappings s) =
           [Some (MakeGuid 0 0 0 0), Some (MakeGuid 0 0 0 1), Some (MakeGuid 0 0 0 2)]
       \<and> map (\<lambda>c. map_option (\<lambda>G. unat (GuidD G)) (MappingGuid s c)) (ProcessedMappings s)
           = [Some 0, Some 1, Some 2]"
      by simp
    from m have m': "map Mesh (ProcessedMappings s) =
           [Some (ComponentMesh 1), Some (BSPSurface 0), Some (ComponentMesh 0)]"
      by (simp only: p)
    show ?thesis
      by (intro exI [of _ s] exI [of _ e'] conjI)
        (fact b wf m' t [THEN conjunct1] t [THEN conjunct2])+
  qed
  have unsorted_path: "\<exists>s e'. BeginLightmassProcess ExampleExternalUnsorted
             (NewStaticLightingSystem ExampleExternalUnsorted ExampleOptions) IdleEditor
           = Inr (True, s, e')
     \<and> map Mesh (ProcessedMappings s) =
         [Some (BSPSurface 0), Some (ComponentMesh 0), Some (ComponentMesh 1)]
     \<and> map (MappingGuid s) (ProcessedMappings s) =
         [Some (MakeGuid 0 0 0 0), Some (MakeGuid 0 0 0 1), Some (MakeGuid 0 0 0 2)]
     \<and> map (\<lambda>c. map_option (\<lambda>G. unat (GuidD G)) (MappingGuid s c)) (ProcessedMappings s)
         = [Some 0, Some 1, Some 2]"
  proof -
    from ExampleBuildUnsorted obtain s e' where
      ex: "BeginLightmassProcess ExampleExternalUnsorted
             (NewStaticLightingSystem ExampleExternalUnsorted ExampleOptions) IdleEditor
           = Inr (True, s, e')
       \<and> map Mesh (Mappings s) =
         [Some (BSPSurface 0), Some (ComponentMesh 0), Some (ComponentMesh 1), Some (ComponentMesh 2)]
       \<and> map bProcessMapping (Mappings s) = [True, True, True, False]"
      by (elim exE) (rule that)
    then have
      b: "BeginLightmassProcess ExampleExternalUnsorted
            (NewStaticLightingSystem ExampleExternalUnsorted ExampleOptions) IdleEditor
          = Inr (True, s, e')"
      and ms: "map Mesh (Mappings s) =
         [Some (BSPSurface 0), Some (ComponentMesh 0), Some (ComponentMesh 1), Some (ComponentMesh 2)]"
      and fs: "map bProcessMapping (Mappings s) = [True, True, True, False]"
      by simp_all
    from ms fs obtain c0 c1 c2 c3 where
      cs: "Mappings s = [c0, c1, c2, c3]"
      by (auto simp add: map_eq_Cons_conv)
    from ms fs have p: "ProcessedMappings s = [c0, c1, c2]"
      and m: "map Mesh [c0, c1, c2] =
                [Some (BSPSurface 0), Some (ComponentMesh 0), Some (ComponentMesh 1)]"
      by (simp_all add: cs ProcessedMappings_def)
    have k: "length (ProcessedMappings s) = 3" "(3::nat) \<le> 2 ^ 32"
      by (simp_all add: p)
    from deterministic_indices_dense [OF b wf] k up
    have t: "map (MappingGuid s) (ProcessedMappings s) =
           [Some (MakeGuid 0 0 0 0), Some (MakeGuid 0 0 0 1), Some (MakeGuid 0 0 0 2)]
       \<and> map (\<lambda>c. map_option (\<lambda>G. unat (GuidD G)) (MappingGuid s c)) (ProcessedMappings s)
           = [Some 0, Some 1, Some 2]"
      by simp
    from m have m': "map Mesh (ProcessedMappings s) =
           [Some (BSPSurface 0), Some (ComponentMesh 0), Some (ComponentMesh 1)]"
      by (simp only: p)
    show ?thesis
      by (intro exI [of _ s] exI [of _ e'] conjI)
        (fact b m' t [THEN conjunct1] t [THEN conjunct2])+
  qed
  from sorted_path unsorted_path show ?thesis by (rule conjI)
qed

end
